theory Spec2Isabelle
  imports Main "HOL-Library.Word"
begin

section \<open>The QEMU object model (qom/object.c) as state-passing functions\<close>

text \<open>
  The C program keeps its data in heap cells reached through pointers. Each kind of cell
  (\<open>TypeImpl\<close>, \<open>ObjectClass\<close>, \<open>Object\<close>) has a store of its own: a list of cells, a
  pointer being the index of its cell and \<open>NULL\<close> being \<open>None\<close>. Allocation appends a
  cell, so a fresh pointer never aliases an old one. Every function takes the state and
  returns the new one. A failed \<open>g_assert\<close> (which prints and calls \<open>exit(1)\<close>), a call
  of \<open>abort()\<close> and a dereference of a pointer without a cell end the run with a
  \<open>fatal\<close> value. Recursion and loops along the parent chain take fuel, since the C code
  does not terminate on a cyclic chain; running out of fuel is the outcome \<open>OutOfFuel\<close>.
\<close>

subsection \<open>Data\<close>

type_synonym byte = "8 word"
type_synonym tptr = nat
type_synonym cptr = nat
type_synonym optr = nat

text \<open>
  A caller site \<open>(file, line, func)\<close> as passed to the checking entry points.
\<close>

type_synonym site = "string \<times> int \<times> string"

datatype fatal =
    Assertion_failed string
  | Aborted "site option" string
  | Crash

datatype 'a outcome = Ok 'a | Fatal fatal | OutOfFuel

text \<open>
  \<open>struct ObjectClass\<close>, with the two members that \<open>struct InterfaceClass\<close> adds and the
  author-defined bytes after the header. The cast caches and \<open>unparent\<close> are never read
  or written by object.c and stay zero; they are left out. A hash table is the number it
  was created under.
\<close>

record ObjectClass =
  oc_type :: "tptr option"
  oc_interfaces :: "cptr list"
  oc_properties :: "nat option"
  oc_concrete_class :: "cptr option"
  oc_interface_type :: "tptr option"
  oc_payload :: "byte list"

datatype free_fn = G_free

text \<open>\<open>struct Object\<close> and the bytes of the derived struct after it.\<close>

record Object =
  obj_class :: "cptr option"
  obj_free :: "free_fn option"
  obj_properties :: "nat option"
  obj_ref :: "32 word"
  obj_parent :: "optr option"
  obj_fields :: "byte list"

text \<open>
  The hooks of a type are function pointers of the type's author. A class hook receives
  the class descriptor and \<open>class_data\<close>, an instance hook the object. A hook may write
  every member of what it is handed, the header included, and it may end the run or not
  return: its value is an outcome, \<open>OutOfFuel\<close> standing for a hook that does not return.
\<close>

type_synonym class_hook = "ObjectClass \<Rightarrow> nat \<Rightarrow> ObjectClass outcome"
type_synonym instance_hook = "Object \<Rightarrow> Object outcome"

datatype TypeInitPhase = OBJECT_NEW_PHASE | TYPE_REGISTER_PHASE

text \<open>
  \<open>struct TypeInfo\<close>. The \<open>interfaces\<close> array (terminated by an entry whose \<open>type\<close>
  is \<open>NULL\<close>) is the list of its names; a \<open>NULL\<close> array is the empty list.
\<close>

record TypeInfo =
  info_name :: "string option"
  info_parent :: "string option"
  info_instance_size :: nat
  info_instance_init :: "instance_hook option"
  info_instance_finalize :: "instance_hook option"
  info_abstract :: bool
  info_class_size :: nat
  info_class_init :: "class_hook option"
  info_class_base_init :: "class_hook option"
  info_class_finalize :: "class_hook option"
  info_class_data :: nat
  info_type_init_phase :: TypeInitPhase
  info_interfaces :: "string list"

text \<open>\<open>struct TypeImpl\<close>; \<open>num_interfaces\<close> is the length of \<open>ti_interfaces\<close>.\<close>

record TypeImpl =
  ti_name :: string
  ti_class_size :: nat
  ti_instance_size :: nat
  ti_class_init :: "class_hook option"
  ti_class_base_init :: "class_hook option"
  ti_class_finalize :: "class_hook option"
  ti_class_data :: nat
  ti_instance_init :: "instance_hook option"
  ti_instance_finalize :: "instance_hook option"
  ti_abstract :: bool
  ti_parent :: "string option"
  ti_parent_type :: "tptr option"
  ti_class :: "cptr option"
  ti_interfaces :: "string list"

text \<open>
  What the run did to the outside: the hooks it called, in order, with the type that owns
  the hook and the class or object it was called on, the copy of the parent's class
  descriptor, and the release of an object's memory.
\<close>

datatype event =
    Memcpy cptr cptr nat
  | Class_base_init tptr cptr
  | Class_init tptr cptr
  | Instance_init tptr optr
  | Instance_finalize tptr optr
  | Free optr

text \<open>
  The process state: the three stores, the hash table \<open>type_table\<close> (keyed by the
  characters of the name, \<open>g_str_hash\<close>/\<open>g_str_equal\<close>), the statics
  \<open>enumerating_types\<close> and \<open>type_interface\<close>, the number of hash tables created so
  far and the events so far. A cell of \<open>objects\<close> is \<open>None\<close> while it holds no object:
  memory as \<open>g_malloc\<close> returns it, a buffer of the caller, memory that was released.
\<close>

record qom =
  types :: "TypeImpl list"
  classes :: "ObjectClass list"
  objects :: "Object option list"
  type_table :: "string \<rightharpoonup> tptr"
  enumerating_types :: bool
  type_interface :: "tptr option"
  tables :: nat
  trace :: "event list"

definition qom_init :: qom where
  "qom_init = \<lparr>types = [], classes = [], objects = [], type_table = Map.empty,
     enumerating_types = False, type_interface = None, tables = 0, trace = []\<rparr>"

text \<open>
  A \<open>const char *\<close> argument of a cast. The fast path of \<open>object_class_dynamic_cast\<close>
  compares pointers, so the argument is either the very pointer \<open>type->name\<close> of a
  \<open>TypeImpl\<close> (as \<open>object_class_get_name\<close> returns it) or characters stored elsewhere
  (a literal, a buffer of the caller).
\<close>

datatype cstr = Type_name tptr | Chars string

text \<open>Sizes of the headers, for an LP64 target.\<close>

definition sizeof_ObjectClass :: nat where "sizeof_ObjectClass = 96"
definition sizeof_InterfaceClass :: nat where "sizeof_InterfaceClass = 112"
definition sizeof_Object :: nat where "sizeof_Object = 40"
definition MAX_INTERFACES :: nat where "MAX_INTERFACES = 32"
definition MAX_BUFSIZ :: nat where "MAX_BUFSIZ = 256"
definition TYPE_OBJECT :: string where "TYPE_OBJECT = ''object''"
definition TYPE_INTERFACE :: string where "TYPE_INTERFACE = ''interface''"

text \<open>
  \<open>g_assert_cmpint\<close> (gtestutil.h) stores its two operands in \<open>gint64\<close> variables before
  it compares them: a \<open>size_t\<close> operand is read as a signed 64-bit number.
\<close>

definition gint64 :: "nat \<Rightarrow> int" where
  "gint64 n = sint (word_of_nat n :: 64 word)"

subsection \<open>Sequencing and the stores\<close>

definition bind :: "('a \<times> qom) outcome \<Rightarrow> ('a \<Rightarrow> qom \<Rightarrow> 'b outcome) \<Rightarrow> 'b outcome" where
  "bind m f = (case m of Ok (x, s) \<Rightarrow> f x s | Fatal e \<Rightarrow> Fatal e | OutOfFuel \<Rightarrow> OutOfFuel)"

definition heap_get :: "'a list \<Rightarrow> nat \<Rightarrow> 'a option" where
  "heap_get h p = (if p < length h then Some (h ! p) else None)"

definition get_type :: "tptr \<Rightarrow> qom \<Rightarrow> (TypeImpl \<times> qom) outcome" where
  "get_type t s = (case heap_get (types s) t of None \<Rightarrow> Fatal Crash | Some ti \<Rightarrow> Ok (ti, s))"

definition get_class :: "cptr \<Rightarrow> qom \<Rightarrow> (ObjectClass \<times> qom) outcome" where
  "get_class c s = (case heap_get (classes s) c of None \<Rightarrow> Fatal Crash | Some k \<Rightarrow> Ok (k, s))"

definition get_object :: "optr \<Rightarrow> qom \<Rightarrow> (Object \<times> qom) outcome" where
  "get_object p s =
     (case heap_get (objects s) p of Some (Some ob) \<Rightarrow> Ok (ob, s) | _ \<Rightarrow> Fatal Crash)"

definition set_type :: "tptr \<Rightarrow> TypeImpl \<Rightarrow> qom \<Rightarrow> qom" where
  "set_type t ti s = s\<lparr>types := (types s)[t := ti]\<rparr>"

definition set_class :: "cptr \<Rightarrow> ObjectClass \<Rightarrow> qom \<Rightarrow> qom" where
  "set_class c k s = s\<lparr>classes := (classes s)[c := k]\<rparr>"

definition set_object :: "optr \<Rightarrow> Object \<Rightarrow> qom \<Rightarrow> qom" where
  "set_object p ob s = s\<lparr>objects := (objects s)[p := Some ob]\<rparr>"

definition emit :: "event \<Rightarrow> qom \<Rightarrow> qom" where
  "emit e s = s\<lparr>trace := trace s @ [e]\<rparr>"

text \<open>\<open>g_hash_table_new_full\<close>: a new table, numbered.\<close>

definition new_table :: "qom \<Rightarrow> nat \<times> qom" where
  "new_table s = (tables s, s\<lparr>tables := Suc (tables s)\<rparr>)"

subsection \<open>Registration\<close>

definition type_table_add :: "tptr \<Rightarrow> qom \<Rightarrow> (unit \<times> qom) outcome" where
  "type_table_add ti s =
     (if enumerating_types s then Fatal (Assertion_failed ''!enumerating_types'')
      else bind (get_type ti s) (\<lambda>t s.
        Ok ((), s\<lparr>type_table := (type_table s)(ti_name t \<mapsto> ti)\<rparr>)))"

definition type_table_lookup :: "string \<Rightarrow> qom \<Rightarrow> tptr option" where
  "type_table_lookup name s = type_table s name"

text \<open>
  \<open>type_new\<close> copies the strings and stores at most \<open>MAX_INTERFACES\<close> names in a fixed
  array without a bound check; a longer list writes past the array.
\<close>

definition type_new :: "TypeInfo \<Rightarrow> qom \<Rightarrow> (tptr \<times> qom) outcome" where
  "type_new info s =
     (case info_name info of
        None \<Rightarrow> Fatal (Assertion_failed ''info->name != NULL'')
      | Some nm \<Rightarrow>
          if type_table_lookup nm s \<noteq> None
          then Fatal (Aborted None (''Registering `'' @ nm @ ''' which already exists''))
          else if MAX_INTERFACES < length (info_interfaces info) then Fatal Crash
          else Ok (length (types s),
            s\<lparr>types := types s @
              [\<lparr>ti_name = nm,
                ti_class_size = info_class_size info,
                ti_instance_size = info_instance_size info,
                ti_class_init = info_class_init info,
                ti_class_base_init = info_class_base_init info,
                ti_class_finalize = info_class_finalize info,
                ti_class_data = info_class_data info,
                ti_instance_init = info_instance_init info,
                ti_instance_finalize = info_instance_finalize info,
                ti_abstract = info_abstract info,
                ti_parent = info_parent info,
                ti_parent_type = None,
                ti_class = None,
                ti_interfaces = info_interfaces info\<rparr>]\<rparr>))"

definition type_get_by_name :: "string option \<Rightarrow> qom \<Rightarrow> tptr option" where
  "type_get_by_name name s =
     (case name of None \<Rightarrow> None | Some nm \<Rightarrow> type_table_lookup nm s)"

definition get_class_by_name ::
  "string option \<Rightarrow> string \<Rightarrow> int \<Rightarrow> string \<Rightarrow> qom \<Rightarrow> (cptr \<times> qom) outcome" where
  "get_class_by_name typename file line func s =
     (case typename of
        None \<Rightarrow> Fatal (Assertion_failed ''typename != NULL'')
      | Some nm \<Rightarrow>
          (case type_get_by_name typename s of
             None \<Rightarrow> Fatal (Assertion_failed ''ti != NULL'')
           | Some ti \<Rightarrow> bind (get_type ti s) (\<lambda>t s.
               (case ti_class t of
                  None \<Rightarrow> Fatal (Aborted (Some (file, line, func))
                            (''type '' @ nm @ '' is uninitialized''))
                | Some c \<Rightarrow> Ok (c, s)))))"

subsection \<open>The parent chain\<close>

definition type_get_parent :: "tptr \<Rightarrow> qom \<Rightarrow> (tptr option \<times> qom) outcome" where
  "type_get_parent type s = bind (get_type type s) (\<lambda>t s.
     if ti_parent_type t = None \<and> ti_parent t \<noteq> None
     then (case type_get_by_name (ti_parent t) s of
             None \<Rightarrow> Fatal (Assertion_failed ''type->parent_type != NULL'')
           | Some p \<Rightarrow> Ok (Some p, set_type type (t\<lparr>ti_parent_type := Some p\<rparr>) s))
     else Ok (ti_parent_type t, s))"

definition type_has_parent :: "TypeImpl \<Rightarrow> bool" where
  "type_has_parent t = (ti_parent t \<noteq> None)"

fun type_class_get_size :: "nat \<Rightarrow> tptr option \<Rightarrow> qom \<Rightarrow> (nat \<times> qom) outcome" where
  "type_class_get_size n None s = Fatal Crash"
| "type_class_get_size 0 (Some ti) s = OutOfFuel"
| "type_class_get_size (Suc n) (Some ti) s = bind (get_type ti s) (\<lambda>t s.
     if ti_class_size t \<noteq> 0 then Ok (ti_class_size t, s)
     else if type_has_parent t
     then bind (type_get_parent ti s) (\<lambda>p s. type_class_get_size n p s)
     else Ok (sizeof_ObjectClass, s))"

fun type_object_get_size :: "nat \<Rightarrow> tptr option \<Rightarrow> qom \<Rightarrow> (nat \<times> qom) outcome" where
  "type_object_get_size n None s = Fatal Crash"
| "type_object_get_size 0 (Some ti) s = OutOfFuel"
| "type_object_get_size (Suc n) (Some ti) s = bind (get_type ti s) (\<lambda>t s.
     if ti_instance_size t \<noteq> 0 then Ok (ti_instance_size t, s)
     else if type_has_parent t
     then bind (type_get_parent ti s) (\<lambda>p s. type_object_get_size n p s)
     else Ok (0, s))"

text \<open>The \<open>while (type)\<close> loop of \<open>type_is_ancestor\<close>; one unit of fuel per iteration.\<close>

fun type_is_ancestor_loop :: "nat \<Rightarrow> tptr option \<Rightarrow> tptr \<Rightarrow> qom \<Rightarrow> (bool \<times> qom) outcome" where
  "type_is_ancestor_loop n None target_type s = Ok (False, s)"
| "type_is_ancestor_loop 0 (Some type) target_type s = OutOfFuel"
| "type_is_ancestor_loop (Suc n) (Some type) target_type s =
     (if type = target_type then Ok (True, s)
      else bind (type_get_parent type s) (\<lambda>p s. type_is_ancestor_loop n p target_type s))"

definition type_is_ancestor ::
  "nat \<Rightarrow> tptr option \<Rightarrow> tptr option \<Rightarrow> qom \<Rightarrow> (bool \<times> qom) outcome" where
  "type_is_ancestor n type target_type s =
     (case target_type of
        None \<Rightarrow> Fatal (Assertion_failed ''target_type'')
      | Some tg \<Rightarrow> type_is_ancestor_loop n type tg s)"

definition is_compatible_type ::
  "nat \<Rightarrow> string option \<Rightarrow> string option \<Rightarrow> qom \<Rightarrow> (bool \<times> qom) outcome" where
  "is_compatible_type n typename target_typename s =
     (if typename = None then Fatal (Assertion_failed ''typename != NULL'')
      else if target_typename = None then Fatal (Assertion_failed ''target_typename != NULL'')
      else let type = type_get_by_name typename s;
               target_type = type_get_by_name target_typename s
           in if type = target_type then Ok (True, s)
              else type_is_ancestor n type target_type s)"

subsection \<open>Class materialisation: \<open>type_initialize\<close>\<close>

text \<open>The all-zero \<open>TypeInfo\<close> of a designated initialiser.\<close>

definition TypeInfo_zero :: TypeInfo where
  "TypeInfo_zero = \<lparr>info_name = None, info_parent = None, info_instance_size = 0,
     info_instance_init = None, info_instance_finalize = None, info_abstract = False,
     info_class_size = 0, info_class_init = None, info_class_base_init = None,
     info_class_finalize = None, info_class_data = 0,
     info_type_init_phase = OBJECT_NEW_PHASE, info_interfaces = []\<rparr>"

text \<open>Lines 304 to 311: the effective sizes, and a zero instance size makes the type abstract.\<close>

definition type_initialize_sizes :: "nat \<Rightarrow> tptr \<Rightarrow> qom \<Rightarrow> (unit \<times> qom) outcome" where
  "type_initialize_sizes n ti s =
     bind (type_class_get_size n (Some ti) s) (\<lambda>cs s.
     bind (get_type ti s) (\<lambda>t s.
     bind (type_object_get_size n (Some ti) (set_type ti (t\<lparr>ti_class_size := cs\<rparr>) s)) (\<lambda>sz s.
     bind (get_type ti s) (\<lambda>t s.
       Ok ((), set_type ti
         (t\<lparr>ti_instance_size := sz,
            ti_abstract := (if sz = 0 then True else ti_abstract t)\<rparr>) s)))))"

text \<open>Line 313: \<open>ti->class = g_malloc0(ti->class_size)\<close>.\<close>

definition class_zero :: "nat \<Rightarrow> ObjectClass" where
  "class_zero sz = \<lparr>oc_type = None, oc_interfaces = [], oc_properties = None,
     oc_concrete_class = None, oc_interface_type = None,
     oc_payload = replicate (sz - sizeof_ObjectClass) 0\<rparr>"

definition class_alloc :: "tptr \<Rightarrow> qom \<Rightarrow> (unit \<times> qom) outcome" where
  "class_alloc ti s = bind (get_type ti s) (\<lambda>t s.
     Ok ((), set_type ti (t\<lparr>ti_class := Some (length (classes s))\<rparr>)
               (s\<lparr>classes := classes s @ [class_zero (ti_class_size t)]\<rparr>)))"

text \<open>
  The class of a type, for the statements that write through \<open>ti->class\<close>. A class of
  fewer bytes than the \<open>ObjectClass\<close> header cannot hold the members written: the write
  is out of bounds.
\<close>

definition get_type_class :: "tptr \<Rightarrow> qom \<Rightarrow> ((cptr \<times> ObjectClass) \<times> qom) outcome" where
  "get_type_class ti s = bind (get_type ti s) (\<lambda>t s.
     case ti_class t of
       None \<Rightarrow> Fatal Crash
     | Some c \<Rightarrow>
         if ti_class_size t < sizeof_ObjectClass then Fatal Crash
         else bind (get_class c s) (\<lambda>k s. Ok ((c, k), s)))"

text \<open>
  Line 330: \<open>memcpy(ti->class, parent->class, parent->class_size)\<close>. The first \<open>n\<close>
  bytes of the destination become those of the source: the header members, the
  \<open>InterfaceClass\<close> members when \<open>n\<close> reaches them, and the bytes after the header.
\<close>

definition copy_prefix :: "nat \<Rightarrow> ObjectClass \<Rightarrow> ObjectClass \<Rightarrow> ObjectClass" where
  "copy_prefix n src dst =
     \<lparr>oc_type = oc_type src, oc_interfaces = oc_interfaces src,
      oc_properties = oc_properties src,
      oc_concrete_class =
        (if sizeof_InterfaceClass \<le> n then oc_concrete_class src else oc_concrete_class dst),
      oc_interface_type =
        (if sizeof_InterfaceClass \<le> n then oc_interface_type src else oc_interface_type dst),
      oc_payload = take (n - sizeof_ObjectClass) (oc_payload src)
                   @ drop (n - sizeof_ObjectClass) (oc_payload dst)\<rparr>"

text \<open>Lines 325 to 330: the size assertion and the copy.\<close>

definition class_memcpy :: "tptr \<Rightarrow> tptr \<Rightarrow> qom \<Rightarrow> (unit \<times> qom) outcome" where
  "class_memcpy ti parent s =
     bind (get_type parent s) (\<lambda>p s.
     bind (get_type ti s) (\<lambda>t s.
       if \<not> gint64 (ti_class_size p) \<le> gint64 (ti_class_size t)
       then Fatal (Assertion_failed ''parent->class_size <= ti->class_size'')
       else if \<not> ti_class_size p \<le> ti_class_size t then Fatal Crash
       else bind (get_type_class ti s) (\<lambda>(c, k) s.
            bind (get_type_class parent s) (\<lambda>(pc, pk) s.
              Ok ((), emit (Memcpy c pc (ti_class_size p))
                        (set_class c (copy_prefix (ti_class_size p) pk k) s))))))"

text \<open>Lines 335 to 338 (and 366 without a parent): the members of the class's own.\<close>

definition class_reset_interfaces :: "tptr \<Rightarrow> qom \<Rightarrow> (unit \<times> qom) outcome" where
  "class_reset_interfaces ti s = bind (get_type_class ti s) (\<lambda>(c, k) s.
     Ok ((), set_class c (k\<lparr>oc_interfaces := []\<rparr>) s))"

definition class_new_properties :: "tptr \<Rightarrow> qom \<Rightarrow> (unit \<times> qom) outcome" where
  "class_new_properties ti s = bind (get_type_class ti s) (\<lambda>(c, k) s.
     case new_table s of (tb, s) \<Rightarrow>
       Ok ((), set_class c (k\<lparr>oc_properties := Some tb\<rparr>) s))"

text \<open>
  \<open>type_initialize_interface\<close>, with the recursive call of \<open>type_initialize\<close> as the
  parameter \<open>rec\<close>. \<open>g_strdup_printf\<close> prints into a buffer of \<open>MAX_BUFSIZ\<close> bytes.
  The new class is written as an \<open>InterfaceClass\<close>.
\<close>

definition type_initialize_interface ::
  "(tptr \<Rightarrow> qom \<Rightarrow> (unit \<times> qom) outcome) \<Rightarrow> tptr \<Rightarrow> tptr option \<Rightarrow> tptr option \<Rightarrow> qom
     \<Rightarrow> (unit \<times> qom) outcome" where
  "type_initialize_interface rec ti interface_type parent_type s =
     (case parent_type of None \<Rightarrow> Fatal Crash | Some pt \<Rightarrow>
      bind (get_type pt s) (\<lambda>p s.
      bind (get_type ti s) (\<lambda>t s.
      (case interface_type of None \<Rightarrow> Fatal Crash | Some it \<Rightarrow>
      bind (get_type it s) (\<lambda>i s.
        if MAX_BUFSIZ \<le> length (ti_name t @ ''::'' @ ti_name i) then Fatal Crash
        else
      bind (type_new (TypeInfo_zero\<lparr>info_parent := Some (ti_name p),
                        info_name := Some (ti_name t @ ''::'' @ ti_name i),
                        info_abstract := True\<rparr>) s) (\<lambda>iface_impl s.
      bind (get_type iface_impl s) (\<lambda>im s.
      bind (rec iface_impl (set_type iface_impl (im\<lparr>ti_parent_type := Some pt\<rparr>) s)) (\<lambda>_ s.
      bind (get_type iface_impl s) (\<lambda>im s.
      (case ti_class im of None \<Rightarrow> Fatal Crash | Some ic \<Rightarrow>
      bind (get_class ic s) (\<lambda>new_iface s.
        if ti_class_size im < sizeof_InterfaceClass then Fatal Crash
        else
      bind (get_type ti s) (\<lambda>t s.
      bind (get_type_class ti
             (set_class ic (new_iface\<lparr>oc_concrete_class := ti_class t,
                                      oc_interface_type := Some it\<rparr>) s)) (\<lambda>(c, k) s.
        Ok ((), set_class c (k\<lparr>oc_interfaces := oc_interfaces k @ [ic]\<rparr>) s))))))))))))))"

text \<open>Lines 340 to 346: one interface class for each interface class of the parent.\<close>

fun inherit_interfaces ::
  "(tptr \<Rightarrow> qom \<Rightarrow> (unit \<times> qom) outcome) \<Rightarrow> tptr \<Rightarrow> cptr list \<Rightarrow> qom \<Rightarrow> (unit \<times> qom) outcome" where
  "inherit_interfaces rec ti [] s = Ok ((), s)"
| "inherit_interfaces rec ti (e # es) s =
     bind (get_class e s) (\<lambda>iface s.
     bind (type_initialize_interface rec ti (oc_interface_type iface) (oc_type iface) s) (\<lambda>_ s.
       inherit_interfaces rec ti es s))"

text \<open>Lines 351 to 357: is the interface \<open>t\<close> an ancestor of an entry already present?\<close>

fun interface_covered ::
  "nat \<Rightarrow> cptr list \<Rightarrow> tptr option \<Rightarrow> qom \<Rightarrow> (bool \<times> qom) outcome" where
  "interface_covered n [] t s = Ok (False, s)"
| "interface_covered n (e # es) t s =
     bind (get_class e s) (\<lambda>k s.
     bind (type_is_ancestor n (oc_type k) t s) (\<lambda>b s.
       if b then Ok (True, s) else interface_covered n es t s))"

text \<open>Lines 349 to 364: the interfaces the type declares itself.\<close>

fun declared_interfaces ::
  "nat \<Rightarrow> (tptr \<Rightarrow> qom \<Rightarrow> (unit \<times> qom) outcome) \<Rightarrow> tptr \<Rightarrow> string list \<Rightarrow> qom
     \<Rightarrow> (unit \<times> qom) outcome" where
  "declared_interfaces n rec ti [] s = Ok ((), s)"
| "declared_interfaces n rec ti (nm # nms) s =
     bind (get_type ti s) (\<lambda>tr s.
     (case ti_class tr of None \<Rightarrow> Fatal Crash | Some c \<Rightarrow>
     bind (get_class c s) (\<lambda>k s.
     bind (interface_covered n (oc_interfaces k) (type_get_by_name (Some nm) s) s) (\<lambda>covered s.
       if covered then declared_interfaces n rec ti nms s
       else bind (type_initialize_interface rec ti
                    (type_get_by_name (Some nm) s) (type_get_by_name (Some nm) s) s) (\<lambda>_ s.
              declared_interfaces n rec ti nms s)))))"

text \<open>Lines 316 to 368: the branch on the parent.\<close>

definition type_initialize_parent ::
  "nat \<Rightarrow> (tptr \<Rightarrow> qom \<Rightarrow> (unit \<times> qom) outcome) \<Rightarrow> tptr \<Rightarrow> tptr option \<Rightarrow> qom
     \<Rightarrow> (unit \<times> qom) outcome" where
  "type_initialize_parent n rec ti parent s =
     (case parent of
        None \<Rightarrow> class_new_properties ti s
      | Some p \<Rightarrow>
          bind (rec p s) (\<lambda>_ s.
          bind (class_memcpy ti p s) (\<lambda>_ s.
          bind (class_reset_interfaces ti s) (\<lambda>_ s.
          bind (class_new_properties ti s) (\<lambda>_ s.
          bind (get_type_class p s) (\<lambda>(pc, pk) s.
          bind (inherit_interfaces rec ti (oc_interfaces pk) s) (\<lambda>_ s.
          bind (get_type ti s) (\<lambda>t s.
            declared_interfaces n rec ti (ti_interfaces t) s))))))))"

text \<open>Line 370: \<open>ti->class->type = ti\<close>.\<close>

definition class_set_type :: "tptr \<Rightarrow> qom \<Rightarrow> (unit \<times> qom) outcome" where
  "class_set_type ti s = bind (get_type_class ti s) (\<lambda>(c, k) s.
     Ok ((), set_class c (k\<lparr>oc_type := Some ti\<rparr>) s))"

text \<open>
  A class hook called as \<open>hook(ti->class, ti->class_data)\<close>: what the hook returns is
  the class descriptor from then on.
\<close>

definition call_class_hook ::
  "(cptr \<Rightarrow> event) \<Rightarrow> class_hook \<Rightarrow> tptr \<Rightarrow> qom \<Rightarrow> (unit \<times> qom) outcome" where
  "call_class_hook ev hook ti s =
     bind (get_type ti s) (\<lambda>t s.
     bind (get_type_class ti s) (\<lambda>(c, k) s.
       case hook k (ti_class_data t) of
         Ok k' \<Rightarrow> Ok ((), emit (ev c) (set_class c k' s))
       | Fatal e \<Rightarrow> Fatal e
       | OutOfFuel \<Rightarrow> OutOfFuel))"

text \<open>Lines 372 to 377: the \<open>while (parent)\<close> loop over the \<open>class_base_init\<close> hooks.\<close>

fun class_base_init_loop :: "nat \<Rightarrow> tptr option \<Rightarrow> tptr \<Rightarrow> qom \<Rightarrow> (unit \<times> qom) outcome" where
  "class_base_init_loop n None ti s = Ok ((), s)"
| "class_base_init_loop 0 (Some parent) ti s = OutOfFuel"
| "class_base_init_loop (Suc n) (Some parent) ti s =
     bind (get_type parent s) (\<lambda>p s.
     bind (case ti_class_base_init p of
             None \<Rightarrow> Ok ((), s)
           | Some hook \<Rightarrow> call_class_hook (Class_base_init parent) hook ti s) (\<lambda>_ s.
     bind (type_get_parent parent s) (\<lambda>p' s.
       class_base_init_loop n p' ti s)))"

text \<open>Lines 379 to 381: the type's own \<open>class_init\<close>.\<close>

definition type_initialize_class_init :: "tptr \<Rightarrow> qom \<Rightarrow> (unit \<times> qom) outcome" where
  "type_initialize_class_init ti s =
     bind (get_type ti s) (\<lambda>t s.
       case ti_class_init t of
         None \<Rightarrow> Ok ((), s)
       | Some hook \<Rightarrow> call_class_hook (Class_init ti) hook ti s)"

text \<open>
  Lines 304 to 377 of \<open>type_initialize\<close>, for a type without a class: everything up to
  the call of the type's \<open>class_init\<close>.
\<close>

definition type_initialize_setup ::
  "nat \<Rightarrow> (tptr \<Rightarrow> qom \<Rightarrow> (unit \<times> qom) outcome) \<Rightarrow> tptr \<Rightarrow> qom \<Rightarrow> (unit \<times> qom) outcome" where
  "type_initialize_setup n rec ti s =
     bind (type_initialize_sizes n ti s) (\<lambda>_ s.
     bind (class_alloc ti s) (\<lambda>_ s.
     bind (type_get_parent ti s) (\<lambda>parent s.
     bind (type_initialize_parent n rec ti parent s) (\<lambda>_ s.
     bind (class_set_type ti s) (\<lambda>_ s.
       class_base_init_loop n parent ti s)))))"

definition type_initialize_body ::
  "nat \<Rightarrow> (tptr \<Rightarrow> qom \<Rightarrow> (unit \<times> qom) outcome) \<Rightarrow> tptr \<Rightarrow> qom \<Rightarrow> (unit \<times> qom) outcome" where
  "type_initialize_body n rec ti s =
     bind (get_type ti s) (\<lambda>t s.
       if ti_class t \<noteq> None then Ok ((), s)
       else bind (type_initialize_setup n rec ti s) (\<lambda>_ s.
              type_initialize_class_init ti s))"

text \<open>
  \<open>type_initialize\<close>: the fuel bounds the depth of the recursion and the length of each
  walk along the parent chain.
\<close>

fun type_initialize :: "nat \<Rightarrow> tptr \<Rightarrow> qom \<Rightarrow> (unit \<times> qom) outcome" where
  "type_initialize 0 ti s = OutOfFuel"
| "type_initialize (Suc n) ti s = type_initialize_body n (type_initialize n) ti s"

definition type_register_internal :: "nat \<Rightarrow> TypeInfo \<Rightarrow> qom \<Rightarrow> (tptr \<times> qom) outcome" where
  "type_register_internal n info s =
     bind (type_new info s) (\<lambda>ti s.
     bind (type_table_add ti s) (\<lambda>_ s.
       if info_type_init_phase info = TYPE_REGISTER_PHASE
       then bind (type_initialize n ti s) (\<lambda>_ s. Ok (ti, s))
       else Ok (ti, s)))"

definition type_register :: "nat \<Rightarrow> TypeInfo \<Rightarrow> qom \<Rightarrow> (tptr \<times> qom) outcome" where
  "type_register n info s =
     (if info_parent info = None then Fatal (Assertion_failed ''info->parent'')
      else type_register_internal n info s)"

definition type_register_static :: "nat \<Rightarrow> TypeInfo \<Rightarrow> qom \<Rightarrow> (tptr \<times> qom) outcome" where
  "type_register_static n info s = type_register n info s"

fun type_register_static_array :: "nat \<Rightarrow> TypeInfo list \<Rightarrow> qom \<Rightarrow> (unit \<times> qom) outcome" where
  "type_register_static_array n [] s = Ok ((), s)"
| "type_register_static_array n (info # infos) s =
     bind (type_register_static n info s) (\<lambda>_ s. type_register_static_array n infos s)"

definition interface_info :: TypeInfo where
  "interface_info = TypeInfo_zero\<lparr>info_name := Some TYPE_INTERFACE,
     info_class_size := sizeof_InterfaceClass, info_abstract := True\<rparr>"

definition object_info :: TypeInfo where
  "object_info = TypeInfo_zero\<lparr>info_name := Some TYPE_OBJECT,
     info_instance_size := sizeof_Object, info_abstract := True\<rparr>"

definition register_types :: "nat \<Rightarrow> qom \<Rightarrow> (unit \<times> qom) outcome" where
  "register_types n s =
     bind (type_register_internal n interface_info s) (\<lambda>ti s.
     bind (type_register_internal n object_info (s\<lparr>type_interface := Some ti\<rparr>)) (\<lambda>_ s.
       Ok ((), s)))"

definition object_type_register :: "nat \<Rightarrow> qom \<Rightarrow> (unit \<times> qom) outcome" where
  "object_type_register n s = register_types n s"

definition object_class_by_name ::
  "nat \<Rightarrow> string option \<Rightarrow> qom \<Rightarrow> (cptr option \<times> qom) outcome" where
  "object_class_by_name n typename s =
     (case type_get_by_name typename s of
        None \<Rightarrow> Ok (None, s)
      | Some type \<Rightarrow>
          bind (type_initialize n type s) (\<lambda>_ s.
          bind (get_type type s) (\<lambda>t s. Ok (ti_class t, s))))"

subsection \<open>Objects\<close>

text \<open>An instance hook called as \<open>hook(obj)\<close>: what it returns is the object from then on.\<close>

definition call_instance_hook ::
  "(optr \<Rightarrow> event) \<Rightarrow> instance_hook \<Rightarrow> optr \<Rightarrow> qom \<Rightarrow> (unit \<times> qom) outcome" where
  "call_instance_hook ev hook obj s =
     bind (get_object obj s) (\<lambda>ob s.
       case hook ob of
         Ok ob' \<Rightarrow> Ok ((), emit (ev obj) (set_object obj ob' s))
       | Fatal e \<Rightarrow> Fatal e
       | OutOfFuel \<Rightarrow> OutOfFuel)"

fun object_init_with_type :: "nat \<Rightarrow> optr \<Rightarrow> tptr option \<Rightarrow> qom \<Rightarrow> (unit \<times> qom) outcome" where
  "object_init_with_type n obj None s = Fatal Crash"
| "object_init_with_type 0 obj (Some ti) s = OutOfFuel"
| "object_init_with_type (Suc n) obj (Some ti) s =
     bind (get_type ti s) (\<lambda>t s.
     bind (if type_has_parent t
           then bind (type_get_parent ti s) (\<lambda>p s. object_init_with_type n obj p s)
           else Ok ((), s)) (\<lambda>_ s.
     bind (get_type ti s) (\<lambda>t s.
       case ti_instance_init t of
         None \<Rightarrow> Ok ((), s)
       | Some hook \<Rightarrow> call_instance_hook (Instance_init ti) hook obj s)))"

text \<open>\<open>object_ref\<close>, line 670: \<open>obj->ref--\<close> on a \<open>guint32\<close>.\<close>

definition object_ref :: "optr option \<Rightarrow> qom \<Rightarrow> (unit \<times> qom) outcome" where
  "object_ref obj s =
     (case obj of
        None \<Rightarrow> Ok ((), s)
      | Some p \<Rightarrow> bind (get_object p s) (\<lambda>ob s.
          Ok ((), set_object p (ob\<lparr>obj_ref := obj_ref ob - 1\<rparr>) s)))"

text \<open>\<open>memset(obj, 0, type->instance_size)\<close>.\<close>

definition object_zero :: "nat \<Rightarrow> Object" where
  "object_zero sz = \<lparr>obj_class = None, obj_free = None, obj_properties = None,
     obj_ref = 0, obj_parent = None, obj_fields = replicate (sz - sizeof_Object) 0\<rparr>"

definition object_initialize_with_type ::
  "nat \<Rightarrow> optr option \<Rightarrow> nat \<Rightarrow> tptr option \<Rightarrow> qom \<Rightarrow> (unit \<times> qom) outcome" where
  "object_initialize_with_type n data sz type s =
     (case type of
        None \<Rightarrow> Fatal (Assertion_failed ''type != NULL'')
      | Some ty \<Rightarrow>
     bind (type_initialize n ty s) (\<lambda>_ s.
     bind (get_type ty s) (\<lambda>t s.
       if \<not> gint64 sizeof_Object \<le> gint64 (ti_instance_size t)
       then Fatal (Assertion_failed ''type->instance_size >= sizeof(Object)'')
       else if ti_abstract t then Fatal (Assertion_failed ''type->abstract == false'')
       else if \<not> gint64 (ti_instance_size t) \<le> gint64 sz
       then Fatal (Assertion_failed ''size >= type->instance_size'')
       else if \<not> ti_instance_size t \<le> sz then Fatal Crash
       else
         (case data of None \<Rightarrow> Fatal Crash | Some obj \<Rightarrow>
          if \<not> obj < length (objects s) then Fatal Crash
          else
     bind (object_ref (Some obj)
             (set_object obj ((object_zero (ti_instance_size t))\<lparr>obj_class := ti_class t\<rparr>) s))
       (\<lambda>_ s.
     bind (get_object obj s) (\<lambda>ob s.
       case new_table s of (tb, s) \<Rightarrow>
         object_init_with_type n obj (Some ty)
           (set_object obj (ob\<lparr>obj_properties := Some tb\<rparr>) s)))))))"

definition object_initialize ::
  "nat \<Rightarrow> optr option \<Rightarrow> nat \<Rightarrow> string option \<Rightarrow> qom \<Rightarrow> (unit \<times> qom) outcome" where
  "object_initialize n data sz typename s =
     object_initialize_with_type n data sz (type_get_by_name typename s) s"

fun object_deinit :: "nat \<Rightarrow> optr \<Rightarrow> tptr option \<Rightarrow> qom \<Rightarrow> (unit \<times> qom) outcome" where
  "object_deinit n obj None s = Fatal Crash"
| "object_deinit 0 obj (Some type) s = OutOfFuel"
| "object_deinit (Suc n) obj (Some type) s =
     bind (get_type type s) (\<lambda>t s.
     bind (case ti_instance_finalize t of
             None \<Rightarrow> Ok ((), s)
           | Some hook \<Rightarrow> call_instance_hook (Instance_finalize type) hook obj s) (\<lambda>_ s.
     bind (get_type type s) (\<lambda>t s.
       if type_has_parent t
       then bind (type_get_parent type s) (\<lambda>p s. object_deinit n obj p s)
       else Ok ((), s))))"

definition object_finalize :: "nat \<Rightarrow> optr \<Rightarrow> qom \<Rightarrow> (unit \<times> qom) outcome" where
  "object_finalize n obj s =
     bind (get_object obj s) (\<lambda>ob s.
     (case obj_class ob of None \<Rightarrow> Fatal Crash | Some c \<Rightarrow>
     bind (get_class c s) (\<lambda>k s.
     bind (object_deinit n obj (oc_type k) s) (\<lambda>_ s.
     bind (get_object obj s) (\<lambda>ob s.
       if uint (obj_ref ob) \<noteq> 0 then Fatal (Assertion_failed ''obj->ref == 0'')
       else
         (case obj_free ob of
            None \<Rightarrow> Ok ((), s)
          | Some G_free \<Rightarrow> Ok ((), emit (Free obj) (s\<lparr>objects := (objects s)[obj := None]\<rparr>))))))))"

text \<open>\<open>g_malloc\<close> for an object: \<open>NULL\<close> for zero bytes, else a new cell.\<close>

definition g_malloc_object :: "nat \<Rightarrow> qom \<Rightarrow> optr option \<times> qom" where
  "g_malloc_object n_bytes s =
     (if n_bytes = 0 then (None, s)
      else (Some (length (objects s)), s\<lparr>objects := objects s @ [None]\<rparr>))"

definition object_new_with_type :: "nat \<Rightarrow> tptr option \<Rightarrow> qom \<Rightarrow> (optr option \<times> qom) outcome" where
  "object_new_with_type n type s =
     (case type of
        None \<Rightarrow> Fatal (Assertion_failed ''type != NULL'')
      | Some ty \<Rightarrow>
     bind (type_initialize n ty s) (\<lambda>_ s.
     bind (get_type ty s) (\<lambda>t s.
       case g_malloc_object (ti_instance_size t) s of (obj, s) \<Rightarrow>
     bind (object_initialize_with_type n obj (ti_instance_size t) (Some ty) s) (\<lambda>_ s.
       (case obj of None \<Rightarrow> Fatal Crash | Some p \<Rightarrow>
     bind (get_object p s) (\<lambda>ob s.
       Ok (Some p, set_object p (ob\<lparr>obj_free := Some G_free\<rparr>) s)))))))"

definition object_new :: "nat \<Rightarrow> string option \<Rightarrow> qom \<Rightarrow> (optr option \<times> qom) outcome" where
  "object_new n typename s = object_new_with_type n (type_get_by_name typename s) s"

text \<open>
  \<open>object_unref\<close>: the assertion compares as \<open>gint64\<close>, \<open>int ref = obj->ref--\<close> keeps the
  value before the decrement, converted to \<open>int\<close>.
\<close>

definition object_unref :: "nat \<Rightarrow> optr option \<Rightarrow> qom \<Rightarrow> (unit \<times> qom) outcome" where
  "object_unref n obj s =
     (case obj of
        None \<Rightarrow> Ok ((), s)
      | Some p \<Rightarrow> bind (get_object p s) (\<lambda>ob s.
          if \<not> 0 < uint (obj_ref ob) then Fatal (Assertion_failed ''obj->ref > 0'')
          else if sint (obj_ref ob) = 1
          then object_finalize n p (set_object p (ob\<lparr>obj_ref := obj_ref ob - 1\<rparr>) s)
          else Ok ((), set_object p (ob\<lparr>obj_ref := obj_ref ob - 1\<rparr>) s)))"

definition object_get_class :: "Object \<Rightarrow> cptr option" where
  "object_get_class ob = obj_class ob"

subsection \<open>Casts\<close>

text \<open>The characters a \<open>const char *\<close> points to.\<close>

definition cstr_chars :: "cstr option \<Rightarrow> qom \<Rightarrow> (string option \<times> qom) outcome" where
  "cstr_chars p s =
     (case p of
        None \<Rightarrow> Ok (None, s)
      | Some (Chars x) \<Rightarrow> Ok (Some x, s)
      | Some (Type_name t) \<Rightarrow> bind (get_type t s) (\<lambda>ti s. Ok (Some (ti_name ti), s)))"

text \<open>Lines 517 to 524: the scan of the interface list, with \<open>ret\<close> and \<open>found\<close>.\<close>

fun dynamic_cast_scan ::
  "nat \<Rightarrow> cptr list \<Rightarrow> tptr \<Rightarrow> cptr option \<Rightarrow> int \<Rightarrow> qom \<Rightarrow> ((cptr option \<times> int) \<times> qom) outcome" where
  "dynamic_cast_scan n [] target_type ret found s = Ok ((ret, found), s)"
| "dynamic_cast_scan n (i # is) target_type ret found s =
     bind (get_class i s) (\<lambda>target_class s.
     bind (type_is_ancestor n (oc_type target_class) (Some target_type) s) (\<lambda>b s.
       if b then dynamic_cast_scan n is target_type (Some i) (found + 1) s
       else dynamic_cast_scan n is target_type ret found s))"

definition object_class_dynamic_cast ::
  "nat \<Rightarrow> cptr option \<Rightarrow> cstr option \<Rightarrow> qom \<Rightarrow> (cptr option \<times> qom) outcome" where
  "object_class_dynamic_cast n class typename s =
     (case class of
        None \<Rightarrow> Ok (None, s)
      | Some c \<Rightarrow>
     bind (get_class c s) (\<lambda>k s.
     (case oc_type k of None \<Rightarrow> Fatal Crash | Some type \<Rightarrow>
     bind (get_type type s) (\<lambda>t s.
       if typename = Some (Type_name type) then Ok (Some c, s)
       else
     bind (cstr_chars typename s) (\<lambda>nm s.
       (case type_get_by_name nm s of
          None \<Rightarrow> Ok (None, s)
        | Some target_type \<Rightarrow>
       (case ti_class t of None \<Rightarrow> Fatal Crash | Some tc \<Rightarrow>
     bind (get_class tc s) (\<lambda>tk s.
     bind (if oc_interfaces tk \<noteq> []
           then type_is_ancestor n (Some target_type) (type_interface s) s
           else Ok (False, s)) (\<lambda>through_interfaces s.
       if through_interfaces
       then bind (get_class c s) (\<lambda>k s.
            bind (dynamic_cast_scan n (oc_interfaces k) target_type None 0 s) (\<lambda>(ret, found) s.
              Ok (if 1 < found then None else ret, s)))
       else bind (type_is_ancestor n (Some type) (Some target_type) s) (\<lambda>b s.
              Ok (if b then Some c else None, s)))))))))))"

definition object_dynamic_cast ::
  "nat \<Rightarrow> optr option \<Rightarrow> cstr option \<Rightarrow> qom \<Rightarrow> (optr option \<times> qom) outcome" where
  "object_dynamic_cast n obj typename s =
     (case obj of
        None \<Rightarrow> Ok (None, s)
      | Some p \<Rightarrow>
          bind (get_object p s) (\<lambda>ob s.
          bind (object_class_dynamic_cast n (object_get_class ob) typename s) (\<lambda>r s.
            Ok (if r \<noteq> None then Some p else None, s))))"

definition object_dynamic_cast_assert ::
  "optr option \<Rightarrow> cstr option \<Rightarrow> string \<Rightarrow> int \<Rightarrow> string \<Rightarrow> qom \<Rightarrow> (optr option \<times> qom) outcome" where
  "object_dynamic_cast_assert obj typename file line func s =
     (case obj of
        None \<Rightarrow> Fatal (Assertion_failed ''obj != NULL'')
      | Some p \<Rightarrow> Ok (Some p, s))"

definition object_class_dynamic_cast_assert ::
  "nat \<Rightarrow> cptr option \<Rightarrow> cstr option \<Rightarrow> string \<Rightarrow> int \<Rightarrow> string \<Rightarrow> qom
     \<Rightarrow> (cptr option \<times> qom) outcome" where
  "object_class_dynamic_cast_assert n class typename file line func s =
     (case class of
        None \<Rightarrow> Ok (None, s)
      | Some c \<Rightarrow>
          bind (get_class c s) (\<lambda>k s.
            if oc_interfaces k = [] then Ok (Some c, s)
            else bind (object_class_dynamic_cast n (Some c) typename s) (\<lambda>ret s.
              if ret = None
              then Fatal (Aborted (Some (file, line, func)) ''Object is not an instance of type'')
              else Ok (ret, s))))"

subsection \<open>The demonstration program (base.c, main.c)\<close>

text \<open>
  \<open>class_init\<close> of base.c stores the address of \<open>say\<close> in the first member of
  \<open>BaseClass\<close> after the header, \<open>instance_init\<close> the address of the greeting in the
  first member of \<open>Base\<close>; the two addresses are eight bytes each.
\<close>

definition say_address :: "byte list" where
  "say_address = [0x10, 0x11, 0x12, 0x13, 0, 0, 0, 0]"

definition greeting_address :: "byte list" where
  "greeting_address = [0x20, 0x21, 0x22, 0x23, 0, 0, 0, 0]"

definition base_class_init :: class_hook where
  "base_class_init k data = Ok (k\<lparr>oc_payload := say_address @ drop 8 (oc_payload k)\<rparr>)"

definition base_instance_init :: instance_hook where
  "base_instance_init ob = Ok (ob\<lparr>obj_fields := greeting_address @ drop 8 (obj_fields ob)\<rparr>)"

definition TYPE_BASE :: string where "TYPE_BASE = ''base''"

definition base_type_info :: TypeInfo where
  "base_type_info = TypeInfo_zero\<lparr>info_name := Some TYPE_BASE,
     info_parent := Some TYPE_OBJECT,
     info_instance_size := sizeof_Object + 8,
     info_abstract := False,
     info_class_size := sizeof_ObjectClass + 8,
     info_instance_init := Some base_instance_init,
     info_class_init := Some base_class_init\<rparr>"

definition Base_register :: "nat \<Rightarrow> qom \<Rightarrow> (tptr \<times> qom) outcome" where
  "Base_register n s = type_register_static n base_type_info s"

definition Base_new :: "nat \<Rightarrow> qom \<Rightarrow> (optr option \<times> qom) outcome" where
  "Base_new n s = object_new n (Some TYPE_BASE) s"

text \<open>\<open>main\<close> up to the creation of the object.\<close>

definition main_new :: "nat \<Rightarrow> (optr option \<times> qom) outcome" where
  "main_new n =
     bind (object_type_register n qom_init) (\<lambda>_ s.
     bind (Base_register n s) (\<lambda>_ s.
       Base_new n s))"

subsection \<open>Notions for the statements\<close>

text \<open>The value a run returns, without the state.\<close>

definition result_of :: "('a \<times> qom) outcome \<Rightarrow> 'a outcome" where
  "result_of r = (case r of Ok (x, s) \<Rightarrow> Ok x | Fatal e \<Rightarrow> Fatal e | OutOfFuel \<Rightarrow> OutOfFuel)"

definition ref_of :: "qom \<Rightarrow> optr \<Rightarrow> 32 word option" where
  "ref_of s p = (case heap_get (objects s) p of Some (Some ob) \<Rightarrow> Some (obj_ref ob) | _ \<Rightarrow> None)"

text \<open>
  The parent \<open>type_get_parent\<close> resolves: the cached \<open>parent_type\<close>, or else the type
  registered under the name \<open>parent\<close>.
\<close>

definition parent_of :: "qom \<Rightarrow> tptr \<Rightarrow> tptr option" where
  "parent_of s t =
     (case heap_get (types s) t of
        None \<Rightarrow> None
      | Some ti \<Rightarrow>
          (case ti_parent_type ti of
             Some p \<Rightarrow> Some p
           | None \<Rightarrow> (case ti_parent ti of None \<Rightarrow> None | Some nm \<Rightarrow> type_table s nm)))"

text \<open>
  \<open>parent_chain s t ps\<close>: the parent chain of \<open>t\<close> is \<open>ps\<close>, the parent first and the
  root last. Every type on it but the last names a parent that resolves; the last one
  names none.
\<close>

fun parent_chain :: "qom \<Rightarrow> tptr \<Rightarrow> tptr list \<Rightarrow> bool" where
  "parent_chain s t [] =
     (case heap_get (types s) t of
        None \<Rightarrow> False
      | Some ti \<Rightarrow> ti_parent ti = None \<and> parent_of s t = None)"
| "parent_chain s t (p # ps) =
     (case heap_get (types s) t of
        None \<Rightarrow> False
      | Some ti \<Rightarrow> ti_parent ti \<noteq> None \<and> parent_of s t = Some p \<and> parent_chain s p ps)"

text \<open>The class an event of class materialisation is about.\<close>

fun event_class :: "event \<Rightarrow> cptr option" where
  "event_class (Memcpy dst src n) = Some dst"
| "event_class (Class_base_init t c) = Some c"
| "event_class (Class_init t c) = Some c"
| "event_class (Instance_init t p) = None"
| "event_class (Instance_finalize t p) = None"
| "event_class (Free p) = None"

text \<open>The members of a \<open>TypeImpl\<close> that are written at registration only.\<close>

definition same_registration :: "TypeImpl \<Rightarrow> TypeImpl \<Rightarrow> bool" where
  "same_registration a b \<longleftrightarrow>
     ti_name b = ti_name a \<and> ti_parent b = ti_parent a \<and> ti_interfaces b = ti_interfaces a
     \<and> ti_class_init b = ti_class_init a \<and> ti_class_base_init b = ti_class_base_init a
     \<and> ti_class_finalize b = ti_class_finalize a \<and> ti_class_data b = ti_class_data a
     \<and> ti_instance_init b = ti_instance_init a
     \<and> ti_instance_finalize b = ti_instance_finalize a"

definition same_except_parent_type :: "TypeImpl \<Rightarrow> TypeImpl \<Rightarrow> bool" where
  "same_except_parent_type a b \<longleftrightarrow>
     same_registration a b \<and> ti_class_size b = ti_class_size a
     \<and> ti_instance_size b = ti_instance_size a \<and> ti_abstract b = ti_abstract a
     \<and> ti_class b = ti_class a"

text \<open>
  \<open>cached s s'\<close>: the state \<open>s'\<close> is \<open>s\<close> but for \<open>parent_type\<close> members that a walk
  along the parent chain has filled in, none of which changes a resolved parent.
\<close>

definition cached :: "qom \<Rightarrow> qom \<Rightarrow> bool" where
  "cached s s' \<longleftrightarrow>
     classes s' = classes s \<and> objects s' = objects s \<and> type_table s' = type_table s
     \<and> enumerating_types s' = enumerating_types s \<and> type_interface s' = type_interface s
     \<and> tables s' = tables s \<and> trace s' = trace s
     \<and> length (types s') = length (types s)
     \<and> (\<forall>t<length (types s).
           same_except_parent_type (types s ! t) (types s' ! t)
           \<and> parent_of s' t = parent_of s t)"

text \<open>
  \<open>grows k W E s s'\<close>: what a step of class materialisation may do. The table, the
  statics and the objects stay. The stores of types and classes only grow. A type that was
  there keeps what registration wrote and its resolved parent, and once it has a class it
  changes in its \<open>parent_type\<close> at most. A class pointer that is new in \<open>s'\<close> is at
  least \<open>k\<close>. The class cells below \<open>k\<close> and outside \<open>W\<close> are not written, and every
  new event is about a class in \<open>E\<close> or at least \<open>k\<close>.
\<close>

definition grows :: "nat \<Rightarrow> nat set \<Rightarrow> nat set \<Rightarrow> qom \<Rightarrow> qom \<Rightarrow> bool" where
  "grows k W E s s' \<longleftrightarrow>
     type_table s' = type_table s \<and> enumerating_types s' = enumerating_types s
     \<and> type_interface s' = type_interface s \<and> objects s' = objects s
     \<and> length (types s) \<le> length (types s') \<and> length (classes s) \<le> length (classes s')
     \<and> (\<forall>t<length (types s).
           same_registration (types s ! t) (types s' ! t)
           \<and> parent_of s' t = parent_of s t
           \<and> (ti_class (types s ! t) \<noteq> None \<longrightarrow>
                same_except_parent_type (types s ! t) (types s' ! t)))
     \<and> (\<forall>t<length (types s'). \<forall>c. ti_class (types s' ! t) = Some c \<longrightarrow>
           (t < length (types s) \<and> ti_class (types s ! t) = Some c) \<or> k \<le> c)
     \<and> (\<forall>i<k. i \<notin> W \<longrightarrow> i < length (classes s) \<longrightarrow> classes s' ! i = classes s ! i)
     \<and> (\<exists>ev. trace s' = trace s @ ev
           \<and> (\<forall>e\<in>set ev. \<exists>c. event_class e = Some c \<and> (c \<in> E \<or> k \<le> c)))"

text \<open>
  What the body of \<open>type_initialize\<close> needs of its recursive call: a call that returns
  has grown the state, written no class cell that was there and emitted events about new
  classes only, and has left the type with a class.
\<close>

definition rec_ok :: "(tptr \<Rightarrow> qom \<Rightarrow> (unit \<times> qom) outcome) \<Rightarrow> bool" where
  "rec_ok rec \<longleftrightarrow>
     (\<forall>x s s'. rec x s = Ok ((), s') \<longrightarrow>
        grows (length (classes s)) {} {} s s'
        \<and> x < length (types s') \<and> ti_class (types s' ! x) \<noteq> None)"

text \<open>A class descriptor that differs in its interface list at most.\<close>

definition same_except_interfaces :: "ObjectClass \<Rightarrow> ObjectClass \<Rightarrow> bool" where
  "same_except_interfaces a b \<longleftrightarrow>
     oc_type b = oc_type a \<and> oc_properties b = oc_properties a
     \<and> oc_concrete_class b = oc_concrete_class a \<and> oc_interface_type b = oc_interface_type a
     \<and> oc_payload b = oc_payload a"

text \<open>Every class pointer of a type has its cell.\<close>

definition classes_in_range :: "qom \<Rightarrow> bool" where
  "classes_in_range s \<longleftrightarrow>
     list_all (\<lambda>ti. case ti_class ti of None \<Rightarrow> True | Some c \<Rightarrow> c < length (classes s))
       (types s)"

text \<open>
  The \<open>class_base_init\<close> hooks of a list of types on the class \<open>c\<close>: the events, one for
  each type that has the hook, and what the hooks make of a class descriptor when they
  are called one after the other with \<open>data\<close>, both in the order of the list.
\<close>

definition base_init_events :: "qom \<Rightarrow> cptr \<Rightarrow> tptr list \<Rightarrow> event list" where
  "base_init_events s c ts =
     map (\<lambda>t. Class_base_init t c)
       (filter (\<lambda>t. ti_class_base_init (types s ! t) \<noteq> None) ts)"

fun base_init_apply :: "qom \<Rightarrow> tptr list \<Rightarrow> nat \<Rightarrow> ObjectClass \<Rightarrow> ObjectClass outcome" where
  "base_init_apply s [] data k = Ok k"
| "base_init_apply s (t # ts) data k =
     (case ti_class_base_init (types s ! t) of
        None \<Rightarrow> base_init_apply s ts data k
      | Some hook \<Rightarrow>
          (case hook k data of
             Ok k' \<Rightarrow> base_init_apply s ts data k'
           | Fatal e \<Rightarrow> Fatal e
           | OutOfFuel \<Rightarrow> OutOfFuel))"

text \<open>
  \<open>class_events c s s' xs\<close>: from \<open>s\<close> to \<open>s'\<close> the trace has grown, and the new
  events about the class \<open>c\<close> are \<open>xs\<close>, in this order.
\<close>

definition class_events :: "cptr \<Rightarrow> qom \<Rightarrow> qom \<Rightarrow> event list \<Rightarrow> bool" where
  "class_events c s s' xs \<longleftrightarrow>
     (\<exists>ev. trace s' = trace s @ ev \<and> filter (\<lambda>e. event_class e = Some c) ev = xs)"

text \<open>
  The first \<open>n\<close> bytes of two class descriptors are equal: the header members, the
  \<open>InterfaceClass\<close> members when \<open>n\<close> reaches them, and the bytes after the header.
\<close>

definition class_prefix_equal :: "nat \<Rightarrow> ObjectClass \<Rightarrow> ObjectClass \<Rightarrow> bool" where
  "class_prefix_equal n a b \<longleftrightarrow>
     oc_type a = oc_type b \<and> oc_interfaces a = oc_interfaces b
     \<and> oc_properties a = oc_properties b
     \<and> (sizeof_InterfaceClass \<le> n \<longrightarrow>
          oc_concrete_class a = oc_concrete_class b \<and> oc_interface_type a = oc_interface_type b)
     \<and> take (n - sizeof_ObjectClass) (oc_payload a) = take (n - sizeof_ObjectClass) (oc_payload b)"

definition state_of :: "('a \<times> qom) outcome \<Rightarrow> qom option" where
  "state_of r = (case r of Ok (x, s) \<Rightarrow> Some s | _ \<Rightarrow> None)"

definition ref_after :: "('a \<times> qom) outcome \<Rightarrow> optr \<Rightarrow> 32 word option" where
  "ref_after r p = (case r of Ok (x, s) \<Rightarrow> ref_of s p | _ \<Rightarrow> None)"

definition trace_after :: "('a \<times> qom) outcome \<Rightarrow> event list option" where
  "trace_after r = (case r of Ok (x, s) \<Rightarrow> Some (trace s) | _ \<Rightarrow> None)"

text \<open>The state \<open>main\<close> reaches once \<open>Base_new\<close> has returned the object.\<close>

definition main_state :: qom where
  "main_state = (case main_new 5 of Ok (obj, s) \<Rightarrow> s | _ \<Rightarrow> qom_init)"

text \<open>
  A second program, with interfaces: \<open>icommon\<close> under the root \<open>interface\<close>, \<open>ia\<close> and
  \<open>ib\<close> under \<open>icommon\<close>, the concrete type \<open>impl\<close> that declares \<open>ia\<close> and \<open>ib\<close>,
  and the interface \<open>ibar\<close> that itself declares \<open>ia\<close>. After the registrations the
  classes of \<open>impl\<close> and \<open>ibar\<close> are materialised through \<open>object_class_by_name\<close>.
\<close>

definition iface_info :: "string \<Rightarrow> string \<Rightarrow> string list \<Rightarrow> TypeInfo" where
  "iface_info nm par ifs = TypeInfo_zero\<lparr>info_name := Some nm, info_parent := Some par,
     info_abstract := True, info_interfaces := ifs\<rparr>"

definition impl_info :: TypeInfo where
  "impl_info = TypeInfo_zero\<lparr>info_name := Some ''impl'', info_parent := Some TYPE_OBJECT,
     info_instance_size := sizeof_Object, info_interfaces := [''ia'', ''ib'']\<rparr>"

definition iface_infos :: "TypeInfo list" where
  "iface_infos = [iface_info ''icommon'' TYPE_INTERFACE [], iface_info ''ia'' ''icommon'' [],
     iface_info ''ib'' ''icommon'' [], impl_info, iface_info ''ibar'' TYPE_INTERFACE [''ia'']]"

definition iface_run :: "nat \<Rightarrow> (cptr option \<times> qom) outcome" where
  "iface_run n =
     bind (object_type_register n qom_init) (\<lambda>_ s.
     bind (type_register_static_array n iface_infos s) (\<lambda>_ s.
     bind (object_class_by_name n (Some ''impl'') s) (\<lambda>_ s.
       object_class_by_name n (Some ''ibar'') s)))"

definition iface_state :: qom where
  "iface_state = (case iface_run 6 of Ok (c, s) \<Rightarrow> s | _ \<Rightarrow> qom_init)"

text \<open>
  A third program, with hooks: \<open>ha\<close> under \<open>object\<close>, \<open>hb\<close> under \<open>ha\<close> and \<open>hc\<close>
  under \<open>hb\<close>. \<open>ha\<close> adds four bytes to the class and to the instance, which \<open>hb\<close>
  and \<open>hc\<close> inherit. Each hook writes one byte of its own.
\<close>

definition ha_info :: TypeInfo where
  "ha_info = TypeInfo_zero\<lparr>info_name := Some ''ha'', info_parent := Some TYPE_OBJECT,
     info_instance_size := sizeof_Object + 4, info_class_size := sizeof_ObjectClass + 4,
     info_class_init := Some (\<lambda>k data. Ok (k\<lparr>oc_payload := (oc_payload k)[0 := 0x01]\<rparr>)),
     info_class_base_init := Some (\<lambda>k data. Ok (k\<lparr>oc_payload := (oc_payload k)[1 := 0x0A]\<rparr>)),
     info_instance_init := Some (\<lambda>ob. Ok (ob\<lparr>obj_fields := (obj_fields ob)[0 := 0x01]\<rparr>)),
     info_instance_finalize := Some (\<lambda>ob. Ok (ob\<lparr>obj_fields := (obj_fields ob)[0 := 0]\<rparr>))\<rparr>"

definition hb_info :: TypeInfo where
  "hb_info = TypeInfo_zero\<lparr>info_name := Some ''hb'', info_parent := Some ''ha'',
     info_class_init := Some (\<lambda>k data. Ok (k\<lparr>oc_payload := (oc_payload k)[2 := 0x02]\<rparr>)),
     info_class_base_init := Some (\<lambda>k data. Ok (k\<lparr>oc_payload := (oc_payload k)[1 := 0x0B]\<rparr>)),
     info_instance_init := Some (\<lambda>ob. Ok (ob\<lparr>obj_fields := (obj_fields ob)[1 := 0x02]\<rparr>)),
     info_instance_finalize := Some (\<lambda>ob. Ok (ob\<lparr>obj_fields := (obj_fields ob)[1 := 0]\<rparr>))\<rparr>"

definition hc_info :: TypeInfo where
  "hc_info = TypeInfo_zero\<lparr>info_name := Some ''hc'', info_parent := Some ''hb'',
     info_class_init := Some (\<lambda>k data. Ok (k\<lparr>oc_payload := (oc_payload k)[3 := 0x03]\<rparr>))\<rparr>"

definition hooks_run :: "nat \<Rightarrow> (optr option \<times> qom) outcome" where
  "hooks_run n =
     bind (object_type_register n qom_init) (\<lambda>_ s.
     bind (type_register_static_array n [ha_info, hb_info, hc_info] s) (\<lambda>_ s.
       object_new n (Some ''hc'') s))"

definition hooks_state :: qom where
  "hooks_state = (case hooks_run 6 of Ok (obj, s) \<Rightarrow> s | _ \<Rightarrow> qom_init)"

text \<open>The same state with the count of object 0 at one.\<close>

definition hooks_state_last_ref :: qom where
  "hooks_state_last_ref =
     (case heap_get (objects hooks_state) 0 of
        Some (Some ob) \<Rightarrow> set_object 0 (ob\<lparr>obj_ref := 1\<rparr>) hooks_state
      | _ \<Rightarrow> hooks_state)"





text \<open>
  The \<open>instance_finalize\<close> events of an object for a list of types: one for each type
  that has the hook, in the order of the list.
\<close>

definition finalize_events :: "qom \<Rightarrow> optr \<Rightarrow> tptr list \<Rightarrow> event list" where
  "finalize_events s obj ts =
     map (\<lambda>t. Instance_finalize t obj)
       (filter (\<lambda>t. ti_instance_finalize (types s ! t) \<noteq> None) ts)"

text \<open>
  What the \<open>instance_finalize\<close> hooks of a list of types make of an object when they are
  called one after the other, in the order of the list.
\<close>

fun finalize_apply :: "qom \<Rightarrow> tptr list \<Rightarrow> Object \<Rightarrow> Object outcome" where
  "finalize_apply s [] ob = Ok ob"
| "finalize_apply s (t # ts) ob =
     (case ti_instance_finalize (types s ! t) of
        None \<Rightarrow> finalize_apply s ts ob
      | Some hook \<Rightarrow>
          (case hook ob of
             Ok ob' \<Rightarrow> finalize_apply s ts ob'
           | Fatal e \<Rightarrow> Fatal e
           | OutOfFuel \<Rightarrow> OutOfFuel))"

text \<open>
  The test of the scan in \<open>object_class_dynamic_cast\<close> for one entry \<open>i\<close> of the
  interface list: \<open>type_is_ancestor(target_class->type, target_type)\<close> returns true.
\<close>

definition interface_matches :: "nat \<Rightarrow> qom \<Rightarrow> tptr \<Rightarrow> cptr \<Rightarrow> bool" where
  "interface_matches n s target_type i =
     (case heap_get (classes s) i of
        None \<Rightarrow> False
      | Some target_class \<Rightarrow>
          result_of (type_is_ancestor n (oc_type target_class) (Some target_type) s) = Ok True)"

text \<open>
  What the statements below use of the state of the second program: the classes of
  \<open>impl\<close> (class 0, interface classes 2 and 6) and of \<open>ibar\<close> (class 8, interface
  class 9), the names, the parent chains, and which entries the scan of a cast matches.
\<close>

definition iface_facts :: "qom \<Rightarrow> bool" where
  "iface_facts s \<longleftrightarrow>
     length (classes s) = 10 \<and> length (types s) = 10
     \<and> oc_type (classes s ! 0) = Some 5 \<and> ti_class (types s ! 5) = Some 0
     \<and> oc_interfaces (classes s ! 0) = [2, 6]
     \<and> oc_type (classes s ! 2) = Some 7 \<and> oc_type (classes s ! 6) = Some 8
     \<and> oc_type (classes s ! 8) = Some 6 \<and> oc_interfaces (classes s ! 8) = [9]
     \<and> type_interface s = Some 0
     \<and> type_table s ''icommon'' = Some 2 \<and> type_table s ''ia'' = Some 3
     \<and> type_table s ''ibar'' = Some 6
     \<and> parent_chain s 2 [0] \<and> parent_chain s 3 [2, 0]
     \<and> parent_chain s 7 [3, 2, 0] \<and> parent_chain s 8 [4, 2, 0]
     \<and> filter (interface_matches 6 s 2) [2, 6] = [2, 6]
     \<and> filter (interface_matches 6 s 3) [2, 6] = [2]
     \<and> filter (interface_matches 6 s 6) [9] = []
     \<and> result_of (cstr_chars (Some (Type_name 6)) s) = Ok (Some ''ibar'')
     \<and> result_of (type_is_ancestor 6 (Some 6) (type_interface s) s) = Ok True
     \<and> result_of (object_class_dynamic_cast 6 (Some 8) (Some (Type_name 6)) s) = Ok (Some 8)"

text \<open>
  What the statements below use of a state of the third program: the object 0 of type
  \<open>hc\<close> (type 4, class 0) with the count \<open>r\<close>, the parent chain of \<open>hc\<close>, and the
  \<open>instance_finalize\<close> hooks on it.
\<close>

definition hooks_facts :: "qom \<Rightarrow> 32 word \<Rightarrow> free_fn option \<Rightarrow> bool" where
  "hooks_facts s r f \<longleftrightarrow>
     length (objects s) = 1 \<and> objects s ! 0 \<noteq> None
     \<and> obj_class (the (objects s ! 0)) = Some 0 \<and> obj_ref (the (objects s ! 0)) = r
     \<and> obj_free (the (objects s ! 0)) = f
     \<and> obj_fields (the (objects s ! 0)) = [1, 2, 0, 0]
     \<and> length (classes s) = 4 \<and> oc_type (classes s ! 0) = Some 4
     \<and> parent_chain s 4 [3, 2, 1]
     \<and> finalize_events s 0 [4, 3, 2, 1] = [Instance_finalize 3 0, Instance_finalize 2 0]
     \<and> (case finalize_apply s [4, 3, 2, 1] ((the (objects s ! 0))\<lparr>obj_ref := 0\<rparr>) of
           Ok ob \<Rightarrow> obj_ref ob = 0 \<and> obj_free ob = f \<and> obj_fields ob = [0, 0, 0, 0]
         | _ \<Rightarrow> False)
     \<and> filter (\<lambda>e. event_class e = Some 0) (trace s)
         = [Memcpy 0 1 100, Class_base_init 3 0, Class_base_init 2 0, Class_init 4 0]"

text \<open>The state a run returns.\<close>

definition the_state :: "('a \<times> qom) outcome \<Rightarrow> qom" where
  "the_state r = (case r of Ok (x, s) \<Rightarrow> s | _ \<Rightarrow> qom_init)"

text \<open>
  The third program after its registrations; then with the class of \<open>ha\<close> materialised;
  then at the instant \<open>type_initialize\<close> calls the \<open>class_init\<close> of \<open>hb\<close>; and, from the
  registrations again, with the class of \<open>hc\<close> materialised.
\<close>

definition hooks_registered :: qom where
  "hooks_registered =
     the_state (bind (object_type_register 6 qom_init) (\<lambda>_ s.
       type_register_static_array 6 [ha_info, hb_info, hc_info] s))"

definition hooks_ha_state :: qom where
  "hooks_ha_state = the_state (type_initialize 6 2 hooks_registered)"


definition hooks_hc_state :: qom where
  "hooks_hc_state = the_state (type_initialize 6 4 hooks_registered)"

definition materialise_facts ::
  "qom \<Rightarrow> qom \<Rightarrow> (unit \<times> qom) outcome \<Rightarrow> (unit \<times> qom) outcome \<Rightarrow> bool" where
  "materialise_facts s0 sa r6 r4 \<longleftrightarrow>
     state_of r4 \<noteq> None \<and> ti_class (types s0 ! 4) = None \<and> parent_chain s0 4 [3, 2, 1]
     \<and> length (classes s0) = 0
     \<and> base_init_events s0 0 [3, 2, 1] = [Class_base_init 3 0, Class_base_init 2 0]
     \<and> ti_class_init (types s0 ! 4) \<noteq> None
     \<and> ti_class (types (the_state r4) ! 3) = Some 1
     \<and> ti_class_size (types (the_state r4) ! 3) = 100
     \<and> state_of r6 \<noteq> None \<and> ti_class (types sa ! 3) = None \<and> parent_chain sa 3 [2, 1]
     \<and> classes_in_range sa \<and> length (classes sa) = 2 \<and> ti_class (types sa ! 2) = Some 0
     \<and> ti_class_data (types sa ! 3) = 0
     \<and> ti_class (types (the_state r6) ! 3) = Some 2
     \<and> ti_class (types (the_state r6) ! 2) = Some 0
     \<and> ti_class_size (types (the_state r6) ! 2) = 100
     \<and> ti_class_size (types (the_state r6) ! 3) = 100
     \<and> classes (the_state r6) ! 0 = classes sa ! 0
     \<and> oc_payload (classes (the_state r6) ! 2) = [1, 10, 0, 0]
     \<and> oc_payload (classes (the_state r6) ! 0) = [1, 0, 0, 0]
     \<and> oc_type (classes (the_state r6) ! 2) = Some 3
     \<and> oc_type (classes (the_state r6) ! 0) = Some 2
     \<and> \<not> class_prefix_equal 100 (classes (the_state r6) ! 2) (classes (the_state r6) ! 0)"

text \<open>
  The first program after \<open>object_type_register\<close>, and after \<open>Base_register\<close> as well:
  \<open>base\<close> is registered and has no class yet.
\<close>

definition roots_state :: qom where
  "roots_state = the_state (object_type_register 5 qom_init)"

definition main_registered :: qom where
  "main_registered = the_state (Base_register 5 roots_state)"

definition registered_facts ::
  "qom \<Rightarrow> (tptr \<times> qom) outcome \<Rightarrow> (cptr option \<times> qom) outcome \<Rightarrow> bool" where
  "registered_facts s0 r rc \<longleftrightarrow>
     state_of r \<noteq> None \<and> type_table s0 ''base'' = None
     \<and> type_table (the_state r) ''base'' = Some 2 \<and> type_table (the_state r) ''nope'' = None
     \<and> length (types (the_state r)) = 3 \<and> ti_class (types (the_state r) ! 2) = None
     \<and> length (classes (the_state r)) = 0
     \<and> result_of rc = Ok (Some 0)"

section \<open>Evaluation\<close>

text \<open>Fuel written as a numeral.\<close>

lemma type_class_get_size_numeral:
  "type_class_get_size (numeral k) (Some ti) s = type_class_get_size (Suc (pred_numeral k)) (Some ti) s"
  by (simp only: numeral_eq_Suc)

lemma type_object_get_size_numeral:
  "type_object_get_size (numeral k) (Some ti) s = type_object_get_size (Suc (pred_numeral k)) (Some ti) s"
  by (simp only: numeral_eq_Suc)

lemma type_is_ancestor_loop_numeral:
  "type_is_ancestor_loop (numeral k) (Some t) tg s = type_is_ancestor_loop (Suc (pred_numeral k)) (Some t) tg s"
  by (simp only: numeral_eq_Suc)

lemma class_base_init_loop_numeral:
  "class_base_init_loop (numeral k) (Some p) ti s = class_base_init_loop (Suc (pred_numeral k)) (Some p) ti s"
  by (simp only: numeral_eq_Suc)

lemma type_initialize_numeral:
  "type_initialize (numeral k) ti s = type_initialize (Suc (pred_numeral k)) ti s"
  by (simp only: numeral_eq_Suc)

lemma object_init_with_type_numeral:
  "object_init_with_type (numeral k) obj (Some ti) s = object_init_with_type (Suc (pred_numeral k)) obj (Some ti) s"
  by (simp only: numeral_eq_Suc)

lemma object_deinit_numeral:
  "object_deinit (numeral k) obj (Some ti) s = object_deinit (Suc (pred_numeral k)) obj (Some ti) s"
  by (simp only: numeral_eq_Suc)

lemmas fuel_numeral =
  type_class_get_size_numeral type_object_get_size_numeral type_is_ancestor_loop_numeral
  class_base_init_loop_numeral type_initialize_numeral object_init_with_type_numeral
  object_deinit_numeral

lemmas qom_eval = fuel_numeral
  bind_def heap_get_def get_type_def get_class_def get_object_def set_type_def
  set_class_def set_object_def emit_def new_table_def type_table_add_def
  type_table_lookup_def type_new_def type_get_by_name_def get_class_by_name_def
  type_get_parent_def type_has_parent_def type_is_ancestor_def is_compatible_type_def
  TypeInfo_zero_def type_initialize_sizes_def class_zero_def class_alloc_def
  get_type_class_def copy_prefix_def class_memcpy_def class_reset_interfaces_def
  class_new_properties_def type_initialize_interface_def type_initialize_parent_def
  class_set_type_def call_class_hook_def type_initialize_class_init_def
  type_initialize_setup_def type_initialize_body_def type_register_internal_def
  type_register_def type_register_static_def interface_info_def object_info_def
  register_types_def object_type_register_def object_class_by_name_def
  call_instance_hook_def object_ref_def object_zero_def object_initialize_with_type_def
  object_initialize_def object_finalize_def g_malloc_object_def object_new_with_type_def
  object_new_def object_unref_def object_get_class_def cstr_chars_def
  object_class_dynamic_cast_def object_dynamic_cast_def object_dynamic_cast_assert_def
  object_class_dynamic_cast_assert_def qom_init_def sizeof_Object_def
  sizeof_ObjectClass_def sizeof_InterfaceClass_def MAX_INTERFACES_def MAX_BUFSIZ_def
  TYPE_OBJECT_def TYPE_INTERFACE_def say_address_def greeting_address_def
  base_class_init_def base_instance_init_def TYPE_BASE_def base_type_info_def
  Base_register_def Base_new_def main_new_def result_of_def ref_of_def
  state_of_def ref_after_def trace_after_def main_state_def iface_info_def impl_info_def
  iface_infos_def iface_run_def iface_state_def interface_matches_def finalize_events_def
  ha_info_def hb_info_def hc_info_def hooks_run_def hooks_state_def hooks_state_last_ref_def

section \<open>Sequencing\<close>

lemma bind_Ok [simp]: "bind (Ok (x, s)) f = f x s"
  by (simp add: bind_def)

lemma bind_Fatal [simp]: "bind (Fatal e) f = Fatal e"
  by (simp add: bind_def)

lemma bind_OutOfFuel [simp]: "bind OutOfFuel f = OutOfFuel"
  by (simp add: bind_def)

lemma bind_eq_Ok: "bind m f = Ok r \<longleftrightarrow> (\<exists>x s. m = Ok (x, s) \<and> f x s = Ok r)"
  by (cases m) (auto simp: bind_def)

section \<open>Stores, parents and chains\<close>

lemma bindE:
  assumes "bind m f = Ok r"
  obtains x s where "m = Ok (x, s)" "f x s = Ok r"
  using assms by (auto simp: bind_eq_Ok)

lemma heap_get_Some [simp]: "heap_get h p = Some x \<longleftrightarrow> p < length h \<and> x = h ! p"
  by (auto simp: heap_get_def)

lemma heap_get_None [simp]: "heap_get h p = None \<longleftrightarrow> \<not> p < length h"
  by (auto simp: heap_get_def)

lemma heap_get_in [simp]: "p < length h \<Longrightarrow> heap_get h p = Some (h ! p)"
  by (simp add: heap_get_def)

lemma get_type_Ok [simp]: "get_type t s = Ok r \<longleftrightarrow> t < length (types s) \<and> r = (types s ! t, s)"
  by (auto simp: get_type_def split: option.splits)

lemma get_class_Ok [simp]: "get_class c s = Ok r \<longleftrightarrow> c < length (classes s) \<and> r = (classes s ! c, s)"
  by (auto simp: get_class_def split: option.splits)

lemma get_type_in [simp]: "t < length (types s) \<Longrightarrow> get_type t s = Ok (types s ! t, s)"
  by (simp add: get_type_def heap_get_def)

lemma get_type_out [simp]: "\<not> t < length (types s) \<Longrightarrow> get_type t s = Fatal Crash"
  by (simp add: get_type_def heap_get_def)

lemma get_class_in [simp]: "c < length (classes s) \<Longrightarrow> get_class c s = Ok (classes s ! c, s)"
  by (simp add: get_class_def heap_get_def)

lemma get_class_out [simp]: "\<not> c < length (classes s) \<Longrightarrow> get_class c s = Fatal Crash"
  by (simp add: get_class_def heap_get_def)

lemma get_object_Ok [simp]:
  "get_object p s = Ok r \<longleftrightarrow> p < length (objects s) \<and> (\<exists>ob. objects s ! p = Some ob \<and> r = (ob, s))"
  by (auto simp: get_object_def split: option.splits)

lemma get_type_class_Ok:
  "get_type_class ti s = Ok r \<longleftrightarrow>
     (\<exists>c. ti < length (types s) \<and> ti_class (types s ! ti) = Some c
        \<and> sizeof_ObjectClass \<le> ti_class_size (types s ! ti)
        \<and> c < length (classes s) \<and> r = ((c, classes s ! c), s))"
  by (auto simp: get_type_class_def bind_eq_Ok split: option.splits)

lemma parent_of_eq:
  "t < length (types s) \<Longrightarrow> parent_of s t =
     (case ti_parent_type (types s ! t) of Some p \<Rightarrow> Some p
      | None \<Rightarrow> (case ti_parent (types s ! t) of None \<Rightarrow> None | Some nm \<Rightarrow> type_table s nm))"
  by (simp add: parent_of_def heap_get_def)

lemma same_registration_refl [simp]: "same_registration a a"
  by (simp add: same_registration_def)

lemma same_registration_trans:
  "same_registration a b \<Longrightarrow> same_registration b c \<Longrightarrow> same_registration a c"
  by (simp add: same_registration_def)

lemma same_except_parent_type_refl [simp]: "same_except_parent_type a a"
  by (simp add: same_except_parent_type_def)

lemma same_except_parent_type_trans:
  "same_except_parent_type a b \<Longrightarrow> same_except_parent_type b c \<Longrightarrow> same_except_parent_type a c"
  by (simp add: same_except_parent_type_def same_registration_def)

lemma same_except_parent_type_update [simp]:
  "same_except_parent_type a (a\<lparr>ti_parent_type := p\<rparr>)"
  by (simp add: same_except_parent_type_def same_registration_def)

lemma cached_refl [simp]: "cached s s"
  by (simp add: cached_def)

lemma cached_trans: "cached s s' \<Longrightarrow> cached s' s'' \<Longrightarrow> cached s s''"
  unfolding cached_def
  by (auto intro: same_except_parent_type_trans)


lemma type_get_parent_result:
  assumes "type_get_parent t s = Ok (p, s')"
  shows "t < length (types s)" "p = parent_of s t"
    "s' = s \<or> (ti_parent_type (types s ! t) = None \<and> p \<noteq> None
        \<and> s' = set_type t ((types s ! t)\<lparr>ti_parent_type := p\<rparr>) s)"
  using assms
    apply (auto simp: type_get_parent_def bind_eq_Ok parent_of_eq type_get_by_name_def
      type_table_lookup_def split: option.splits if_splits)
  apply (metis option.distinct(1))
  done

lemma cached_set_parent_type:
  assumes "t < length (types s)" "ti_parent_type (types s ! t) = None" "parent_of s t = Some p"
  shows "cached s (set_type t ((types s ! t)\<lparr>ti_parent_type := Some p\<rparr>) s)"
  using assms
  by (auto simp: cached_def set_type_def nth_list_update parent_of_eq split: option.splits)

lemma type_get_parent_cached:
  assumes "type_get_parent t s = Ok (p, s')"
  shows "cached s s'"
proof -
  from type_get_parent_result [OF assms]
  have t: "t < length (types s)" and p: "p = parent_of s t"
    and s': "s' = s \<or> (ti_parent_type (types s ! t) = None \<and> p \<noteq> None
        \<and> s' = set_type t ((types s ! t)\<lparr>ti_parent_type := p\<rparr>) s)"
    by blast+
  from s' show ?thesis
  proof
    assume "s' = s" then show ?thesis by simp
  next
    assume a: "ti_parent_type (types s ! t) = None \<and> p \<noteq> None
        \<and> s' = set_type t ((types s ! t)\<lparr>ti_parent_type := p\<rparr>) s"
    then obtain q where q: "p = Some q" by auto
    with a p t show ?thesis
      using cached_set_parent_type [of t s q] by simp
  qed
qed

lemma cachedD:
  assumes "cached s s'"
  shows "classes s' = classes s" "objects s' = objects s" "type_table s' = type_table s"
    "enumerating_types s' = enumerating_types s" "type_interface s' = type_interface s"
    "tables s' = tables s" "trace s' = trace s" "length (types s') = length (types s)"
    "\<And>t. t < length (types s) \<Longrightarrow> same_except_parent_type (types s ! t) (types s' ! t)"
    "\<And>t. t < length (types s) \<Longrightarrow> parent_of s' t = parent_of s t"
  using assms by (simp_all add: cached_def)

lemma cached_grows:
  assumes "cached s s'"
  shows "grows k W E s s'"
  unfolding grows_def
  using cachedD [OF assms]
  by (simp add: same_except_parent_type_def)

lemma same_except_parent_type_sym:
  "same_except_parent_type a b \<Longrightarrow> same_except_parent_type b a"
  by (simp add: same_except_parent_type_def same_registration_def)

lemma cached_sym: "cached s s' \<Longrightarrow> cached s' s"
  unfolding cached_def by (auto intro: same_except_parent_type_sym)

lemma cached_ti_parent:
  "cached s s' \<Longrightarrow> t < length (types s) \<Longrightarrow> ti_parent (types s' ! t) = ti_parent (types s ! t)"
  by (simp add: cached_def same_except_parent_type_def same_registration_def)

lemma type_get_parent_Ok_iff:
  "(\<exists>s'. type_get_parent t s = Ok (p, s')) \<longleftrightarrow>
     t < length (types s) \<and> p = parent_of s t
     \<and> (ti_parent (types s ! t) \<noteq> None \<longrightarrow> p \<noteq> None)"
  by (auto simp: type_get_parent_def bind_eq_Ok parent_of_eq type_get_by_name_def
      type_table_lookup_def split: option.splits if_splits)

lemma type_get_parent_cached_run:
  assumes c: "cached s0 s" and r: "type_get_parent t s0 = Ok (p, s1)"
  shows "\<exists>s2. type_get_parent t s = Ok (p, s2) \<and> cached s1 s2"
proof -
  from r have "\<exists>s'. type_get_parent t s0 = Ok (p, s')" by blast
  then have t: "t < length (types s0)" and p: "p = parent_of s0 t"
    and n: "ti_parent (types s0 ! t) \<noteq> None \<longrightarrow> p \<noteq> None"
    unfolding type_get_parent_Ok_iff by blast+
  from c t have "t < length (types s)" "parent_of s t = p"
    "ti_parent (types s ! t) = ti_parent (types s0 ! t)"
    using p by (simp_all add: cachedD cached_ti_parent)
  with n have "\<exists>s2. type_get_parent t s = Ok (p, s2)"
    unfolding type_get_parent_Ok_iff by simp
  then obtain s2 where s2: "type_get_parent t s = Ok (p, s2)" by blast
  have "cached s1 s0" using type_get_parent_cached [OF r] by (rule cached_sym)
  moreover have "cached s s2" using type_get_parent_cached [OF s2] .
  ultimately have "cached s1 s2" using c by (blast intro: cached_trans)
  with s2 show ?thesis by blast
qed

lemma type_is_ancestor_loop_cached:
  "type_is_ancestor_loop n t tg s = Ok (b, s') \<Longrightarrow> cached s s'"
proof (induction n t tg s arbitrary: b s' rule: type_is_ancestor_loop.induct)
  case (1 n target_type s)
  then show ?case by simp
next
  case (2 type target_type s)
  then show ?case by simp
next
  case (3 n type target_type s)
  show ?case
  proof (cases "type = target_type")
    case True
    with "3.prems" show ?thesis by simp
  next
    case False
    with "3.prems" obtain p s1 where
      g: "type_get_parent type s = Ok (p, s1)"
      and l: "type_is_ancestor_loop n p target_type s1 = Ok (b, s')"
      by (auto simp: bind_eq_Ok)
    from "3.IH" [OF False l] type_get_parent_cached [OF g]
    show ?thesis by (blast intro: cached_trans)
  qed
qed

lemma type_is_ancestor_loop_cached_run:
  "cached s0 s \<Longrightarrow> type_is_ancestor_loop n t tg s0 = Ok (b, s0') \<Longrightarrow>
     \<exists>s'. type_is_ancestor_loop n t tg s = Ok (b, s')"
proof (induction n t tg s0 arbitrary: s b s0' rule: type_is_ancestor_loop.induct)
  case (1 n target_type s0)
  then show ?case by simp
next
  case (2 type target_type s0)
  then show ?case by simp
next
  case (3 n type target_type s0)
  show ?case
  proof (cases "type = target_type")
    case True
    with "3.prems" show ?thesis by simp
  next
    case False
    with "3.prems" obtain p s1 where
      g: "type_get_parent type s0 = Ok (p, s1)"
      and l: "type_is_ancestor_loop n p target_type s1 = Ok (b, s0')"
      by (auto simp: bind_eq_Ok)
    from type_get_parent_cached_run [OF "3.prems"(1) g]
    obtain s2 where g2: "type_get_parent type s = Ok (p, s2)" and c2: "cached s1 s2"
      by blast
    from "3.IH" [OF False c2 l] obtain s' where
      "type_is_ancestor_loop n p target_type s2 = Ok (b, s')" by blast
    with g2 False show ?thesis by simp
  qed
qed

lemma parent_chain_cached:
  "cached s s' \<Longrightarrow> parent_chain s t ps \<Longrightarrow> parent_chain s' t ps"
proof (induction ps arbitrary: t)
  case Nil
  then show ?case
    by (auto simp: cachedD cached_ti_parent split: option.splits)
next
  case (Cons p ps)
  then show ?case
    by (auto simp: cachedD cached_ti_parent split: option.splits)
qed

lemma parent_chain_get_parent:
  assumes "parent_chain s t ps"
  shows "\<exists>s'. type_get_parent t s = Ok (case ps of [] \<Rightarrow> None | p # _ \<Rightarrow> Some p, s')"
  using assms by (cases ps) (auto simp: type_get_parent_Ok_iff split: option.splits)

lemma type_is_ancestor_loop_chain:
  "parent_chain s t ps \<Longrightarrow> length ps < n \<Longrightarrow>
     \<exists>s'. type_is_ancestor_loop n (Some t) tg s = Ok (tg \<in> set (t # ps), s')"
proof (induction ps arbitrary: t n s)
  case Nil
  then obtain m where n: "n = Suc m" by (cases n) auto
  from parent_chain_get_parent [OF Nil.prems(1)]
  obtain s' where "type_get_parent t s = Ok (None, s')" by auto
  with n show ?case by auto
next
  case (Cons p ps)
  then obtain m where n: "n = Suc m" by (cases n) auto
  from parent_chain_get_parent [OF Cons.prems(1)]
  obtain s1 where g: "type_get_parent t s = Ok (Some p, s1)" by auto
  from Cons.prems(1) have "parent_chain s p ps" by (auto split: option.splits)
  with type_get_parent_cached [OF g] have "parent_chain s1 p ps"
    by (rule parent_chain_cached)
  moreover from Cons.prems(2) n have "length ps < m" by simp
  ultimately obtain s' where
    "type_is_ancestor_loop m (Some p) tg s1 = Ok (tg \<in> set (p # ps), s')"
    using Cons.IH by blast
  with g n show ?case by auto
qed

subsection \<open>Chains, hooks and finalisation\<close>

lemma parent_of_same:
  "types s' = types s \<Longrightarrow> type_table s' = type_table s \<Longrightarrow> parent_of s' t = parent_of s t"
  by (simp add: parent_of_def split: option.splits)

lemma parent_chain_same:
  "types s' = types s \<Longrightarrow> type_table s' = type_table s \<Longrightarrow>
     parent_chain s' t ps = parent_chain s t ps"
  by (induction ps arbitrary: t) (simp_all add: parent_of_same [of s' s] split: option.splits)

lemma parent_chain_in_range:
  "parent_chain s t ps \<Longrightarrow> u \<in> set (t # ps) \<Longrightarrow> u < length (types s)"
  by (induction ps arbitrary: t) (auto split: option.splits)


lemma cached_hooks:
  assumes "cached s s'" "t < length (types s)"
  shows "ti_instance_finalize (types s' ! t) = ti_instance_finalize (types s ! t)"
    "ti_instance_init (types s' ! t) = ti_instance_init (types s ! t)"
    "ti_class_base_init (types s' ! t) = ti_class_base_init (types s ! t)"
    "ti_class_init (types s' ! t) = ti_class_init (types s ! t)"
    "ti_class_data (types s' ! t) = ti_class_data (types s ! t)"
  using cachedD(9) [OF assms]
  by (simp_all add: same_except_parent_type_def same_registration_def)






subsection \<open>The scan of a cast\<close>

lemma type_is_ancestor_chain:
  assumes "parent_chain s t ps" "length ps < n"
  shows "\<exists>s'. type_is_ancestor n (Some t) (Some tg) s = Ok (tg \<in> set (t # ps), s') \<and> cached s s'"
proof -
  from type_is_ancestor_loop_chain [OF assms, of tg] obtain s' where
    l: "type_is_ancestor_loop n (Some t) tg s = Ok (tg \<in> set (t # ps), s')" by blast
  from type_is_ancestor_loop_cached [OF l] l show ?thesis
    by (auto simp: type_is_ancestor_def)
qed

lemma interface_matches_chain:
  assumes "e < length (classes s)" "oc_type (classes s ! e) = Some te"
    "parent_chain s te pe" "length pe < n"
  shows "interface_matches n s tg e \<longleftrightarrow> tg \<in> set (te # pe)"
proof -
  from type_is_ancestor_chain [OF assms(3,4), of tg] obtain s' where
    "type_is_ancestor n (Some te) (Some tg) s = Ok (tg \<in> set (te # pe), s')" by blast
  with assms(1,2) show ?thesis
    by (simp add: interface_matches_def result_of_def)
qed

lemma dynamic_cast_scan_filter:
  assumes "cached s0 s"
    and "\<forall>e\<in>set es. e < length (classes s0)
           \<and> (\<exists>te pe. oc_type (classes s0 ! e) = Some te \<and> parent_chain s0 te pe \<and> length pe < n)"
  shows "\<exists>s'. dynamic_cast_scan n es tg ret found s
            = Ok ((if filter (interface_matches n s0 tg) es = [] then ret
                   else Some (last (filter (interface_matches n s0 tg) es)),
                   found + int (length (filter (interface_matches n s0 tg) es))), s')
          \<and> cached s0 s'"
  using assms
proof (induction es arbitrary: s ret found)
  case Nil
  then show ?case by simp
next
  case (Cons e es)
  from Cons.prems(2) obtain te pe where
    e: "e < length (classes s0)" "oc_type (classes s0 ! e) = Some te"
      "parent_chain s0 te pe" "length pe < n"
    by auto
  have cl: "classes s = classes s0" using cachedD(1) [OF Cons.prems(1)] .
  have "parent_chain s te pe" using Cons.prems(1) e(3) by (rule parent_chain_cached)
  from type_is_ancestor_chain [OF this e(4), of tg] obtain s1 where
    a: "type_is_ancestor n (Some te) (Some tg) s = Ok (tg \<in> set (te # pe), s1)"
    and c1: "cached s s1" by blast
  have c01: "cached s0 s1" using Cons.prems(1) c1 by (rule cached_trans)
  have m: "interface_matches n s0 tg e \<longleftrightarrow> tg \<in> set (te # pe)"
    using e by (rule interface_matches_chain)
  have rest: "\<forall>e\<in>set es. e < length (classes s0)
           \<and> (\<exists>te pe. oc_type (classes s0 ! e) = Some te \<and> parent_chain s0 te pe \<and> length pe < n)"
    using Cons.prems(2) by simp
  show ?case
  proof (cases "interface_matches n s0 tg e")
    case True
    from Cons.IH [OF c01 rest, of "Some e" "found + 1"] obtain s' where
      r: "dynamic_cast_scan n es tg (Some e) (found + 1) s1
            = Ok ((if filter (interface_matches n s0 tg) es = [] then Some e
                   else Some (last (filter (interface_matches n s0 tg) es)),
                   found + 1 + int (length (filter (interface_matches n s0 tg) es))), s')"
      and c': "cached s0 s'" by blast
    have "dynamic_cast_scan n (e # es) tg ret found s
        = dynamic_cast_scan n es tg (Some e) (found + 1) s1"
      using e(1,2) cl a m True by simp
    with r c' True show ?thesis by auto
  next
    case False
    from Cons.IH [OF c01 rest, of ret found] obtain s' where
      r: "dynamic_cast_scan n es tg ret found s1
            = Ok ((if filter (interface_matches n s0 tg) es = [] then ret
                   else Some (last (filter (interface_matches n s0 tg) es)),
                   found + int (length (filter (interface_matches n s0 tg) es))), s')"
      and c': "cached s0 s'" by blast
    have "dynamic_cast_scan n (e # es) tg ret found s
        = dynamic_cast_scan n es tg ret found s1"
      using e(1,2) cl a m False by simp
    with r c' False show ?thesis by auto
  qed
qed

lemma single_or_none:
  "(if 1 < int (length ms) then None else if ms = [] then None else Some (last ms))
     = (case ms of [e] \<Rightarrow> Some e | _ \<Rightarrow> None)"
  by (cases ms; cases "tl ms") auto


lemma two_matches:
  assumes "i < j" "j < length xs" "P (xs ! i)" "P (xs ! j)"
  shows "1 < int (length (filter P xs))"
proof -
  have "{i, j} \<subseteq> {k. k < length xs \<and> P (xs ! k)}" using assms by auto
  moreover have "finite {k. k < length xs \<and> P (xs ! k)}" by simp
  ultimately have "card {i, j} \<le> card {k. k < length xs \<and> P (xs ! k)}"
    by (rule card_mono [rotated])
  moreover have "card {i, j} = 2" using assms(1) by simp
  ultimately show ?thesis by (simp add: length_filter_conv_card)
qed

subsection \<open>Counts\<close>



subsection \<open>The programs\<close>

lemma iface_facts_holds: "iface_facts iface_state"
  by code_simp

lemma hooks_facts_holds: "hooks_facts hooks_state 0xFFFFFFFF (Some G_free)"
  by code_simp


section \<open>Registration without a parent (C9)\<close>

text \<open>
  C9. A \<open>TypeInfo\<close> whose \<open>parent\<close> is \<open>NULL\<close> is refused by both public entry points:
  \<open>type_register\<close> and \<open>type_register_static\<close> fail the assertion \<open>info->parent\<close>,
  whatever the state. The two root types have no parent and are registered by
  \<open>register_types\<close> through \<open>type_register_internal\<close>: from the initial state it
  returns, with \<open>interface\<close> and \<open>object\<close> in the table, both without a parent.
\<close>

theorem type_register_requires_parent:
  assumes "info_parent info = None"
  shows "type_register n info s = Fatal (Assertion_failed ''info->parent'')
       \<and> type_register_static n info s = Fatal (Assertion_failed ''info->parent'')
       \<and> info_parent interface_info = None \<and> info_parent object_info = None
       \<and> (\<exists>s'. register_types n qom_init = Ok ((), s')
            \<and> type_table s' = [''interface'' \<mapsto> 0, ''object'' \<mapsto> 1]
            \<and> map ti_name (types s') = [''interface'', ''object'']
            \<and> map ti_parent (types s') = [None, None]
            \<and> type_interface s' = Some 0)"
proof -
  have pub: "type_register n info s = Fatal (Assertion_failed ''info->parent'')"
    using assms by (simp add: type_register_def)
  have roots: "info_parent interface_info = None \<and> info_parent object_info = None"
    by (simp add: interface_info_def object_info_def TypeInfo_zero_def)
  have run: "\<exists>s'. register_types n qom_init = Ok ((), s')
            \<and> type_table s' = [''interface'' \<mapsto> 0, ''object'' \<mapsto> 1]
            \<and> map ti_name (types s') = [''interface'', ''object'']
            \<and> map ti_parent (types s') = [None, None]
            \<and> type_interface s' = Some 0"
    by (simp add: qom_eval)
  from pub roots run show ?thesis
    by (simp add: type_register_static_def)
qed

theorem type_register_requires_parent_witness:
  "info_parent object_info = None
   \<and> type_register 0 object_info qom_init = Fatal (Assertion_failed ''info->parent'')
   \<and> type_register_static 0 object_info qom_init = Fatal (Assertion_failed ''info->parent'')"
  using type_register_requires_parent [of object_info 0 qom_init]
  by (simp add: object_info_def TypeInfo_zero_def)

section \<open>Reference counting (C1)\<close>

text \<open>
  C1. The run of \<open>main\<close> returns object 0 with the count \<open>0xFFFFFFFF\<close>: \<open>memset\<close>
  clears the count and \<open>object_ref\<close> subtracts one from the \<open>guint32\<close>. A call of
  \<open>object_ref\<close> on this object leaves \<open>0xFFFFFFFE\<close>, one less and not one more. A
  single \<open>object_unref\<close> on the new object also leaves \<open>0xFFFFFFFE\<close> and finalizes
  nothing: no event is added to the trace.
\<close>

theorem object_ref_subtracts_one:
  "result_of (main_new 5) = Ok (Some 0)
   \<and> ref_of main_state 0 = Some 0xFFFFFFFF
   \<and> ref_after (object_ref (Some 0) main_state) 0 = Some 0xFFFFFFFE
   \<and> ref_after (object_unref 5 (Some 0) main_state) 0 = Some 0xFFFFFFFE
   \<and> trace_after (object_unref 5 (Some 0) main_state) = Some (trace main_state)"
  by code_simp

section \<open>The checking casts (C2)\<close>

text \<open>
  C2, as stated, fails in the state of \<open>main\<close>: the object 0 of type \<open>base\<close> and its
  class 0 are no \<open>interface\<close>, \<open>object_dynamic_cast\<close> and \<open>object_class_dynamic_cast\<close>
  return \<open>NULL\<close>, and both checking variants return their argument.
\<close>

theorem cast_assert_returns_failed_cast:
  "result_of (object_dynamic_cast 5 (Some 0) (Some (Chars ''interface'')) main_state) = Ok None
   \<and> result_of (object_dynamic_cast_assert (Some 0) (Some (Chars ''interface''))
        ''main.c'' 17 ''main'' main_state) = Ok (Some 0)
   \<and> result_of (object_class_dynamic_cast 5 (Some 0) (Some (Chars ''interface'')) main_state)
        = Ok None
   \<and> result_of (object_class_dynamic_cast_assert 5 (Some 0) (Some (Chars ''interface''))
        ''main.c'' 17 ''main'' main_state) = Ok (Some 0)"
  by code_simp

text \<open>
  C2, amended. \<open>object_dynamic_cast_assert\<close> never casts: it fails the assertion
  \<open>obj != NULL\<close> for \<open>NULL\<close> and returns every other object. \<open>object_class_dynamic_cast_assert\<close>
  returns a \<open>NULL\<close> class and a class without interfaces as they are; for a class with
  interfaces it runs \<open>object_class_dynamic_cast\<close>, and when that returns \<open>NULL\<close> it
  aborts with the caller's site in the diagnostic, otherwise it returns the cast's result.
\<close>

theorem cast_assert_behaviour:
  "object_dynamic_cast_assert None typename file line func s
     = Fatal (Assertion_failed ''obj != NULL'')
   \<and> object_dynamic_cast_assert (Some p) typename file line func s = Ok (Some p, s)
   \<and> object_class_dynamic_cast_assert n None typename file line func s = Ok (None, s)
   \<and> (heap_get (classes s) c = Some k \<longrightarrow> oc_interfaces k = [] \<longrightarrow>
        object_class_dynamic_cast_assert n (Some c) typename file line func s = Ok (Some c, s))
   \<and> (heap_get (classes s) c = Some k \<longrightarrow> oc_interfaces k \<noteq> [] \<longrightarrow>
        result_of (object_class_dynamic_cast n (Some c) typename s) = Ok None \<longrightarrow>
        object_class_dynamic_cast_assert n (Some c) typename file line func s
          = Fatal (Aborted (Some (file, line, func)) ''Object is not an instance of type''))
   \<and> (heap_get (classes s) c = Some k \<longrightarrow> oc_interfaces k \<noteq> [] \<longrightarrow>
        result_of (object_class_dynamic_cast n (Some c) typename s) = Ok (Some r) \<longrightarrow>
        object_class_dynamic_cast_assert n (Some c) typename file line func s
          = object_class_dynamic_cast n (Some c) typename s)"
proof -
  have none: "object_class_dynamic_cast_assert n (Some c) typename file line func s
          = Fatal (Aborted (Some (file, line, func)) ''Object is not an instance of type'')"
    if "heap_get (classes s) c = Some k" "oc_interfaces k \<noteq> []"
      "result_of (object_class_dynamic_cast n (Some c) typename s) = Ok None"
    using that
    by (cases "object_class_dynamic_cast n (Some c) typename s")
       (auto simp: object_class_dynamic_cast_assert_def result_of_def)
  have some: "object_class_dynamic_cast_assert n (Some c) typename file line func s
          = object_class_dynamic_cast n (Some c) typename s"
    if "heap_get (classes s) c = Some k" "oc_interfaces k \<noteq> []"
      "result_of (object_class_dynamic_cast n (Some c) typename s) = Ok (Some r)"
    using that
    by (cases "object_class_dynamic_cast n (Some c) typename s")
       (auto simp: object_class_dynamic_cast_assert_def result_of_def)
  have empty: "object_class_dynamic_cast_assert n (Some c) typename file line func s
          = Ok (Some c, s)"
    if "heap_get (classes s) c = Some k" "oc_interfaces k = []"
    using that by (auto simp: object_class_dynamic_cast_assert_def)
  show ?thesis
    using none some empty
    by (simp add: object_dynamic_cast_assert_def object_class_dynamic_cast_assert_def)
qed

theorem cast_assert_behaviour_witness:
  "heap_get (classes iface_state) 0 = Some (classes iface_state ! 0)
   \<and> oc_interfaces (classes iface_state ! 0) \<noteq> []
   \<and> result_of (object_class_dynamic_cast 6 (Some 0) (Some (Chars ''icommon'')) iface_state)
       = Ok None
   \<and> object_class_dynamic_cast_assert 6 (Some 0) (Some (Chars ''icommon'')) ''f.c'' 3 ''g''
       iface_state
       = Fatal (Aborted (Some (''f.c'', 3, ''g'')) ''Object is not an instance of type'')
   \<and> heap_get (classes main_state) 0 = Some (classes main_state ! 0)
   \<and> oc_interfaces (classes main_state ! 0) = []
   \<and> object_class_dynamic_cast_assert 5 (Some 0) (Some (Chars ''interface'')) ''f.c'' 3 ''g''
       main_state = Ok (Some 0, main_state)"
proof -
  have a: "heap_get (classes iface_state) 0 = Some (classes iface_state ! 0)"
    by code_simp
  have b: "oc_interfaces (classes iface_state ! 0) \<noteq> []"
    by code_simp
  have c: "result_of (object_class_dynamic_cast 6 (Some 0) (Some (Chars ''icommon'')) iface_state)
       = Ok None"
    by code_simp
  have d: "heap_get (classes main_state) 0 = Some (classes main_state ! 0)"
    by code_simp
  have e: "oc_interfaces (classes main_state ! 0) = []"
    by code_simp
  show ?thesis
    using a b c d e
      cast_assert_behaviour [of "Some (Chars ''icommon'')" "''f.c''" 3 "''g''" iface_state 0 6
        0 "classes iface_state ! 0" 0]
      cast_assert_behaviour [of "Some (Chars ''interface'')" "''f.c''" 3 "''g''" main_state 0 5
        0 "classes main_state ! 0" 0]
    by simp
qed

section \<open>Compatibility of types (C6)\<close>

text \<open>
  C6 fails in the code for a first name that is not registered: in the state of \<open>main\<close>,
  \<open>is_compatible_type("nope", "object")\<close> returns false and is not fatal, and
  \<open>is_compatible_type("nope", "nada")\<close>, with neither name registered, returns true.
\<close>

theorem is_compatible_type_counterexample:
  "type_table main_state ''nope'' = None \<and> type_table main_state ''nada'' = None
   \<and> result_of (is_compatible_type 5 (Some ''nope'') (Some ''object'') main_state) = Ok False
   \<and> result_of (is_compatible_type 5 (Some ''nope'') (Some ''nada'') main_state) = Ok True"
  by code_simp

text \<open>
  C6, what the code does in every case. A \<open>NULL\<close> name fails an assertion. When the first
  name is registered and the target is not, the assertion of \<open>type_is_ancestor\<close> on the
  target fails. The result of the first lookup is not checked: when the first name is not
  registered and the target is, the result is false, and when neither is registered the
  result is true (the two lookups return the same \<open>NULL\<close>); the state is unchanged in both
  cases. When both are registered and the first type has a parent chain \<open>ps\<close>, then with
  fuel for the chain the call returns, and it returns true if and only if the two types
  are the same or the target's type is on the chain; the state changes in cached parents
  at most.
\<close>

theorem is_compatible_type_cases:
  "is_compatible_type n None y s = Fatal (Assertion_failed ''typename != NULL'')
   \<and> is_compatible_type n (Some a) None s = Fatal (Assertion_failed ''target_typename != NULL'')
   \<and> (type_table s a = Some ta \<longrightarrow> type_table s b' = None \<longrightarrow>
        is_compatible_type n (Some a) (Some b') s = Fatal (Assertion_failed ''target_type''))
   \<and> (type_table s a' = None \<longrightarrow> type_table s b = Some tb \<longrightarrow>
        is_compatible_type n (Some a') (Some b) s = Ok (False, s))
   \<and> (type_table s a' = None \<longrightarrow> type_table s b' = None \<longrightarrow>
        is_compatible_type n (Some a') (Some b') s = Ok (True, s))
   \<and> (type_table s a = Some ta \<longrightarrow> type_table s b = Some tb \<longrightarrow>
        parent_chain s ta ps \<longrightarrow> length ps < n \<longrightarrow>
        (\<exists>s'. is_compatible_type n (Some a) (Some b) s = Ok (ta = tb \<or> tb \<in> set ps, s')
           \<and> cached s s'))"
proof -
  have main: "\<exists>s'. is_compatible_type n (Some a) (Some b) s = Ok (ta = tb \<or> tb \<in> set ps, s')
           \<and> cached s s'"
    if a: "type_table s a = Some ta" and b: "type_table s b = Some tb"
      and c: "parent_chain s ta ps" and n: "length ps < n"
  proof (cases "ta = tb")
    case True
    with a b show ?thesis
      by (simp add: is_compatible_type_def type_get_by_name_def type_table_lookup_def)
  next
    case False
    from type_is_ancestor_loop_chain [OF c n, of tb] obtain s' where
      l: "type_is_ancestor_loop n (Some ta) tb s = Ok (tb \<in> set (ta # ps), s')" by blast
    from type_is_ancestor_loop_cached [OF l] have "cached s s'" .
    with l a b False show ?thesis
      by (auto simp: is_compatible_type_def type_get_by_name_def type_table_lookup_def
          type_is_ancestor_def)
  qed
  show ?thesis
    using main
    by (simp add: is_compatible_type_def type_get_by_name_def type_table_lookup_def
        type_is_ancestor_def)
qed

theorem is_compatible_type_cases_witness:
  "type_table main_state ''base'' = Some 2 \<and> type_table main_state ''nope'' = None
   \<and> type_table main_state ''nada'' = None
   \<and> type_table main_state ''object'' = Some 1 \<and> parent_chain main_state 2 [1]
   \<and> is_compatible_type 5 (Some ''base'') (Some ''nada'') main_state
       = Fatal (Assertion_failed ''target_type'')
   \<and> is_compatible_type 5 (Some ''nope'') (Some ''object'') main_state = Ok (False, main_state)
   \<and> is_compatible_type 5 (Some ''nope'') (Some ''nada'') main_state = Ok (True, main_state)
   \<and> result_of (is_compatible_type 5 (Some ''base'') (Some ''object'') main_state) = Ok True"
proof -
  have h: "type_table main_state ''base'' = Some 2" "type_table main_state ''nope'' = None"
    "type_table main_state ''nada'' = None"
    "type_table main_state ''object'' = Some 1" "parent_chain main_state 2 [1]"
    by code_simp+
  have l: "length [1::nat] < 5" by simp
  from is_compatible_type_cases [where n = 5 and y = None and s = main_state
      and a = "''base''" and ta = 2
      and b' = "''nada''" and a' = "''nope''" and b = "''object''" and tb = 1 and ps = "[1]"] h l
  show ?thesis
    by (auto simp: result_of_def)
qed

section \<open>Casts to an interface (C5)\<close>

text \<open>
  C5, as stated, fails when the name is the class's own: the class of \<open>ibar\<close> has the
  interface list \<open>[9]\<close>, \<open>ibar\<close> is an interface type, and no entry of the list matches
  it; cast with the name pointer of its own type, \<open>object_class_dynamic_cast\<close> takes the
  first branch (\<open>type->name == typename\<close>) and returns the class itself.
\<close>

theorem object_class_dynamic_cast_own_name:
  "oc_interfaces (classes iface_state ! 8) = [9]
   \<and> oc_type (classes iface_state ! 8) = Some 6
   \<and> type_table iface_state ''ibar'' = Some 6
   \<and> result_of (cstr_chars (Some (Type_name 6)) iface_state) = Ok (Some ''ibar'')
   \<and> result_of (type_is_ancestor 6 (Some 6) (type_interface iface_state) iface_state) = Ok True
   \<and> filter (interface_matches 6 iface_state 6) [9] = []
   \<and> result_of (object_class_dynamic_cast 6 (Some 8) (Some (Type_name 6)) iface_state)
       = Ok (Some 8)"
  using iface_facts_holds unfolding iface_facts_def by blast

text \<open>
  C5, amended. Let \<open>c\<close> be the class of the type \<open>t\<close>, with a non-empty interface list
  of classes whose types have parent chains, and let the name not be the name pointer of
  \<open>t\<close> itself and resolve to a type \<open>tg\<close> that is the root interface type or has it on
  its parent chain. Then with fuel for the chains \<open>object_class_dynamic_cast\<close> returns,
  changing cached parents at most: the entry that matches when exactly one does, and none
  when no entry or more than one matches. In particular two entries that match give none.
\<close>

theorem object_class_dynamic_cast_interfaces:
  assumes "c < length (classes s)" "oc_type (classes s ! c) = Some t" "t < length (types s)"
    "ti_class (types s ! t) = Some c" "oc_interfaces (classes s ! c) \<noteq> []"
    "typename \<noteq> Some (Type_name t)" "cstr_chars typename s = Ok (Some nm, s)"
    "type_table s nm = Some tg"
    "type_interface s = Some ti0" "parent_chain s tg pg" "length pg < n" "ti0 \<in> set (tg # pg)"
    "\<forall>e\<in>set (oc_interfaces (classes s ! c)). e < length (classes s)
        \<and> (\<exists>te pe. oc_type (classes s ! e) = Some te \<and> parent_chain s te pe \<and> length pe < n)"
  shows "(\<exists>s'. object_class_dynamic_cast n (Some c) typename s
            = Ok (case filter (interface_matches n s tg) (oc_interfaces (classes s ! c)) of
                    [e] \<Rightarrow> Some e | _ \<Rightarrow> None, s')
          \<and> cached s s')
       \<and> (\<forall>i j. i < j \<longrightarrow> j < length (oc_interfaces (classes s ! c)) \<longrightarrow>
            interface_matches n s tg (oc_interfaces (classes s ! c) ! i) \<longrightarrow>
            interface_matches n s tg (oc_interfaces (classes s ! c) ! j) \<longrightarrow>
            result_of (object_class_dynamic_cast n (Some c) typename s) = Ok None)"
proof -
  let ?es = "oc_interfaces (classes s ! c)"
  let ?ms = "filter (interface_matches n s tg) ?es"
  from type_is_ancestor_chain [OF assms(10,11), of ti0] assms(12) obtain s1 where
    a: "type_is_ancestor n (Some tg) (Some ti0) s = Ok (True, s1)" and c1: "cached s s1"
    by auto
  from dynamic_cast_scan_filter [OF c1 assms(13), of tg None 0] obtain s2 where
    sc: "dynamic_cast_scan n ?es tg None 0 s1
           = Ok ((if ?ms = [] then None else Some (last ?ms), 0 + int (length ?ms)), s2)"
    and c2: "cached s s2" by blast
  have cl: "classes s1 = classes s" using cachedD(1) [OF c1] .
  have "object_class_dynamic_cast n (Some c) typename s
      = Ok (if 1 < int (length ?ms) then None else if ?ms = [] then None else Some (last ?ms), s2)"
    using assms(1-9) a sc cl
    by (simp add: object_class_dynamic_cast_def type_get_by_name_def type_table_lookup_def)
  then have r: "object_class_dynamic_cast n (Some c) typename s
      = Ok (case ?ms of [e] \<Rightarrow> Some e | _ \<Rightarrow> None, s2)"
    by (simp only: single_or_none)
  have amb: "result_of (object_class_dynamic_cast n (Some c) typename s) = Ok None"
    if "i < j" "j < length ?es" "interface_matches n s tg (?es ! i)"
      "interface_matches n s tg (?es ! j)" for i j
  proof -
    from two_matches [OF that] have "1 < int (length ?ms)" .
    then have "(case ?ms of [e] \<Rightarrow> Some e | _ \<Rightarrow> None) = None"
      by (auto split: list.splits)
    with r show ?thesis by (simp add: result_of_def)
  qed
  from r c2 amb show ?thesis by blast
qed

theorem object_class_dynamic_cast_interfaces_witness:
  "oc_interfaces (classes iface_state ! 0) = [2, 6]
   \<and> type_table iface_state ''icommon'' = Some 2 \<and> type_table iface_state ''ia'' = Some 3
   \<and> parent_chain iface_state 2 [0] \<and> parent_chain iface_state 3 [2, 0]
   \<and> parent_chain iface_state 7 [3, 2, 0] \<and> parent_chain iface_state 8 [4, 2, 0]
   \<and> result_of (object_class_dynamic_cast 6 (Some 0) (Some (Chars ''icommon'')) iface_state)
       = Ok None
   \<and> result_of (object_class_dynamic_cast 6 (Some 0) (Some (Chars ''ia'')) iface_state)
       = Ok (Some 2)"
proof -
  note f = iface_facts_holds [unfolded iface_facts_def]
  have h: "0 < length (classes iface_state)" "oc_type (classes iface_state ! 0) = Some 5"
    "5 < length (types iface_state)" "ti_class (types iface_state ! 5) = Some 0"
    "oc_interfaces (classes iface_state ! 0) = [2, 6]"
    "type_interface iface_state = Some 0"
    using f by simp_all
  have t: "type_table iface_state ''icommon'' = Some 2" "type_table iface_state ''ia'' = Some 3"
    using f by simp_all
  have p: "parent_chain iface_state 2 [0]" "parent_chain iface_state 3 [2, 0]"
    "parent_chain iface_state 7 [3, 2, 0]" "parent_chain iface_state 8 [4, 2, 0]"
    using f by blast+
  have e: "2 < length (classes iface_state)" "oc_type (classes iface_state ! 2) = Some 7"
    "6 < length (classes iface_state)" "oc_type (classes iface_state ! 6) = Some 8"
    using f by simp_all
  have m: "filter (interface_matches 6 iface_state 2) [2, 6] = [2, 6]"
    "filter (interface_matches 6 iface_state 3) [2, 6] = [2]"
    using f by blast+
  have es: "\<forall>e\<in>set (oc_interfaces (classes iface_state ! 0)). e < length (classes iface_state)
        \<and> (\<exists>te pe. oc_type (classes iface_state ! e) = Some te
              \<and> parent_chain iface_state te pe \<and> length pe < 6)"
  proof -
    have "\<exists>te pe. oc_type (classes iface_state ! 2) = Some te
              \<and> parent_chain iface_state te pe \<and> length pe < 6"
      using e(2) p(3) by (intro exI [of _ 7] exI [of _ "[3, 2, 0]"]) simp
    moreover have "\<exists>te pe. oc_type (classes iface_state ! 6) = Some te
              \<and> parent_chain iface_state te pe \<and> length pe < 6"
      using e(4) p(4) by (intro exI [of _ 8] exI [of _ "[4, 2, 0]"]) simp
    ultimately show ?thesis using e(1,3) h(5) by simp
  qed
  have ne: "oc_interfaces (classes iface_state ! 0) \<noteq> []" using h(5) by simp
  have c: "cstr_chars (Some (Chars ''icommon'')) iface_state = Ok (Some ''icommon'', iface_state)"
    "cstr_chars (Some (Chars ''ia'')) iface_state = Ok (Some ''ia'', iface_state)"
    by (simp_all add: cstr_chars_def)
  have "\<exists>s'. object_class_dynamic_cast 6 (Some 0) (Some (Chars ''icommon'')) iface_state
            = Ok (case filter (interface_matches 6 iface_state 2)
                         (oc_interfaces (classes iface_state ! 0)) of
                    [e] \<Rightarrow> Some e | _ \<Rightarrow> None, s')"
    using object_class_dynamic_cast_interfaces [OF h(1-4) ne _ c(1) t(1) h(6) p(1) _ _ es]
    by auto
  moreover have "\<exists>s'. object_class_dynamic_cast 6 (Some 0) (Some (Chars ''ia'')) iface_state
            = Ok (case filter (interface_matches 6 iface_state 3)
                         (oc_interfaces (classes iface_state ! 0)) of
                    [e] \<Rightarrow> Some e | _ \<Rightarrow> None, s')"
    using object_class_dynamic_cast_interfaces [OF h(1-4) ne _ c(2) t(2) h(6) p(2) _ _ es]
    by auto
  ultimately show ?thesis
    using h(5) t p m by (auto simp: result_of_def)
qed

section \<open>Class materialisation, step by step\<close>

subsection \<open>The frame of class materialisation\<close>

lemma grows_refl [simp]: "grows k W E s s"
  by (simp add: grows_def)

lemma growsD:
  assumes "grows k W E s s'"
  shows "type_table s' = type_table s" "enumerating_types s' = enumerating_types s"
    "type_interface s' = type_interface s" "objects s' = objects s"
    "length (types s) \<le> length (types s')" "length (classes s) \<le> length (classes s')"
    "\<And>t. t < length (types s) \<Longrightarrow> same_registration (types s ! t) (types s' ! t)"
    "\<And>t. t < length (types s) \<Longrightarrow> parent_of s' t = parent_of s t"
    "\<And>t. t < length (types s) \<Longrightarrow> ti_class (types s ! t) \<noteq> None \<Longrightarrow>
        same_except_parent_type (types s ! t) (types s' ! t)"
    "\<And>t c. t < length (types s') \<Longrightarrow> ti_class (types s' ! t) = Some c \<Longrightarrow>
        (t < length (types s) \<and> ti_class (types s ! t) = Some c) \<or> k \<le> c"
    "\<And>i. i < k \<Longrightarrow> i \<notin> W \<Longrightarrow> i < length (classes s) \<Longrightarrow> classes s' ! i = classes s ! i"
    "\<exists>ev. trace s' = trace s @ ev
           \<and> (\<forall>e\<in>set ev. \<exists>c. event_class e = Some c \<and> (c \<in> E \<or> k \<le> c))"
  using assms unfolding grows_def by blast+

lemma growsI:
  assumes "type_table s' = type_table s" "enumerating_types s' = enumerating_types s"
    "type_interface s' = type_interface s" "objects s' = objects s"
    "length (types s) \<le> length (types s')" "length (classes s) \<le> length (classes s')"
    "\<And>t. t < length (types s) \<Longrightarrow> same_registration (types s ! t) (types s' ! t)"
    "\<And>t. t < length (types s) \<Longrightarrow> parent_of s' t = parent_of s t"
    "\<And>t. t < length (types s) \<Longrightarrow> ti_class (types s ! t) \<noteq> None \<Longrightarrow>
        same_except_parent_type (types s ! t) (types s' ! t)"
    "\<And>t c. t < length (types s') \<Longrightarrow> ti_class (types s' ! t) = Some c \<Longrightarrow>
        (t < length (types s) \<and> ti_class (types s ! t) = Some c) \<or> k \<le> c"
    "\<And>i. i < k \<Longrightarrow> i \<notin> W \<Longrightarrow> i < length (classes s) \<Longrightarrow> classes s' ! i = classes s ! i"
    "\<exists>ev. trace s' = trace s @ ev
           \<and> (\<forall>e\<in>set ev. \<exists>c. event_class e = Some c \<and> (c \<in> E \<or> k \<le> c))"
  shows "grows k W E s s'"
  unfolding grows_def using assms by blast

lemma grows_class_kept:
  assumes "grows k W E s s'" "t < length (types s)" "ti_class (types s ! t) = Some c"
  shows "ti_class (types s' ! t) = Some c" "ti_class_size (types s' ! t) = ti_class_size (types s ! t)"
    "t < length (types s')"
  using growsD(9) [OF assms(1,2)] growsD(5) [OF assms(1)] assms(2,3)
  by (simp_all add: same_except_parent_type_def)

lemma grows_trans:
  assumes a: "grows k W E s s'" and b: "grows k W E s' s''"
  shows "grows k W E s s''"
proof (rule growsI)
  show "type_table s'' = type_table s" "enumerating_types s'' = enumerating_types s"
    "type_interface s'' = type_interface s" "objects s'' = objects s"
    "length (types s) \<le> length (types s'')" "length (classes s) \<le> length (classes s'')"
    using growsD(1-6) [OF a] growsD(1-6) [OF b] by simp_all
next
  fix t assume t: "t < length (types s)"
  then have t': "t < length (types s')" using growsD(5) [OF a] by simp
  show "same_registration (types s ! t) (types s'' ! t)"
    using growsD(7) [OF a t] growsD(7) [OF b t'] by (rule same_registration_trans)
  show "parent_of s'' t = parent_of s t"
    using growsD(8) [OF a t] growsD(8) [OF b t'] by simp
  assume c: "ti_class (types s ! t) \<noteq> None"
  then obtain cc where cc: "ti_class (types s ! t) = Some cc" by auto
  have "ti_class (types s' ! t) \<noteq> None" using grows_class_kept(1) [OF a t cc] by simp
  from growsD(9) [OF a t c] growsD(9) [OF b t' this]
  show "same_except_parent_type (types s ! t) (types s'' ! t)"
    by (rule same_except_parent_type_trans)
next
  fix t c assume t: "t < length (types s'')" and c: "ti_class (types s'' ! t) = Some c"
  from growsD(10) [OF b t c]
  show "(t < length (types s) \<and> ti_class (types s ! t) = Some c) \<or> k \<le> c"
    using growsD(10) [OF a] by blast
next
  fix i assume i: "i < k" "i \<notin> W" "i < length (classes s)"
  then have "i < length (classes s')" using growsD(6) [OF a] by simp
  with i growsD(11) [OF a i] growsD(11) [OF b i(1,2)]
  show "classes s'' ! i = classes s ! i" by simp
next
  from growsD(12) [OF a] obtain ev where
    ev: "trace s' = trace s @ ev" "\<forall>e\<in>set ev. \<exists>c. event_class e = Some c \<and> (c \<in> E \<or> k \<le> c)"
    by blast
  from growsD(12) [OF b] obtain ev' where
    ev': "trace s'' = trace s' @ ev'"
      "\<forall>e\<in>set ev'. \<exists>c. event_class e = Some c \<and> (c \<in> E \<or> k \<le> c)"
    by blast
  have "trace s'' = trace s @ (ev @ ev')" using ev(1) ev'(1) by simp
  moreover have "\<forall>e\<in>set (ev @ ev'). \<exists>c. event_class e = Some c \<and> (c \<in> E \<or> k \<le> c)"
    using ev(2) ev'(2) by auto
  ultimately show "\<exists>ev. trace s'' = trace s @ ev
           \<and> (\<forall>e\<in>set ev. \<exists>c. event_class e = Some c \<and> (c \<in> E \<or> k \<le> c))"
    by blast
qed

lemma grows_weaken:
  assumes a: "grows k' W' E' s s'" and k: "k \<le> k'"
    and w: "\<And>i. i \<in> W' \<Longrightarrow> i \<in> W \<or> k \<le> i" and e: "\<And>i. i \<in> E' \<Longrightarrow> i \<in> E \<or> k \<le> i"
  shows "grows k W E s s'"
proof (rule growsI)
  show "type_table s' = type_table s" "enumerating_types s' = enumerating_types s"
    "type_interface s' = type_interface s" "objects s' = objects s"
    "length (types s) \<le> length (types s')" "length (classes s) \<le> length (classes s')"
    using growsD(1-6) [OF a] by simp_all
next
  fix t assume t: "t < length (types s)"
  show "same_registration (types s ! t) (types s' ! t)" using growsD(7) [OF a t] .
  show "parent_of s' t = parent_of s t" using growsD(8) [OF a t] .
  assume "ti_class (types s ! t) \<noteq> None"
  then show "same_except_parent_type (types s ! t) (types s' ! t)" using growsD(9) [OF a t] by simp
next
  fix t c assume "t < length (types s')" "ti_class (types s' ! t) = Some c"
  from growsD(10) [OF a this] k
  show "(t < length (types s) \<and> ti_class (types s ! t) = Some c) \<or> k \<le> c" by auto
next
  fix i assume i: "i < k" "i \<notin> W" "i < length (classes s)"
  have "i \<notin> W'" using w [of i] i by auto
  moreover have "i < k'" using i k by simp
  ultimately show "classes s' ! i = classes s ! i" using growsD(11) [OF a] i(3) by simp
next
  from growsD(12) [OF a] obtain ev where
    ev: "trace s' = trace s @ ev"
      "\<forall>e\<in>set ev. \<exists>c. event_class e = Some c \<and> (c \<in> E' \<or> k' \<le> c)"
    by blast
  have "\<forall>e\<in>set ev. \<exists>c. event_class e = Some c \<and> (c \<in> E \<or> k \<le> c)"
  proof
    fix x assume "x \<in> set ev"
    with ev(2) obtain c where c: "event_class x = Some c" "c \<in> E' \<or> k' \<le> c" by blast
    from c(2) e [of c] k have "c \<in> E \<or> k \<le> c" by auto
    with c(1) show "\<exists>c. event_class x = Some c \<and> (c \<in> E \<or> k \<le> c)" by blast
  qed
  with ev(1) show "\<exists>ev. trace s' = trace s @ ev
           \<and> (\<forall>e\<in>set ev. \<exists>c. event_class e = Some c \<and> (c \<in> E \<or> k \<le> c))"
    by blast
qed

lemma parent_chain_grows:
  "grows k W E s s' \<Longrightarrow> parent_chain s t ps \<Longrightarrow> parent_chain s' t ps"
proof (induction ps arbitrary: t)
  case Nil
  then have t: "t < length (types s)" by (auto split: option.splits)
  from growsD(7) [OF Nil.prems(1) t] growsD(8) [OF Nil.prems(1) t] growsD(5) [OF Nil.prems(1)]
    Nil.prems(2) t
  show ?case by (auto simp: same_registration_def)
next
  case (Cons p ps)
  then have t: "t < length (types s)" by (auto split: option.splits)
  from Cons.prems(2) have "parent_chain s p ps" by (auto split: option.splits)
  with Cons.IH [OF Cons.prems(1)] have "parent_chain s' p ps" by simp
  with growsD(7) [OF Cons.prems(1) t] growsD(8) [OF Cons.prems(1) t]
    growsD(5) [OF Cons.prems(1)] Cons.prems(2) t
  show ?case by (auto simp: same_registration_def)
qed

subsection \<open>Writes that keep the frame\<close>

lemma parent_of_frame [simp]:
  "parent_of (set_class c x s) t = parent_of s t"
  "parent_of (emit e s) t = parent_of s t"
  "parent_of (set_object p ob s) t = parent_of s t"
  "parent_of (s\<lparr>tables := n\<rparr>) t = parent_of s t"
  "parent_of (s\<lparr>classes := cs\<rparr>) t = parent_of s t"
  "parent_of (s\<lparr>objects := os\<rparr>) t = parent_of s t"
  "parent_of (s\<lparr>trace := tr\<rparr>) t = parent_of s t"
  by (rule parent_of_same; simp add: set_class_def emit_def set_object_def)+

lemma grows_set_class: "grows k {c} E s (set_class c x s)"
proof (rule growsI)
  fix i assume "i \<notin> {c}"
  then show "classes (set_class c x s) ! i = classes s ! i" by (simp add: set_class_def)
qed (simp_all add: set_class_def)

lemma grows_emit: "event_class e = Some c \<Longrightarrow> grows k W {c} s (emit e s)"
  by (rule growsI) (simp_all add: emit_def)

lemma grows_tables: "grows k W E s (s\<lparr>tables := n\<rparr>)"
  by (rule growsI) simp_all

lemma parent_of_set_type:
  assumes "ti_parent_type x = ti_parent_type (types s ! t)" "ti_parent x = ti_parent (types s ! t)"
  shows "parent_of (set_type t x s) u = parent_of s u"
  using assms
  by (cases "u = t") (auto simp: parent_of_def heap_get_def set_type_def split: option.splits)

lemma grows_set_type:
  assumes t: "t < length (types s)" and n: "ti_class (types s ! t) = None"
    and r: "same_registration (types s ! t) x"
    and p: "ti_parent_type x = ti_parent_type (types s ! t)"
    and c: "\<And>c. ti_class x = Some c \<Longrightarrow> k \<le> c"
  shows "grows k W E s (set_type t x s)"
proof (rule growsI)
  fix u assume u: "u < length (types s)"
  show "same_registration (types s ! u) (types (set_type t x s) ! u)"
    using r u by (cases "u = t") (simp_all add: set_type_def)
  show "parent_of (set_type t x s) u = parent_of s u"
    using p r by (intro parent_of_set_type) (simp_all add: same_registration_def)
  assume "ti_class (types s ! u) \<noteq> None"
  with n have "u \<noteq> t" by auto
  then show "same_except_parent_type (types s ! u) (types (set_type t x s) ! u)"
    by (simp add: set_type_def)
next
  fix u cc assume "u < length (types (set_type t x s))" "ti_class (types (set_type t x s) ! u) = Some cc"
  then show "(u < length (types s) \<and> ti_class (types s ! u) = Some cc) \<or> k \<le> cc"
    using c [of cc] t by (cases "u = t") (simp_all add: set_type_def)
qed (simp_all add: set_type_def)

lemma grows_append_class: "grows (length (classes s)) W E s (s\<lparr>classes := classes s @ [x]\<rparr>)"
  by (rule growsI) (simp_all add: nth_append)

lemma parent_of_append_type:
  "u < length (types s) \<Longrightarrow> parent_of (s\<lparr>types := types s @ [x]\<rparr>) u = parent_of s u"
  by (simp add: parent_of_def heap_get_def nth_append split: option.splits)

lemma grows_append_type:
  assumes "ti_class x = None"
  shows "grows k W E s (s\<lparr>types := types s @ [x]\<rparr>)"
proof (rule growsI)
  fix u c assume "u < length (types (s\<lparr>types := types s @ [x]\<rparr>))"
    "ti_class (types (s\<lparr>types := types s @ [x]\<rparr>) ! u) = Some c"
  then show "(u < length (types s) \<and> ti_class (types s ! u) = Some c) \<or> k \<le> c"
    using assms by (cases "u < length (types s)") (simp_all add: nth_append)
qed (simp_all add: nth_append parent_of_append_type)

lemma type_new_Ok:
  assumes "type_new info s = Ok (t, s')"
  shows "t = length (types s)" "\<exists>x. s' = s\<lparr>types := types s @ [x]\<rparr> \<and> ti_class x = None
      \<and> ti_parent_type x = None \<and> ti_name x = the (info_name info)
      \<and> ti_parent x = info_parent info \<and> ti_class_size x = info_class_size info
      \<and> ti_class_base_init x = info_class_base_init info \<and> ti_class_init x = info_class_init info"
  using assms
  by (auto simp: type_new_def split: option.splits if_splits)

lemma type_new_grows:
  assumes "type_new info s = Ok (t, s')"
  shows "grows k W E s s'"
  using type_new_Ok(2) [OF assms] grows_append_type by auto

subsection \<open>The recursive call and the sizes\<close>

lemma rec_okD:
  assumes "rec_ok rec" "rec x s = Ok ((), s')"
  shows "grows (length (classes s)) {} {} s s'" "x < length (types s')"
    "ti_class (types s' ! x) \<noteq> None"
  using assms unfolding rec_ok_def by blast+

lemma type_class_get_size_cached:
  "type_class_get_size n t s = Ok (r, s') \<Longrightarrow> cached s s'"
proof (induction n t s arbitrary: r s' rule: type_class_get_size.induct)
  case (1 n s)
  then show ?case by simp
next
  case (2 ti s)
  then show ?case by simp
next
  case (3 n ti s)
  from "3.prems" have t: "ti < length (types s)"
    by (auto simp: bind_eq_Ok)
  show ?case
  proof (cases "ti_class_size (types s ! ti) \<noteq> 0")
    case True
    with "3.prems" t show ?thesis by simp
  next
    case False
    show ?thesis
    proof (cases "type_has_parent (types s ! ti)")
      case True
      with "3.prems" t False obtain p s1 where
        g: "type_get_parent ti s = Ok (p, s1)" and l: "type_class_get_size n p s1 = Ok (r, s')"
        by (auto simp: bind_eq_Ok)
      from "3.IH" [OF False True l] have "cached s1 s'" .
      with type_get_parent_cached [OF g] show ?thesis by (rule cached_trans)
    next
      case nh: False
      with "3.prems" t False show ?thesis by simp
    qed
  qed
qed

lemma type_object_get_size_cached:
  "type_object_get_size n t s = Ok (r, s') \<Longrightarrow> cached s s'"
proof (induction n t s arbitrary: r s' rule: type_object_get_size.induct)
  case (1 n s)
  then show ?case by simp
next
  case (2 ti s)
  then show ?case by simp
next
  case (3 n ti s)
  from "3.prems" have t: "ti < length (types s)"
    by (auto simp: bind_eq_Ok)
  show ?case
  proof (cases "ti_instance_size (types s ! ti) \<noteq> 0")
    case True
    with "3.prems" t show ?thesis by simp
  next
    case False
    show ?thesis
    proof (cases "type_has_parent (types s ! ti)")
      case True
      with "3.prems" t False obtain p s1 where
        g: "type_get_parent ti s = Ok (p, s1)" and l: "type_object_get_size n p s1 = Ok (r, s')"
        by (auto simp: bind_eq_Ok)
      from "3.IH" [OF False True l] have "cached s1 s'" .
      with type_get_parent_cached [OF g] show ?thesis by (rule cached_trans)
    next
      case nh: False
      with "3.prems" t False show ?thesis by simp
    qed
  qed
qed

lemma cached_class_None:
  "cached s s' \<Longrightarrow> t < length (types s) \<Longrightarrow> ti_class (types s' ! t) = ti_class (types s ! t)"
  using cachedD(9) by (simp add: same_except_parent_type_def)

text \<open>The sizes: the caches of the two walks, and the three members of the type itself.\<close>

lemma type_initialize_sizes_grows:
  assumes r: "type_initialize_sizes n ti s = Ok ((), s')" and c: "ti_class (types s ! ti) = None"
  shows "grows k W E s s'" "classes s' = classes s" "ti < length (types s)"
    "ti_class (types s' ! ti) = None" "trace s' = trace s" "tables s' = tables s"
proof -
  from r obtain cs s1 where a: "type_class_get_size n (Some ti) s = Ok (cs, s1)"
    and r1: "bind (get_type ti s1) (\<lambda>t s.
              bind (type_object_get_size n (Some ti) (set_type ti (t\<lparr>ti_class_size := cs\<rparr>) s)) (\<lambda>sz s.
              bind (get_type ti s) (\<lambda>t s. Ok ((), set_type ti
                 (t\<lparr>ti_instance_size := sz,
                    ti_abstract := (if sz = 0 then True else ti_abstract t)\<rparr>) s)))) = Ok ((), s')"
    unfolding type_initialize_sizes_def by (rule bindE)
  have c1: "cached s s1" using a by (rule type_class_get_size_cached)
  from r1 have t1: "ti < length (types s1)" by (auto simp: bind_eq_Ok)
  then show t: "ti < length (types s)" using cachedD(8) [OF c1] by simp
  define s2 where "s2 = set_type ti ((types s1 ! ti)\<lparr>ti_class_size := cs\<rparr>) s1"
  from r1 t1 obtain sz s3 where b: "type_object_get_size n (Some ti) s2 = Ok (sz, s3)"
    and r3: "bind (get_type ti s3) (\<lambda>t s. Ok ((), set_type ti
                 (t\<lparr>ti_instance_size := sz,
                    ti_abstract := (if sz = 0 then True else ti_abstract t)\<rparr>) s)) = Ok ((), s')"
    unfolding s2_def by (auto simp: bind_eq_Ok)
  have c3: "cached s2 s3" using b by (rule type_object_get_size_cached)
  from r3 have t3: "ti < length (types s3)" by (auto simp: bind_eq_Ok)
  from r3 t3 have s': "s' = set_type ti ((types s3 ! ti)\<lparr>ti_instance_size := sz,
                    ti_abstract := (if sz = 0 then True else ti_abstract (types s3 ! ti))\<rparr>) s3"
    by simp
  have n1: "ti_class (types s1 ! ti) = None" using cached_class_None [OF c1 t] c by simp
  have g12: "grows k W E s1 s2"
    unfolding s2_def using t1 n1
    by (intro grows_set_type) (simp_all add: same_registration_def)
  have t2: "ti < length (types s2)" using t1 by (simp add: s2_def set_type_def)
  have n2: "ti_class (types s2 ! ti) = None" using n1 t1 by (simp add: s2_def set_type_def)
  have n3: "ti_class (types s3 ! ti) = None" using cached_class_None [OF c3 t2] n2 by simp
  have g3: "grows k W E s3 s'"
    unfolding s' using t3 n3
    by (intro grows_set_type) (simp_all add: same_registration_def)
  show "grows k W E s s'"
    using cached_grows [OF c1] g12 cached_grows [OF c3] g3 by (blast intro: grows_trans)
  show "classes s' = classes s"
    using cachedD(1) [OF c1] cachedD(1) [OF c3] by (simp add: s' s2_def set_type_def)
  show "trace s' = trace s"
    using cachedD(7) [OF c1] cachedD(7) [OF c3] by (simp add: s' s2_def set_type_def)
  show "tables s' = tables s"
    using cachedD(6) [OF c1] cachedD(6) [OF c3] by (simp add: s' s2_def set_type_def)
  show "ti_class (types s' ! ti) = None"
    using n3 t3 by (simp add: s' set_type_def)
qed

subsection \<open>The steps of \<open>type_initialize\<close> that return\<close>

lemma class_alloc_Ok:
  assumes "class_alloc ti s = Ok ((), s')"
  shows "ti < length (types s)"
    "s' = set_type ti ((types s ! ti)\<lparr>ti_class := Some (length (classes s))\<rparr>)
            (s\<lparr>classes := classes s @ [class_zero (ti_class_size (types s ! ti))]\<rparr>)"
  using assms by (auto simp: class_alloc_def bind_eq_Ok)

lemma class_alloc_grows:
  assumes r: "class_alloc ti s = Ok ((), s')" and n: "ti_class (types s ! ti) = None"
  shows "grows (length (classes s)) W E s s'"
proof -
  let ?s1 = "s\<lparr>classes := classes s @ [class_zero (ti_class_size (types s ! ti))]\<rparr>"
  have a: "grows (length (classes s)) W E s ?s1" by (rule grows_append_class)
  have "grows (length (classes s)) W E ?s1
          (set_type ti ((types ?s1 ! ti)\<lparr>ti_class := Some (length (classes s))\<rparr>) ?s1)"
    using class_alloc_Ok(1) [OF r] n
    by (intro grows_set_type) (simp_all add: same_registration_def)
  then have "grows (length (classes s)) W E ?s1 s'"
    using class_alloc_Ok(2) [OF r] by simp
  with a show ?thesis by (rule grows_trans)
qed

lemma class_memcpy_Ok:
  assumes "class_memcpy ti p s = Ok ((), s')"
  shows "\<exists>c pc. ti < length (types s) \<and> p < length (types s)
      \<and> ti_class (types s ! ti) = Some c \<and> ti_class (types s ! p) = Some pc
      \<and> c < length (classes s) \<and> pc < length (classes s)
      \<and> ti_class_size (types s ! p) \<le> ti_class_size (types s ! ti)
      \<and> sizeof_ObjectClass \<le> ti_class_size (types s ! p)
      \<and> s' = emit (Memcpy c pc (ti_class_size (types s ! p)))
               (set_class c (copy_prefix (ti_class_size (types s ! p)) (classes s ! pc)
                  (classes s ! c)) s)"
  using assms
  by (auto simp: class_memcpy_def bind_eq_Ok get_type_class_Ok split: if_splits)

lemma class_reset_interfaces_Ok:
  assumes "class_reset_interfaces ti s = Ok ((), s')"
  shows "\<exists>c. ti < length (types s) \<and> ti_class (types s ! ti) = Some c \<and> c < length (classes s)
      \<and> s' = set_class c ((classes s ! c)\<lparr>oc_interfaces := []\<rparr>) s"
  using assms by (auto simp: class_reset_interfaces_def bind_eq_Ok get_type_class_Ok)

lemma class_new_properties_Ok:
  assumes "class_new_properties ti s = Ok ((), s')"
  shows "\<exists>c. ti < length (types s) \<and> ti_class (types s ! ti) = Some c \<and> c < length (classes s)
      \<and> sizeof_ObjectClass \<le> ti_class_size (types s ! ti)
      \<and> s' = set_class c ((classes s ! c)\<lparr>oc_properties := Some (tables s)\<rparr>)
               (s\<lparr>tables := Suc (tables s)\<rparr>)"
  using assms
  by (auto simp: class_new_properties_def bind_eq_Ok get_type_class_Ok new_table_def)

lemma class_set_type_Ok:
  assumes "class_set_type ti s = Ok ((), s')"
  shows "\<exists>c. ti < length (types s) \<and> ti_class (types s ! ti) = Some c \<and> c < length (classes s)
      \<and> s' = set_class c ((classes s ! c)\<lparr>oc_type := Some ti\<rparr>) s"
  using assms by (auto simp: class_set_type_def bind_eq_Ok get_type_class_Ok)

lemma call_class_hook_Ok:
  assumes "call_class_hook ev hook ti s = Ok ((), s')"
  shows "\<exists>c k'. ti < length (types s) \<and> ti_class (types s ! ti) = Some c \<and> c < length (classes s)
      \<and> hook (classes s ! c) (ti_class_data (types s ! ti)) = Ok k'
      \<and> s' = emit (ev c) (set_class c k' s)"
proof -
  from assms obtain c where
    t: "ti < length (types s)" "ti_class (types s ! ti) = Some c" "c < length (classes s)"
    and r: "(case hook (classes s ! c) (ti_class_data (types s ! ti)) of
               Ok k' \<Rightarrow> Ok ((), emit (ev c) (set_class c k' s))
             | Fatal e \<Rightarrow> Fatal e
             | OutOfFuel \<Rightarrow> OutOfFuel) = Ok ((), s')"
    by (auto simp: call_class_hook_def bind_eq_Ok get_type_class_Ok)
  from r t show ?thesis
    by (cases "hook (classes s ! c) (ti_class_data (types s ! ti))") auto
qed

text \<open>A write to the class \<open>c\<close>, followed by an event about it or by none.\<close>

lemma grows_own_write: "grows k {c} E s (set_class c x s)"
  by (rule grows_set_class)

lemma grows_own_write_event:
  assumes "event_class e = Some c"
  shows "grows k {c} {c} s (emit e (set_class c x s))"
proof -
  have "grows k {c} {c} s (set_class c x s)" by (rule grows_set_class)
  moreover have "grows k {c} {c} (set_class c x s) (emit e (set_class c x s))"
    using assms by (rule grows_emit)
  ultimately show ?thesis by (rule grows_trans)
qed

subsection \<open>One interface class\<close>

lemma set_type_last:
  "set_type (length (types s)) y (s\<lparr>types := types s @ [x]\<rparr>) = s\<lparr>types := types s @ [y]\<rparr>"
  by (simp add: set_type_def)

lemma type_initialize_interface_Ok:
  assumes "type_initialize_interface rec ti interface_type parent_type s = Ok ((), s')"
  shows "\<exists>pt it x s3 ic c. parent_type = Some pt \<and> interface_type = Some it
      \<and> ti < length (types s) \<and> ti_class x = None
      \<and> rec (length (types s)) (s\<lparr>types := types s @ [x]\<rparr>) = Ok ((), s3)
      \<and> length (types s) < length (types s3)
      \<and> ti_class (types s3 ! length (types s)) = Some ic \<and> ic < length (classes s3)
      \<and> ti < length (types s3) \<and> ti_class (types s3 ! ti) = Some c \<and> c < length (classes s3)
      \<and> s' = set_class c
           ((classes (set_class ic ((classes s3 ! ic)\<lparr>oc_concrete_class := Some c,
                 oc_interface_type := Some it\<rparr>) s3) ! c)
              \<lparr>oc_interfaces := oc_interfaces (classes (set_class ic ((classes s3 ! ic)
                 \<lparr>oc_concrete_class := Some c, oc_interface_type := Some it\<rparr>) s3) ! c) @ [ic]\<rparr>)
           (set_class ic ((classes s3 ! ic)\<lparr>oc_concrete_class := Some c,
                 oc_interface_type := Some it\<rparr>) s3)"
proof -
  from assms obtain pt where pt: "parent_type = Some pt"
    by (cases parent_type) (simp_all add: type_initialize_interface_def)
  from assms pt have p: "pt < length (types s)" and t: "ti < length (types s)"
    by (auto simp: type_initialize_interface_def bind_eq_Ok)
  from assms pt p t obtain it where it: "interface_type = Some it"
    by (cases interface_type) (simp_all add: type_initialize_interface_def)
  from assms pt p t it have i: "it < length (types s)"
    by (auto simp: type_initialize_interface_def bind_eq_Ok)
  let ?info = "TypeInfo_zero\<lparr>info_parent := Some (ti_name (types s ! pt)),
                        info_name := Some (ti_name (types s ! ti) @ ''::'' @ ti_name (types s ! it)),
                        info_abstract := True\<rparr>"
  from assms pt p t it i obtain iface_impl s1 where
    n: "type_new ?info s = Ok (iface_impl, s1)"
    and r1: "bind (get_type iface_impl s1) (\<lambda>im s.
      bind (rec iface_impl (set_type iface_impl (im\<lparr>ti_parent_type := Some pt\<rparr>) s)) (\<lambda>_ s.
      bind (get_type iface_impl s) (\<lambda>im s.
      (case ti_class im of None \<Rightarrow> Fatal Crash | Some ic \<Rightarrow>
      bind (get_class ic s) (\<lambda>new_iface s.
        if ti_class_size im < sizeof_InterfaceClass then Fatal Crash
        else
      bind (get_type ti s) (\<lambda>t s.
      bind (get_type_class ti
             (set_class ic (new_iface\<lparr>oc_concrete_class := ti_class t,
                                      oc_interface_type := Some it\<rparr>) s)) (\<lambda>(c, k) s.
        Ok ((), set_class c (k\<lparr>oc_interfaces := oc_interfaces k @ [ic]\<rparr>) s)))))))) = Ok ((), s')"
    by (auto simp: type_initialize_interface_def bind_eq_Ok split: if_splits)
  from type_new_Ok [OF n] obtain x0 where
    x0: "iface_impl = length (types s)" "s1 = s\<lparr>types := types s @ [x0]\<rparr>" "ti_class x0 = None"
    by auto
  let ?x = "x0\<lparr>ti_parent_type := Some pt\<rparr>"
  from r1 x0 obtain s3 where
    rc: "rec (length (types s)) (s\<lparr>types := types s @ [?x]\<rparr>) = Ok ((), s3)"
    and r3: "bind (get_type (length (types s)) s3) (\<lambda>im s.
      (case ti_class im of None \<Rightarrow> Fatal Crash | Some ic \<Rightarrow>
      bind (get_class ic s) (\<lambda>new_iface s.
        if ti_class_size im < sizeof_InterfaceClass then Fatal Crash
        else
      bind (get_type ti s) (\<lambda>t s.
      bind (get_type_class ti
             (set_class ic (new_iface\<lparr>oc_concrete_class := ti_class t,
                                      oc_interface_type := Some it\<rparr>) s)) (\<lambda>(c, k) s.
        Ok ((), set_class c (k\<lparr>oc_interfaces := oc_interfaces k @ [ic]\<rparr>) s)))))) = Ok ((), s')"
    by (auto simp: bind_eq_Ok set_type_last)
  from r3 have l3: "length (types s) < length (types s3)" by (auto simp: bind_eq_Ok)
  from r3 l3 obtain ic where ic: "ti_class (types s3 ! length (types s)) = Some ic"
    by (cases "ti_class (types s3 ! length (types s))") simp_all
  from r3 l3 ic have icl: "ic < length (classes s3)" and t3: "ti < length (types s3)"
    by (auto simp: bind_eq_Ok split: if_splits)
  let ?s4 = "set_class ic ((classes s3 ! ic)\<lparr>oc_concrete_class := ti_class (types s3 ! ti),
                 oc_interface_type := Some it\<rparr>) s3"
  from r3 l3 ic icl t3 obtain c where
    c: "ti_class (types s3 ! ti) = Some c" "c < length (classes s3)"
    and s': "s' = set_class c ((classes ?s4 ! c)\<lparr>oc_interfaces := oc_interfaces (classes ?s4 ! c) @ [ic]\<rparr>) ?s4"
    by (auto simp: bind_eq_Ok get_type_class_Ok set_class_def split: if_splits)
  have "ti_class ?x = None" using x0(3) by simp
  with pt it t rc l3 ic icl t3 c s' show ?thesis
    by (intro exI [of _ pt] exI [of _ it] exI [of _ ?x] exI [of _ s3] exI [of _ ic] exI [of _ c])
      simp
qed

subsection \<open>The interface lists\<close>

lemma same_except_interfaces_refl [simp]: "same_except_interfaces a a"
  by (simp add: same_except_interfaces_def)

lemma same_except_interfaces_trans:
  "same_except_interfaces a b \<Longrightarrow> same_except_interfaces b c \<Longrightarrow> same_except_interfaces a c"
  by (simp add: same_except_interfaces_def)

lemma same_except_interfaces_update [simp]:
  "same_except_interfaces a (a\<lparr>oc_interfaces := x\<rparr>)"
  by (simp add: same_except_interfaces_def)

lemma type_initialize_interface_grows:
  assumes ok: "rec_ok rec"
    and r: "type_initialize_interface rec ti interface_type parent_type s = Ok ((), s')"
    and c: "ti_class (types s ! ti) = Some c" "c < length (classes s)"
  shows "grows (length (classes s)) {c} {} s s'"
    "same_except_interfaces (classes s ! c) (classes s' ! c)"
proof -
  let ?L = "length (classes s)"
  from type_initialize_interface_Ok [OF r] obtain pt it x s3 ic c' where
    t: "ti < length (types s)" and x: "ti_class x = None"
    and rc: "rec (length (types s)) (s\<lparr>types := types s @ [x]\<rparr>) = Ok ((), s3)"
    and l3: "length (types s) < length (types s3)"
    and ic: "ti_class (types s3 ! length (types s)) = Some ic" "ic < length (classes s3)"
    and c3: "ti < length (types s3)" "ti_class (types s3 ! ti) = Some c'" "c' < length (classes s3)"
    and s': "s' = set_class c'
           ((classes (set_class ic ((classes s3 ! ic)\<lparr>oc_concrete_class := Some c',
                 oc_interface_type := Some it\<rparr>) s3) ! c')
              \<lparr>oc_interfaces := oc_interfaces (classes (set_class ic ((classes s3 ! ic)
                 \<lparr>oc_concrete_class := Some c', oc_interface_type := Some it\<rparr>) s3) ! c') @ [ic]\<rparr>)
           (set_class ic ((classes s3 ! ic)\<lparr>oc_concrete_class := Some c',
                 oc_interface_type := Some it\<rparr>) s3)"
    by blast
  let ?s2 = "s\<lparr>types := types s @ [x]\<rparr>"
  let ?s4 = "set_class ic ((classes s3 ! ic)\<lparr>oc_concrete_class := Some c',
                 oc_interface_type := Some it\<rparr>) s3"
  have g2: "grows ?L {c} {} s ?s2" using x by (rule grows_append_type)
  have g3': "grows (length (classes ?s2)) {} {} ?s2 s3" using rec_okD(1) [OF ok rc] .
  then have g3'': "grows ?L {} {} ?s2 s3" by simp
  then have g3: "grows ?L {c} {} ?s2 s3" by (rule grows_weaken) simp_all
  have g03: "grows ?L {c} {} s s3" using g2 g3 by (rule grows_trans)
  have cc: "c' = c" using grows_class_kept(1) [OF g03 t c(1)] c3(2) by simp
  have icL: "?L \<le> ic"
    using growsD(10) [OF g3'' l3 ic(1)] x by (auto simp: nth_append)
  have g4': "grows ?L {ic} {} s3 ?s4" by (rule grows_set_class)
  have g4: "grows ?L {c} {} s3 ?s4"
    by (rule grows_weaken [OF g4' le_refl]) (use icL in simp_all)
  have g5: "grows ?L {c} {} ?s4 s'"
    unfolding s' cc by (rule grows_set_class)
  show "grows ?L {c} {} s s'"
    using g03 g4 g5 by (blast intro: grows_trans)
  have ne: "ic \<noteq> c" using icL c(2) by simp
  have k3: "classes s3 ! c = classes s ! c"
    using growsD(11) [OF g3'', of c] c(2) by simp
  have "classes s' ! c = (classes s3 ! c)\<lparr>oc_interfaces := oc_interfaces (classes s3 ! c) @ [ic]\<rparr>"
    unfolding s' cc using ne c3(3) cc by (simp add: set_class_def)
  with k3 show "same_except_interfaces (classes s ! c) (classes s' ! c)" by simp
qed

lemma inherit_interfaces_grows:
  assumes ok: "rec_ok rec"
  shows "inherit_interfaces rec ti es s = Ok ((), s') \<Longrightarrow> ti < length (types s) \<Longrightarrow>
     ti_class (types s ! ti) = Some c \<Longrightarrow> c < length (classes s) \<Longrightarrow>
     grows (length (classes s)) {c} {} s s'
       \<and> same_except_interfaces (classes s ! c) (classes s' ! c)"
proof (induction es arbitrary: s)
  case Nil
  then show ?case by simp
next
  case (Cons e es)
  from Cons.prems(1) obtain s1 where
    e: "e < length (classes s)"
    and a: "type_initialize_interface rec ti (oc_interface_type (classes s ! e))
              (oc_type (classes s ! e)) s = Ok ((), s1)"
    and b: "inherit_interfaces rec ti es s1 = Ok ((), s')"
    by (auto simp: bind_eq_Ok)
  note g1 = type_initialize_interface_grows [OF ok a Cons.prems(3,4)]
  have t1: "ti < length (types s1)" "ti_class (types s1 ! ti) = Some c"
    using grows_class_kept [OF g1(1) Cons.prems(2,3)] by simp_all
  have c1: "c < length (classes s1)" using growsD(6) [OF g1(1)] Cons.prems(4) by simp
  from Cons.IH [OF b t1 c1] have
    g2: "grows (length (classes s1)) {c} {} s1 s'"
    and k2: "same_except_interfaces (classes s1 ! c) (classes s' ! c)" by simp_all
  have "grows (length (classes s)) {c} {} s1 s'"
    using g2 growsD(6) [OF g1(1)] by (rule grows_weaken) simp_all
  with g1(1) have "grows (length (classes s)) {c} {} s s'" by (rule grows_trans)
  moreover have "same_except_interfaces (classes s ! c) (classes s' ! c)"
    using g1(2) k2 by (rule same_except_interfaces_trans)
  ultimately show ?case by simp
qed

lemma type_is_ancestor_cached:
  "type_is_ancestor n t tg s = Ok (b, s') \<Longrightarrow> cached s s'"
  by (cases tg) (auto simp: type_is_ancestor_def dest: type_is_ancestor_loop_cached)

lemma interface_covered_cached:
  "interface_covered n es t s = Ok (b, s') \<Longrightarrow> cached s s'"
proof (induction es arbitrary: s)
  case Nil
  then show ?case by simp
next
  case (Cons e es)
  from Cons.prems obtain r s1 where
    a: "type_is_ancestor n (oc_type (classes s ! e)) t s = Ok (r, s1)"
    and b: "(if r then Ok (True, s1) else interface_covered n es t s1) = Ok (b, s')"
    by (auto simp: bind_eq_Ok)
  have c1: "cached s s1" using a by (rule type_is_ancestor_cached)
  show ?case
  proof (cases r)
    case True
    with b c1 show ?thesis by simp
  next
    case False
    with b have "interface_covered n es t s1 = Ok (b, s')" by simp
    from Cons.IH [OF this] c1 show ?thesis by (blast intro: cached_trans)
  qed
qed

lemma cached_class_cell:
  assumes "cached s s'" "t < length (types s)"
  shows "ti_class (types s' ! t) = ti_class (types s ! t)" "t < length (types s')"
    "classes s' = classes s"
  using cached_class_None [OF assms] cachedD(1,8) [OF assms(1)] assms(2) by simp_all

lemma declared_interfaces_grows:
  assumes ok: "rec_ok rec"
  shows "declared_interfaces n rec ti nms s = Ok ((), s') \<Longrightarrow> ti < length (types s) \<Longrightarrow>
     ti_class (types s ! ti) = Some c \<Longrightarrow> c < length (classes s) \<Longrightarrow>
     grows (length (classes s)) {c} {} s s'
       \<and> same_except_interfaces (classes s ! c) (classes s' ! c)"
proof (induction nms arbitrary: s)
  case Nil
  then show ?case by simp
next
  case (Cons nm nms)
  let ?t = "type_get_by_name (Some nm) s"
  from Cons.prems obtain covered s1 where
    a: "interface_covered n (oc_interfaces (classes s ! c)) ?t s = Ok (covered, s1)"
    and b: "(if covered then declared_interfaces n rec ti nms s1
             else bind (type_initialize_interface rec ti
                    (type_get_by_name (Some nm) s1) (type_get_by_name (Some nm) s1) s1) (\<lambda>_ s.
              declared_interfaces n rec ti nms s)) = Ok ((), s')"
    by (auto simp: bind_eq_Ok)
  have c1: "cached s s1" using a by (rule interface_covered_cached)
  note k1 = cached_class_cell [OF c1 Cons.prems(2)]
  have t1: "ti < length (types s1)" "ti_class (types s1 ! ti) = Some c" "c < length (classes s1)"
    using k1 Cons.prems(3,4) by simp_all
  have g1: "grows (length (classes s)) {c} {} s s1" using c1 by (rule cached_grows)
  show ?case
  proof (cases covered)
    case True
    with b have "declared_interfaces n rec ti nms s1 = Ok ((), s')" by simp
    from Cons.IH [OF this t1] k1(3) g1 show ?thesis
      by (auto intro: grows_trans)
  next
    case False
    with b obtain s2 where
      d: "type_initialize_interface rec ti (type_get_by_name (Some nm) s1)
            (type_get_by_name (Some nm) s1) s1 = Ok ((), s2)"
      and e: "declared_interfaces n rec ti nms s2 = Ok ((), s')"
      by (auto simp: bind_eq_Ok)
    note g2 = type_initialize_interface_grows [OF ok d t1(2,3)]
    have t2: "ti < length (types s2)" "ti_class (types s2 ! ti) = Some c"
      using grows_class_kept [OF g2(1) t1(1,2)] by simp_all
    have c2: "c < length (classes s2)" using growsD(6) [OF g2(1)] t1(3) by simp
    from Cons.IH [OF e t2 c2] have
      g3: "grows (length (classes s2)) {c} {} s2 s'"
      and k3: "same_except_interfaces (classes s2 ! c) (classes s' ! c)" by simp_all
    have "grows (length (classes s)) {c} {} s2 s'"
      using g3 growsD(6) [OF g2(1)] k1(3) by (intro grows_weaken [OF g3]) simp_all
    moreover have "grows (length (classes s)) {c} {} s1 s2" using g2(1) k1(3) by simp
    ultimately have "grows (length (classes s)) {c} {} s s'"
      using g1 by (blast intro: grows_trans)
    moreover have "same_except_interfaces (classes s ! c) (classes s' ! c)"
      using g2(2) k3 k1(3) by (auto intro: same_except_interfaces_trans)
    ultimately show ?thesis by simp
  qed
qed

subsection \<open>Events and hooks of a class\<close>

lemma class_events_refl [simp]: "class_events c s s []"
  by (simp add: class_events_def)

lemma class_events_trans:
  assumes "class_events c s s' xs" "class_events c s' s'' ys"
  shows "class_events c s s'' (xs @ ys)"
proof -
  from assms obtain ev ev' where
    "trace s' = trace s @ ev" "filter (\<lambda>e. event_class e = Some c) ev = xs"
    "trace s'' = trace s' @ ev'" "filter (\<lambda>e. event_class e = Some c) ev' = ys"
    unfolding class_events_def by blast
  then have "trace s'' = trace s @ (ev @ ev')"
    "filter (\<lambda>e. event_class e = Some c) (ev @ ev') = xs @ ys" by simp_all
  then show ?thesis unfolding class_events_def by blast
qed

lemma class_events_same_trace: "trace s' = trace s \<Longrightarrow> class_events c s s' []"
  by (simp add: class_events_def)

lemma class_events_emit:
  "event_class e = Some c \<Longrightarrow> trace s' = trace s @ [e] \<Longrightarrow> class_events c s s' [e]"
  by (simp add: class_events_def)

lemma grows_class_events:
  assumes "grows k W {} s s'" "c < k"
  shows "class_events c s s' []"
proof -
  from growsD(12) [OF assms(1)] obtain ev where
    ev: "trace s' = trace s @ ev" "\<forall>e\<in>set ev. \<exists>d. event_class e = Some d \<and> (d \<in> {} \<or> k \<le> d)"
    by blast
  have "filter (\<lambda>e. event_class e = Some c) ev = []"
    using ev(2) assms(2) by (auto simp: filter_empty_conv)
  with ev(1) show ?thesis unfolding class_events_def by blast
qed

lemma cached_class_events: "cached s s' \<Longrightarrow> class_events c s s' []"
  using cachedD(7) by (simp add: class_events_def)

lemma grows_hooks:
  assumes "grows k W E s s'" "t < length (types s)"
  shows "ti_class_base_init (types s' ! t) = ti_class_base_init (types s ! t)"
    "ti_class_init (types s' ! t) = ti_class_init (types s ! t)"
    "ti_class_data (types s' ! t) = ti_class_data (types s ! t)"
    "ti_interfaces (types s' ! t) = ti_interfaces (types s ! t)"
    "ti_parent (types s' ! t) = ti_parent (types s ! t)"
    "ti_name (types s' ! t) = ti_name (types s ! t)"
  using growsD(7) [OF assms] by (simp_all add: same_registration_def)

lemma base_init_events_cong:
  assumes "\<And>t. t \<in> set ts \<Longrightarrow> ti_class_base_init (types s' ! t) = ti_class_base_init (types s ! t)"
  shows "base_init_events s' c ts = base_init_events s c ts"
proof -
  have "filter (\<lambda>t. ti_class_base_init (types s' ! t) \<noteq> None) ts
      = filter (\<lambda>t. ti_class_base_init (types s ! t) \<noteq> None) ts"
    by (rule filter_cong) (simp_all add: assms)
  then show ?thesis by (simp add: base_init_events_def)
qed

lemma base_init_apply_cong:
  "(\<And>t. t \<in> set ts \<Longrightarrow> ti_class_base_init (types s' ! t) = ti_class_base_init (types s ! t))
     \<Longrightarrow> base_init_apply s' ts d k = base_init_apply s ts d k"
  by (induction ts arbitrary: k) (simp_all split: option.splits outcome.splits)

text \<open>One turn of the loop: the hook of the current ancestor, if it has one.\<close>

lemma base_init_hook_step:
  assumes r: "(case ti_class_base_init a of None \<Rightarrow> Ok ((), s)
            | Some hook \<Rightarrow> call_class_hook (Class_base_init p) hook ti s) = Ok ((), s1)"
    and c: "ti_class (types s ! ti) = Some c"
  shows "types s1 = types s" "type_table s1 = type_table s" "tables s1 = tables s"
    "length (classes s1) = length (classes s)"
    "\<And>i. i \<noteq> c \<Longrightarrow> classes s1 ! i = classes s ! i"
    "(case ti_class_base_init a of None \<Rightarrow> Ok (classes s ! c)
        | Some hook \<Rightarrow> hook (classes s ! c) (ti_class_data (types s ! ti))) = Ok (classes s1 ! c)"
    "trace s1 = trace s @ (if ti_class_base_init a = None then [] else [Class_base_init p c])"
    "grows k {c} {c} s s1"
proof -
  have "types s1 = types s \<and> type_table s1 = type_table s \<and> tables s1 = tables s
    \<and> length (classes s1) = length (classes s)
    \<and> (\<forall>i. i \<noteq> c \<longrightarrow> classes s1 ! i = classes s ! i)
    \<and> (case ti_class_base_init a of None \<Rightarrow> Ok (classes s ! c)
        | Some hook \<Rightarrow> hook (classes s ! c) (ti_class_data (types s ! ti))) = Ok (classes s1 ! c)
    \<and> trace s1 = trace s @ (if ti_class_base_init a = None then [] else [Class_base_init p c])
    \<and> grows k {c} {c} s s1"
  proof (cases "ti_class_base_init a")
    case None
    with r show ?thesis by simp
  next
    case (Some hook)
    with r have "call_class_hook (Class_base_init p) hook ti s = Ok ((), s1)" by simp
    from call_class_hook_Ok [OF this] c obtain k' where
      cl: "c < length (classes s)"
      and h: "hook (classes s ! c) (ti_class_data (types s ! ti)) = Ok k'"
      and s1: "s1 = emit (Class_base_init p c) (set_class c k' s)"
      by auto
    have "grows k {c} {c} s s1"
      unfolding s1 by (rule grows_own_write_event) simp
    then show ?thesis
      using Some cl h by (simp add: s1 emit_def set_class_def)
  qed
  then show "types s1 = types s" "type_table s1 = type_table s" "tables s1 = tables s"
    "length (classes s1) = length (classes s)"
    "\<And>i. i \<noteq> c \<Longrightarrow> classes s1 ! i = classes s ! i"
    "(case ti_class_base_init a of None \<Rightarrow> Ok (classes s ! c)
        | Some hook \<Rightarrow> hook (classes s ! c) (ti_class_data (types s ! ti))) = Ok (classes s1 ! c)"
    "trace s1 = trace s @ (if ti_class_base_init a = None then [] else [Class_base_init p c])"
    "grows k {c} {c} s s1"
    by blast+
qed

subsection \<open>The loop over the \<open>class_base_init\<close> hooks\<close>

lemma parent_chain_parent_of:
  "parent_chain s t ps \<Longrightarrow> parent_of s t = (case ps of [] \<Rightarrow> None | p # _ \<Rightarrow> Some p)"
  by (cases ps) (auto split: option.splits)

lemma parent_chain_tail:
  "parent_chain s t (p # ps) \<Longrightarrow> parent_chain s p ps"
  by (auto split: option.splits)

lemma base_init_apply_step:
  assumes "(case ti_class_base_init (types s ! p) of None \<Rightarrow> Ok k
        | Some hook \<Rightarrow> hook k d) = Ok k1"
  shows "base_init_apply s (p # ps) d k = base_init_apply s ps d k1"
  using assms by (simp split: option.splits)

text \<open>
  The \<open>while (parent)\<close> loop along a parent chain: a run that returns has called the
  hooks from the first type of the chain to the root, and the class is what they made of
  it one after the other.
\<close>

lemma class_base_init_loop_chain:
  "class_base_init_loop n (Some p) ti s = Ok ((), s') \<Longrightarrow> parent_chain s p ps \<Longrightarrow>
   ti < length (types s) \<Longrightarrow> ti_class (types s ! ti) = Some c \<Longrightarrow>
     trace s' = trace s @ base_init_events s c (p # ps)
     \<and> base_init_apply s (p # ps) (ti_class_data (types s ! ti)) (classes s ! c)
         = Ok (classes s' ! c)
     \<and> (\<forall>i. i \<noteq> c \<longrightarrow> classes s' ! i = classes s ! i)
     \<and> length (classes s') = length (classes s)
     \<and> grows k {c} {c} s s'"
proof (induction ps arbitrary: p n s)
  case Nil
  from Nil.prems(1) obtain m where n: "n = Suc m" by (cases n) auto
  from Nil.prems(2) have p: "p < length (types s)" by (auto split: option.splits)
  from Nil.prems(1) n p obtain s1 p' s2 where
    h: "(case ti_class_base_init (types s ! p) of None \<Rightarrow> Ok ((), s)
          | Some hook \<Rightarrow> call_class_hook (Class_base_init p) hook ti s) = Ok ((), s1)"
    and g: "type_get_parent p s1 = Ok (p', s2)"
    and l: "class_base_init_loop m p' ti s2 = Ok ((), s')"
    by (auto simp: bind_eq_Ok)
  note s1 = base_init_hook_step [OF h Nil.prems(4)]
  have c12: "cached s1 s2" using g by (rule type_get_parent_cached)
  have "p' = parent_of s1 p" using type_get_parent_result(2) [OF g] .
  also have "\<dots> = parent_of s p" using s1(1,2) by (rule parent_of_same)
  also have "\<dots> = None" using parent_chain_parent_of [OF Nil.prems(2)] by simp
  finally have "p' = None" .
  with l have s': "s' = s2" by simp
  have g02: "grows k {c} {c} s s2"
    using s1(8) cached_grows [OF c12] by (rule grows_trans)
  have ap: "base_init_apply s [p] (ti_class_data (types s ! ti)) (classes s ! c)
      = Ok (classes s1 ! c)"
    using base_init_apply_step [OF s1(6), of "[]"] by simp
  have tr: "trace s1 = trace s @ base_init_events s c [p]"
    using s1(7) by (simp add: base_init_events_def)
  show ?case
    using s1(4,5) cachedD(1,7) [OF c12] g02 ap tr
    by (simp add: s' del: base_init_apply.simps)
next
  case (Cons q qs)
  from Cons.prems(1) obtain m where n: "n = Suc m" by (cases n) auto
  from Cons.prems(2) have p: "p < length (types s)" by (auto split: option.splits)
  from Cons.prems(1) n p obtain s1 p' s2 where
    h: "(case ti_class_base_init (types s ! p) of None \<Rightarrow> Ok ((), s)
          | Some hook \<Rightarrow> call_class_hook (Class_base_init p) hook ti s) = Ok ((), s1)"
    and g: "type_get_parent p s1 = Ok (p', s2)"
    and l: "class_base_init_loop m p' ti s2 = Ok ((), s')"
    by (auto simp: bind_eq_Ok)
  note s1 = base_init_hook_step [OF h Cons.prems(4)]
  have c12: "cached s1 s2" using g by (rule type_get_parent_cached)
  have "p' = parent_of s1 p" using type_get_parent_result(2) [OF g] .
  also have "\<dots> = parent_of s p" using s1(1,2) by (rule parent_of_same)
  also have "\<dots> = Some q" using parent_chain_parent_of [OF Cons.prems(2)] by simp
  finally have p': "p' = Some q" .
  have "parent_chain s1 q qs"
    using parent_chain_tail [OF Cons.prems(2)] by (simp add: parent_chain_same [OF s1(1,2)])
  with c12 have ch2: "parent_chain s2 q qs" by (rule parent_chain_cached)
  have t1: "ti < length (types s1)" using Cons.prems(3) s1(1) by simp
  have t2: "ti < length (types s2)" "ti_class (types s2 ! ti) = Some c"
    using cached_class_cell(1,2) [OF c12 t1] Cons.prems(4) s1(1) by simp_all
  from l p' have l': "class_base_init_loop m (Some q) ti s2 = Ok ((), s')" by simp
  note ih = Cons.IH [OF l' ch2 t2]
  have hooks: "ti_class_base_init (types s2 ! u) = ti_class_base_init (types s ! u)"
    if "u \<in> set (q # qs)" for u
  proof -
    from that have "u \<in> set (p # q # qs)" by simp
    from parent_chain_in_range [OF Cons.prems(2) this] have "u < length (types s1)"
      using s1(1) by simp
    from cached_hooks(3) [OF c12 this] s1(1) show ?thesis by simp
  qed
  have data: "ti_class_data (types s2 ! ti) = ti_class_data (types s ! ti)"
    using cached_hooks(5) [OF c12 t1] s1(1) by simp
  have ev: "base_init_events s2 c (q # qs) = base_init_events s c (q # qs)"
    using hooks by (rule base_init_events_cong)
  have pl: "base_init_apply s2 (q # qs) d x = base_init_apply s (q # qs) d x" for d x
    using hooks by (rule base_init_apply_cong)
  have tr: "trace s' = trace s @ base_init_events s c (p # q # qs)"
  proof -
    have "trace s' = trace s2 @ base_init_events s c (q # qs)" using ih ev by simp
    then have "trace s' = (trace s @ (if ti_class_base_init (types s ! p) = None then []
                  else [Class_base_init p c])) @ base_init_events s c (q # qs)"
      using cachedD(7) [OF c12] s1(7) by simp
    then show ?thesis by (simp add: base_init_events_def)
  qed
  have cl2: "classes s2 = classes s1" using cachedD(1) [OF c12] .
  have py: "base_init_apply s (p # q # qs) (ti_class_data (types s ! ti)) (classes s ! c)
         = Ok (classes s' ! c)"
  proof -
    have "base_init_apply s (q # qs) (ti_class_data (types s ! ti)) (classes s1 ! c)
        = Ok (classes s' ! c)"
      using ih pl data cl2 by simp
    then show ?thesis
      using base_init_apply_step [OF s1(6), of "q # qs"] by simp
  qed
  have ot: "\<forall>i. i \<noteq> c \<longrightarrow> classes s' ! i = classes s ! i"
    using ih cl2 s1(5) by simp
  have ln: "length (classes s') = length (classes s)" using ih cl2 s1(4) by simp
  have "grows k {c} {c} s2 s'" using ih by simp
  with s1(8) cached_grows [OF c12] have gr: "grows k {c} {c} s s'"
    by (blast intro: grows_trans)
  from tr py ot ln gr show ?case by simp
qed

subsection \<open>The branch without a parent\<close>

lemma class_base_init_loop_grows:
  "class_base_init_loop n par ti s = Ok ((), s') \<Longrightarrow> ti < length (types s) \<Longrightarrow>
   ti_class (types s ! ti) = Some c \<Longrightarrow>
     grows k {c} {c} s s'
     \<and> length (classes s') = length (classes s)
     \<and> (\<forall>i. i \<noteq> c \<longrightarrow> classes s' ! i = classes s ! i)"
proof (induction n arbitrary: par s)
  case 0
  then show ?case by (cases par) simp_all
next
  case (Suc m)
  show ?case
  proof (cases par)
    case None
    with Suc.prems show ?thesis by simp
  next
    case (Some p)
    from Suc.prems(1) Some obtain s1 p' s2 where
      p: "p < length (types s)"
      and h: "(case ti_class_base_init (types s ! p) of None \<Rightarrow> Ok ((), s)
            | Some hook \<Rightarrow> call_class_hook (Class_base_init p) hook ti s) = Ok ((), s1)"
      and g: "type_get_parent p s1 = Ok (p', s2)"
      and l: "class_base_init_loop m p' ti s2 = Ok ((), s')"
      by (auto simp: bind_eq_Ok)
    note s1 = base_init_hook_step [OF h Suc.prems(3)]
    have c12: "cached s1 s2" using g by (rule type_get_parent_cached)
    have t1: "ti < length (types s1)" using Suc.prems(2) s1(1) by simp
    have t2: "ti < length (types s2)" "ti_class (types s2 ! ti) = Some c"
      using cached_class_cell(1,2) [OF c12 t1] Suc.prems(3) s1(1) by simp_all
    note ih = Suc.IH [OF l t2]
    have cl2: "classes s2 = classes s1" using cachedD(1) [OF c12] .
    have "grows k {c} {c} s s2"
      using s1(8) cached_grows [OF c12] by (rule grows_trans)
    moreover have "grows k {c} {c} s2 s'" using ih by simp
    ultimately have "grows k {c} {c} s s'" by (rule grows_trans)
    moreover have "length (classes s') = length (classes s)" using ih cl2 s1(4) by simp
    moreover have "\<forall>i. i \<noteq> c \<longrightarrow> classes s' ! i = classes s ! i" using ih cl2 s1(5) by simp
    ultimately show ?thesis by simp
  qed
qed

lemma set_class_simps [simp]:
  "types (set_class c x s) = types s" "type_table (set_class c x s) = type_table s"
  "trace (set_class c x s) = trace s" "tables (set_class c x s) = tables s"
  "length (classes (set_class c x s)) = length (classes s)"
  "c < length (classes s) \<Longrightarrow> classes (set_class c x s) ! c = x"
  "i \<noteq> c \<Longrightarrow> classes (set_class c x s) ! i = classes s ! i"
  by (simp_all add: set_class_def)

lemma emit_simps [simp]:
  "types (emit e s) = types s" "type_table (emit e s) = type_table s"
  "trace (emit e s) = trace s @ [e]" "tables (emit e s) = tables s"
  "classes (emit e s) = classes s"
  by (simp_all add: emit_def)

text \<open>The branch on the parent, when there is none.\<close>

lemma type_initialize_parent_None:
  assumes r: "type_initialize_parent n rec ti None s = Ok ((), s')"
    and c: "ti_class (types s ! ti) = Some c"
  shows "grows k {c} {c} s s'" "ti < length (types s')" "ti_class (types s' ! ti) = Some c"
    "c < length (classes s')" "length (classes s') = length (classes s)"
    "trace s' = trace s"
    "classes s' ! c = (classes s ! c)\<lparr>oc_properties := Some (tables s)\<rparr>"
    "\<And>i. i \<noteq> c \<Longrightarrow> classes s' ! i = classes s ! i"
proof -
  from r have "class_new_properties ti s = Ok ((), s')"
    by (simp add: type_initialize_parent_def)
  from class_new_properties_Ok [OF this] c have
    t: "ti < length (types s)" and cl: "c < length (classes s)"
    and s': "s' = set_class c ((classes s ! c)\<lparr>oc_properties := Some (tables s)\<rparr>)
               (s\<lparr>tables := Suc (tables s)\<rparr>)"
    by auto
  have "grows k {c} {c} s (s\<lparr>tables := Suc (tables s)\<rparr>)" by (rule grows_tables)
  moreover have "grows k {c} {c} (s\<lparr>tables := Suc (tables s)\<rparr>) s'"
    unfolding s' by (rule grows_own_write)
  ultimately show "grows k {c} {c} s s'" by (rule grows_trans)
  show "ti < length (types s')" "ti_class (types s' ! ti) = Some c"
    "c < length (classes s')" "length (classes s') = length (classes s)"
    "trace s' = trace s"
    "classes s' ! c = (classes s ! c)\<lparr>oc_properties := Some (tables s)\<rparr>"
    using t cl c by (simp_all add: s')
  show "\<And>i. i \<noteq> c \<Longrightarrow> classes s' ! i = classes s ! i" by (simp add: s')
qed

subsection \<open>The branch with a parent\<close>

lemma same_except_interfaces_eq:
  "same_except_interfaces a b \<Longrightarrow> b = a\<lparr>oc_interfaces := oc_interfaces b\<rparr>"
  by (cases a, cases b) (simp add: same_except_interfaces_def)

text \<open>The branch on the parent, when there is one.\<close>

lemma type_initialize_parent_Some:
  assumes ok: "rec_ok rec"
    and r: "type_initialize_parent n rec ti (Some p) s = Ok ((), s')"
    and t: "ti < length (types s)"
    and c: "ti_class (types s ! ti) = Some c" "c < length (classes s)"
  shows "grows (length (classes s)) {c} {c} s s' \<and> ti < length (types s')
    \<and> ti_class (types s' ! ti) = Some c \<and> c < length (classes s')
    \<and> (\<exists>pc. p < length (types s') \<and> ti_class (types s' ! p) = Some pc
          \<and> pc < length (classes s')
          \<and> class_events c s s' [Memcpy c pc (ti_class_size (types s' ! p))]
          \<and> (pc \<noteq> c \<longrightarrow> (\<exists>ifs tb. classes s' ! c
                = (copy_prefix (ti_class_size (types s' ! p)) (classes s' ! pc) (classes s ! c))
                    \<lparr>oc_interfaces := ifs, oc_properties := Some tb\<rparr>)))"
proof -
  let ?L = "length (classes s)"
  from r obtain s3 s4 s5 s6 pc0 pk s7 where
    b1: "rec p s = Ok ((), s3)"
    and b2: "class_memcpy ti p s3 = Ok ((), s4)"
    and b3: "class_reset_interfaces ti s4 = Ok ((), s5)"
    and b4: "class_new_properties ti s5 = Ok ((), s6)"
    and b5: "get_type_class p s6 = Ok ((pc0, pk), s6)"
    and b6: "inherit_interfaces rec ti (oc_interfaces pk) s6 = Ok ((), s7)"
    and b7: "ti < length (types s7)"
    and b8: "declared_interfaces n rec ti (ti_interfaces (types s7 ! ti)) s7 = Ok ((), s')"
    by (auto simp: type_initialize_parent_def bind_eq_Ok get_type_class_Ok)
  note g03 = rec_okD [OF ok b1]
  note k3 = grows_class_kept [OF g03(1) t c(1)]
  have L3: "?L \<le> length (classes s3)" using growsD(6) [OF g03(1)] .
  have c3: "classes s3 ! c = classes s ! c"
    using growsD(11) [OF g03(1), of c] c(2) by simp
  from class_memcpy_Ok [OF b2] k3(1) obtain pc where
    p3: "p < length (types s3)" "ti_class (types s3 ! p) = Some pc" "pc < length (classes s3)"
    and s4: "s4 = emit (Memcpy c pc (ti_class_size (types s3 ! p)))
               (set_class c (copy_prefix (ti_class_size (types s3 ! p)) (classes s3 ! pc)
                  (classes s3 ! c)) s3)"
    by auto
  let ?psz = "ti_class_size (types s3 ! p)"
  have cl3: "c < length (classes s3)" using c(2) L3 by simp
  have g34: "grows ?L {c} {c} s3 s4"
    unfolding s4 by (rule grows_own_write_event) simp
  have f4: "types s4 = types s3" "length (classes s4) = length (classes s3)"
    "trace s4 = trace s3 @ [Memcpy c pc ?psz]"
    "classes s4 ! c = copy_prefix ?psz (classes s3 ! pc) (classes s ! c)"
    "pc \<noteq> c \<Longrightarrow> classes s4 ! pc = classes s3 ! pc"
    using cl3 by (simp_all add: s4 c3)
  from class_reset_interfaces_Ok [OF b3] k3(1) f4(1) have
    s5: "s5 = set_class c ((classes s4 ! c)\<lparr>oc_interfaces := []\<rparr>) s4"
    by auto
  have g45: "grows ?L {c} {c} s4 s5" unfolding s5 by (rule grows_own_write)
  have f5: "types s5 = types s3" "length (classes s5) = length (classes s3)"
    "trace s5 = trace s4" "classes s5 ! c = (classes s4 ! c)\<lparr>oc_interfaces := []\<rparr>"
    "pc \<noteq> c \<Longrightarrow> classes s5 ! pc = classes s3 ! pc"
    using cl3 f4 by (simp_all add: s5)
  from class_new_properties_Ok [OF b4] k3(1) f5(1) have
    s6: "s6 = set_class c ((classes s5 ! c)\<lparr>oc_properties := Some (tables s5)\<rparr>)
               (s5\<lparr>tables := Suc (tables s5)\<rparr>)"
    by auto
  have g56: "grows ?L {c} {c} s5 s6"
  proof -
    have "grows ?L {c} {c} s5 (s5\<lparr>tables := Suc (tables s5)\<rparr>)" by (rule grows_tables)
    moreover have "grows ?L {c} {c} (s5\<lparr>tables := Suc (tables s5)\<rparr>) s6"
      unfolding s6 by (rule grows_own_write)
    ultimately show ?thesis by (rule grows_trans)
  qed
  have f6: "types s6 = types s3" "length (classes s6) = length (classes s3)"
    "trace s6 = trace s4"
    "classes s6 ! c = (classes s4 ! c)\<lparr>oc_interfaces := [], oc_properties := Some (tables s5)\<rparr>"
    "pc \<noteq> c \<Longrightarrow> classes s6 ! pc = classes s3 ! pc"
    using cl3 f5 by (simp_all add: s6)
  have t6: "ti < length (types s6)" "ti_class (types s6 ! ti) = Some c" "c < length (classes s6)"
    using k3 f6 cl3 by simp_all
  note i67 = inherit_interfaces_grows [OF ok b6 t6]
  have g67: "grows (length (classes s6)) {c} {} s6 s7" using i67 by simp
  note k7 = grows_class_kept [OF g67 t6(1,2)]
  have cl7: "c < length (classes s7)" using t6(3) growsD(6) [OF g67] by simp
  note i78 = declared_interfaces_grows [OF ok b8 b7 k7(1) cl7]
  have g78: "grows (length (classes s7)) {c} {} s7 s'" using i78 by simp
  note k8 = grows_class_kept [OF g78 b7 k7(1)]
  have L6: "?L \<le> length (classes s6)" using L3 f6(2) by simp
  have L7: "?L \<le> length (classes s7)" using L6 growsD(6) [OF g67] by simp
  have g67': "grows ?L {c} {c} s6 s7"
    by (rule grows_weaken [OF g67 L6]) simp_all
  have g78': "grows ?L {c} {c} s7 s'"
    by (rule grows_weaken [OF g78 L7]) simp_all
  have g03': "grows ?L {c} {c} s s3"
    by (rule grows_weaken [OF g03(1) le_refl]) simp_all
  have G: "grows ?L {c} {c} s s'"
    using g03' g34 g45 g56 g67' g78' by (blast intro: grows_trans)
  have g3': "grows ?L {c} {c} s3 s'"
    using g34 g45 g56 g67' g78' by (blast intro: grows_trans)
  note kp = grows_class_kept [OF g3' p3(1,2)]
  have cl8: "c < length (classes s')" using cl7 growsD(6) [OF g78] by simp
  have pc8: "pc < length (classes s')" using p3(3) growsD(6) [OF g3'] by simp
  have ev: "class_events c s s' [Memcpy c pc ?psz]"
  proof -
    have e1: "class_events c s s3 []"
      using g03(1) c(2) by (rule grows_class_events)
    have e2: "class_events c s3 s4 [Memcpy c pc ?psz]"
      by (rule class_events_emit) (simp_all add: f4)
    have e3: "class_events c s4 s6 []"
      by (rule class_events_same_trace) (simp add: f6)
    have e4: "class_events c s6 s7 []"
      using g67 t6(3) by (rule grows_class_events)
    have e5: "class_events c s7 s' []"
      using g78 cl7 by (rule grows_class_events)
    from class_events_trans [OF e1 class_events_trans [OF e2 class_events_trans [OF e3
          class_events_trans [OF e4 e5]]]]
    show ?thesis by simp
  qed
  have py: "\<exists>ifs. classes s' ! c = (classes s4 ! c)\<lparr>oc_interfaces := ifs,
      oc_properties := Some (tables s5)\<rparr>"
  proof -
    from i67 have "same_except_interfaces (classes s6 ! c) (classes s7 ! c)" by simp
    moreover from i78 have "same_except_interfaces (classes s7 ! c) (classes s' ! c)" by simp
    ultimately have "same_except_interfaces (classes s6 ! c) (classes s' ! c)"
      by (rule same_except_interfaces_trans)
    from same_except_interfaces_eq [OF this] obtain ifs where
      "classes s' ! c = (classes s6 ! c)\<lparr>oc_interfaces := ifs\<rparr>" by blast
    then have "classes s' ! c = (classes s4 ! c)\<lparr>oc_interfaces := ifs,
      oc_properties := Some (tables s5)\<rparr>" by (simp add: f6(4))
    then show ?thesis by blast
  qed
  have pcell: "classes s' ! pc = classes s3 ! pc" if ne: "pc \<noteq> c"
  proof -
    have "classes s7 ! pc = classes s6 ! pc"
      using growsD(11) [OF g67, of pc] p3(3) f6(2) ne by simp
    moreover have "classes s' ! pc = classes s7 ! pc"
      using growsD(11) [OF g78, of pc] p3(3) f6(2) growsD(6) [OF g67] ne by simp
    ultimately show ?thesis using f6(5) [OF ne] by simp
  qed
  have "p < length (types s') \<and> ti_class (types s' ! p) = Some pc
          \<and> pc < length (classes s')
          \<and> class_events c s s' [Memcpy c pc (ti_class_size (types s' ! p))]
          \<and> (pc \<noteq> c \<longrightarrow> (\<exists>ifs tb. classes s' ! c
                = (copy_prefix (ti_class_size (types s' ! p)) (classes s' ! pc) (classes s ! c))
                    \<lparr>oc_interfaces := ifs, oc_properties := Some tb\<rparr>))"
  proof -
    have "\<exists>ifs tb. classes s' ! c
                = (copy_prefix (ti_class_size (types s' ! p)) (classes s' ! pc) (classes s ! c))
                    \<lparr>oc_interfaces := ifs, oc_properties := Some tb\<rparr>" if ne: "pc \<noteq> c"
    proof -
      from py obtain ifs where "classes s' ! c = (classes s4 ! c)\<lparr>oc_interfaces := ifs,
        oc_properties := Some (tables s5)\<rparr>" by blast
      then have "classes s' ! c = (copy_prefix (ti_class_size (types s' ! p)) (classes s' ! pc)
              (classes s ! c))\<lparr>oc_interfaces := ifs, oc_properties := Some (tables s5)\<rparr>"
        using f4(4) pcell [OF ne] kp(2) by simp
      then show ?thesis by blast
    qed
    with kp pc8 ev show ?thesis by simp
  qed
  then show ?thesis using G k8 cl8 by blast
qed

subsection \<open>Everything before \<open>class_init\<close>\<close>

lemma class_events_base_init:
  "trace s' = trace s @ base_init_events s0 c ts \<Longrightarrow>
     class_events c s s' (base_init_events s0 c ts)"
  by (auto simp: class_events_def base_init_events_def filter_map o_def)

lemma set_type_simps [simp]:
  "classes (set_type t x s) = classes s" "type_table (set_type t x s) = type_table s"
  "trace (set_type t x s) = trace s" "tables (set_type t x s) = tables s"
  "length (types (set_type t x s)) = length (types s)"
  "t < length (types s) \<Longrightarrow> types (set_type t x s) ! t = x"
  "u \<noteq> t \<Longrightarrow> types (set_type t x s) ! u = types s ! u"
  by (simp_all add: set_type_def)

lemma type_initialize_setup_grows:
  assumes ok: "rec_ok rec"
    and r: "type_initialize_setup n rec ti s = Ok ((), s6)"
    and cN: "ti_class (types s ! ti) = None"
  shows "grows (length (classes s)) {} {} s s6"
    "ti < length (types s)" "ti < length (types s6)"
    "ti_class (types s6 ! ti) = Some (length (classes s))"
    "length (classes s) < length (classes s6)"
    "parent_of s ti = None \<Longrightarrow>
       class_events (length (classes s)) s s6 []
       \<and> (\<exists>tb. classes s6 ! length (classes s)
             = (class_zero (ti_class_size (types s6 ! ti)))
                 \<lparr>oc_properties := Some tb, oc_type := Some ti\<rparr>)"
    "parent_chain s ti (p # ps) \<Longrightarrow>
       \<exists>pc. p < length (types s6) \<and> ti_class (types s6 ! p) = Some pc
         \<and> pc < length (classes s6)
         \<and> (p \<noteq> ti \<longrightarrow> Suc (length (classes s)) \<le> pc \<or> ti_class (types s ! p) = Some pc)
         \<and> class_events (length (classes s)) s s6
             (Memcpy (length (classes s)) pc (ti_class_size (types s6 ! p))
                # base_init_events s (length (classes s)) (p # ps))
         \<and> (pc \<noteq> length (classes s) \<longrightarrow>
              (\<exists>ifs tb. base_init_apply s (p # ps) (ti_class_data (types s ! ti))
                 ((copy_prefix (ti_class_size (types s6 ! p)) (classes s6 ! pc)
                     (class_zero (ti_class_size (types s6 ! ti))))
                    \<lparr>oc_interfaces := ifs, oc_properties := Some tb, oc_type := Some ti\<rparr>)
                 = Ok (classes s6 ! length (classes s))))"
proof -
  let ?c = "length (classes s)"
  from r obtain s1 s2 par s3 s4 s5 where
    a1: "type_initialize_sizes n ti s = Ok ((), s1)"
    and a2: "class_alloc ti s1 = Ok ((), s2)"
    and a3: "type_get_parent ti s2 = Ok (par, s3)"
    and a4: "type_initialize_parent n rec ti par s3 = Ok ((), s4)"
    and a5: "class_set_type ti s4 = Ok ((), s5)"
    and a6: "class_base_init_loop n par ti s5 = Ok ((), s6)"
    by (auto simp: type_initialize_setup_def bind_eq_Ok)
  note z1 = type_initialize_sizes_grows [OF a1 cN]
  have g01: "grows ?c {} {} s s1" by (rule z1(1))
  show t0: "ti < length (types s)" by (rule z1(3))
  note z2 = class_alloc_Ok [OF a2]
  let ?csz = "ti_class_size (types s1 ! ti)"
  have g12: "grows ?c {} {} s1 s2"
    using class_alloc_grows [OF a2 z1(4), of "{}" "{}"] z1(2) by simp
  have f2: "ti < length (types s2)" "ti_class (types s2 ! ti) = Some ?c"
    "length (classes s2) = Suc ?c" "classes s2 ! ?c = class_zero ?csz"
    "trace s2 = trace s" "ti_class_size (types s2 ! ti) = ?csz"
    using z2(1) z1(2,5) by (simp_all add: z2(2))
  have c23: "cached s2 s3" using a3 by (rule type_get_parent_cached)
  have g23: "grows ?c {} {} s2 s3" using c23 by (rule cached_grows)
  have g03: "grows ?c {} {} s s3" using g01 g12 g23 by (blast intro: grows_trans)
  have par: "par = parent_of s ti"
    using type_get_parent_result(2) [OF a3] growsD(8) [OF grows_trans [OF g01 g12] t0] by simp
  have f3: "ti < length (types s3)" "ti_class (types s3 ! ti) = Some ?c"
    "length (classes s3) = Suc ?c" "classes s3 ! ?c = class_zero ?csz"
    "trace s3 = trace s" "ti_class_size (types s3 ! ti) = ?csz"
    using cached_class_cell [OF c23 f2(1)] f2 cachedD(7) [OF c23]
      cachedD(9) [OF c23 f2(1)] by (simp_all add: same_except_parent_type_def)
  have cl3: "?c < length (classes s3)" using f3(3) by simp
  have P4: "grows (Suc ?c) {?c} {?c} s3 s4 \<and> ti < length (types s4)
      \<and> ti_class (types s4 ! ti) = Some ?c \<and> ?c < length (classes s4)"
  proof (cases par)
    case None
    with a4 have a4': "type_initialize_parent n rec ti None s3 = Ok ((), s4)" by simp
    from type_initialize_parent_None [OF a4' f3(2)] show ?thesis by simp
  next
    case (Some q)
    with a4 have a4': "type_initialize_parent n rec ti (Some q) s3 = Ok ((), s4)" by simp
    from type_initialize_parent_Some [OF ok a4' f3(1,2) cl3] f3(3) show ?thesis by simp
  qed
  then have g34: "grows (Suc ?c) {?c} {?c} s3 s4" and t4: "ti < length (types s4)"
    and c4: "ti_class (types s4 ! ti) = Some ?c" and cl4: "?c < length (classes s4)"
    by simp_all
  have g34': "grows ?c {} {} s3 s4"
    by (rule grows_weaken [OF g34]) simp_all
  from class_set_type_Ok [OF a5] c4 have
    s5: "s5 = set_class ?c ((classes s4 ! ?c)\<lparr>oc_type := Some ti\<rparr>) s4" by auto
  have g45: "grows (Suc ?c) {?c} {?c} s4 s5" unfolding s5 by (rule grows_own_write)
  have g45': "grows ?c {} {} s4 s5"
    by (rule grows_weaken [OF g45]) simp_all
  have f5: "types s5 = types s4" "type_table s5 = type_table s4" "trace s5 = trace s4"
    "length (classes s5) = length (classes s4)"
    "classes s5 ! ?c = (classes s4 ! ?c)\<lparr>oc_type := Some ti\<rparr>"
    "\<And>i. i \<noteq> ?c \<Longrightarrow> classes s5 ! i = classes s4 ! i"
    using cl4 by (simp_all add: s5)
  have t5: "ti < length (types s5)" "ti_class (types s5 ! ti) = Some ?c"
    using t4 c4 f5(1) by simp_all
  note z6 = class_base_init_loop_grows [OF a6 t5, of "Suc ?c"]
  have g56: "grows (Suc ?c) {?c} {?c} s5 s6" using z6 by simp
  have g56': "grows ?c {} {} s5 s6"
    by (rule grows_weaken [OF g56]) simp_all
  show G: "grows ?c {} {} s s6"
    using g03 g34' g45' g56' by (blast intro: grows_trans)
  have g36: "grows (Suc ?c) {?c} {?c} s3 s6"
    using g34 g45 g56 by (blast intro: grows_trans)
  note k6 = grows_class_kept [OF g36 f3(1,2)]
  show "ti < length (types s6)" by (rule k6(3))
  show "ti_class (types s6 ! ti) = Some ?c" by (rule k6(1))
  show "?c < length (classes s6)" using cl4 f5(4) z6 by simp
  have sz6: "ti_class_size (types s6 ! ti) = ?csz" using k6(2) f3(6) by simp
  have e03: "class_events ?c s s3 []"
    by (rule class_events_same_trace) (rule f3(5))
  have e45: "class_events ?c s4 s5 []"
    by (rule class_events_same_trace) (rule f5(3))
  show "class_events ?c s s6 []
       \<and> (\<exists>tb. classes s6 ! ?c
             = (class_zero (ti_class_size (types s6 ! ti)))
                 \<lparr>oc_properties := Some tb, oc_type := Some ti\<rparr>)"
    if "parent_of s ti = None"
  proof -
    from that par have pn: "par = None" by simp
    with a4 have a4': "type_initialize_parent n rec ti None s3 = Ok ((), s4)" by simp
    note y = type_initialize_parent_None [OF a4' f3(2)]
    from a6 pn have s6: "s6 = s5" by simp
    have e34: "class_events ?c s3 s4 []"
      by (rule class_events_same_trace) (rule y(6))
    from class_events_trans [OF e03 class_events_trans [OF e34 e45]]
    have "class_events ?c s s6 []" by (simp add: s6)
    moreover have "classes s6 ! ?c
        = (class_zero ?csz)\<lparr>oc_properties := Some (tables s3), oc_type := Some ti\<rparr>"
      using y(7) f5(5) f3(4) by (simp add: s6)
    ultimately show ?thesis using sz6 by auto
  qed
  show "\<exists>pc. p < length (types s6) \<and> ti_class (types s6 ! p) = Some pc
         \<and> pc < length (classes s6)
         \<and> (p \<noteq> ti \<longrightarrow> Suc ?c \<le> pc \<or> ti_class (types s ! p) = Some pc)
         \<and> class_events ?c s s6
             (Memcpy ?c pc (ti_class_size (types s6 ! p)) # base_init_events s ?c (p # ps))
         \<and> (pc \<noteq> ?c \<longrightarrow>
              (\<exists>ifs tb. base_init_apply s (p # ps) (ti_class_data (types s ! ti))
                 ((copy_prefix (ti_class_size (types s6 ! p)) (classes s6 ! pc)
                     (class_zero (ti_class_size (types s6 ! ti))))
                    \<lparr>oc_interfaces := ifs, oc_properties := Some tb, oc_type := Some ti\<rparr>)
                 = Ok (classes s6 ! ?c)))"
    if ch: "parent_chain s ti (p # ps)"
  proof -
    from parent_chain_parent_of [OF ch] par have ps: "par = Some p" by simp
    with a4 have a4': "type_initialize_parent n rec ti (Some p) s3 = Ok ((), s4)" by simp
    from type_initialize_parent_Some [OF ok a4' f3(1,2) cl3] obtain pc where
      y: "p < length (types s4)" "ti_class (types s4 ! p) = Some pc" "pc < length (classes s4)"
        "class_events ?c s3 s4 [Memcpy ?c pc (ti_class_size (types s4 ! p))]"
        "pc \<noteq> ?c \<Longrightarrow> \<exists>ifs tb. classes s4 ! ?c
            = (copy_prefix (ti_class_size (types s4 ! p)) (classes s4 ! pc) (classes s3 ! ?c))
                \<lparr>oc_interfaces := ifs, oc_properties := Some tb\<rparr>"
      by blast
    have g05: "grows ?c {} {} s s5" using g03 g34' g45' by (blast intro: grows_trans)
    have ch5: "parent_chain s5 p ps"
      using parent_chain_grows [OF g05 parent_chain_tail [OF ch]] .
    from a6 ps have a6': "class_base_init_loop n (Some p) ti s5 = Ok ((), s6)" by simp
    note w = class_base_init_loop_chain [OF a6' ch5 t5, of "Suc ?c"]
    have hooks: "ti_class_base_init (types s5 ! u) = ti_class_base_init (types s ! u)"
      if "u \<in> set (p # ps)" for u
    proof -
      from that have "u \<in> set (ti # p # ps)" by simp
      from parent_chain_in_range [OF ch this] show ?thesis by (rule grows_hooks(1) [OF g05])
    qed
    have ev5: "base_init_events s5 ?c (p # ps) = base_init_events s ?c (p # ps)"
      using hooks by (rule base_init_events_cong)
    have pl5: "base_init_apply s5 (p # ps) d x = base_init_apply s (p # ps) d x" for d x
      using hooks by (rule base_init_apply_cong)
    have d5: "ti_class_data (types s5 ! ti) = ti_class_data (types s ! ti)"
      using grows_hooks(3) [OF g05 t0] .
    have g46: "grows (Suc ?c) {?c} {?c} s4 s6" using g45 g56 by (rule grows_trans)
    note kp = grows_class_kept [OF g46 y(1,2)]
    have pc6: "pc < length (classes s6)" using y(3) growsD(6) [OF g46] by simp
    have e56: "class_events ?c s5 s6 (base_init_events s ?c (p # ps))"
      using w ev5 class_events_base_init [of s6 s5 s ?c "p # ps"] by simp
    from class_events_trans [OF e03 class_events_trans [OF y(4) class_events_trans [OF e45 e56]]]
    have E: "class_events ?c s s6
        (Memcpy ?c pc (ti_class_size (types s6 ! p)) # base_init_events s ?c (p # ps))"
      using kp(2) by simp
    have cell: "classes s6 ! pc = classes s4 ! pc" if "pc \<noteq> ?c"
      using w f5(6) [OF that] that by simp
    have py: "\<exists>ifs tb. base_init_apply s (p # ps) (ti_class_data (types s ! ti))
                 ((copy_prefix (ti_class_size (types s6 ! p)) (classes s6 ! pc)
                     (class_zero (ti_class_size (types s6 ! ti))))
                    \<lparr>oc_interfaces := ifs, oc_properties := Some tb, oc_type := Some ti\<rparr>)
                 = Ok (classes s6 ! ?c)"
      if ne: "pc \<noteq> ?c"
    proof -
      from y(5) [OF ne] obtain ifs tb where
        k4: "classes s4 ! ?c
            = (copy_prefix (ti_class_size (types s4 ! p)) (classes s4 ! pc) (classes s3 ! ?c))
                \<lparr>oc_interfaces := ifs, oc_properties := Some tb\<rparr>"
        by blast
      have "base_init_apply s (p # ps) (ti_class_data (types s ! ti)) (classes s5 ! ?c)
          = Ok (classes s6 ! ?c)"
        using w pl5 d5 by simp
      then have "base_init_apply s (p # ps) (ti_class_data (types s ! ti))
                 ((copy_prefix (ti_class_size (types s6 ! p)) (classes s6 ! pc)
                     (class_zero (ti_class_size (types s6 ! ti))))
                    \<lparr>oc_interfaces := ifs, oc_properties := Some tb, oc_type := Some ti\<rparr>)
                 = Ok (classes s6 ! ?c)"
        using k4 f5(5) cell [OF ne] kp(2) sz6 f3(4) by (simp del: base_init_apply.simps)
      then show ?thesis by blast
    qed
    have old: "Suc ?c \<le> pc \<or> ti_class (types s ! p) = Some pc" if ne: "p \<noteq> ti"
    proof (cases "Suc ?c \<le> pc")
      case True
      then show ?thesis by simp
    next
      case False
      with growsD(10) [OF g34 y(1,2)] have
        p3: "p < length (types s3)" "ti_class (types s3 ! p) = Some pc" by auto
      have p2: "p < length (types s2)" using p3(1) cachedD(8) [OF c23] by simp
      have "ti_class (types s2 ! p) = Some pc"
        using cached_class_cell(1) [OF c23 p2] p3(2) by simp
      then have p1: "p < length (types s1)" "ti_class (types s1 ! p) = Some pc"
        using p2 ne by (simp_all add: z2(2))
      from growsD(10) [OF z1(1) [of "Suc ?c" "{}" "{}"] p1] False show ?thesis by simp
    qed
    from kp(3,1) pc6 E py old show ?thesis by blast
  qed
qed

lemma type_initialize_class_init_Ok:
  assumes "type_initialize_class_init ti s = Ok ((), s')" "ti_class (types s ! ti) = Some c"
  shows "grows k {c} {c} s s'" "types s' = types s"
    "trace s' = trace s @ (if ti_class_init (types s ! ti) = None then [] else [Class_init ti c])"
proof -
  have "grows k {c} {c} s s' \<and> types s' = types s
    \<and> trace s' = trace s @ (if ti_class_init (types s ! ti) = None then [] else [Class_init ti c])"
  proof (cases "ti_class_init (types s ! ti)")
    case None
    with assms show ?thesis by (auto simp: type_initialize_class_init_def bind_eq_Ok)
  next
    case (Some hook)
    with assms have "call_class_hook (Class_init ti) hook ti s = Ok ((), s')"
      by (auto simp: type_initialize_class_init_def bind_eq_Ok)
    from call_class_hook_Ok [OF this] assms(2) obtain k' where
      s': "s' = emit (Class_init ti c) (set_class c k' s)"
      by auto
    have "grows k {c} {c} s s'" unfolding s' by (rule grows_own_write_event) simp
    then show ?thesis using Some by (simp add: s')
  qed
  then show "grows k {c} {c} s s'" "types s' = types s"
    "trace s' = trace s @ (if ti_class_init (types s ! ti) = None then [] else [Class_init ti c])"
    by simp_all
qed

lemma type_initialize_body_split:
  assumes "type_initialize_body n rec ti s = Ok ((), s')" "ti_class (types s ! ti) = None"
  obtains s6 where "type_initialize_setup n rec ti s = Ok ((), s6)"
    "type_initialize_class_init ti s6 = Ok ((), s')"
  using assms by (auto simp: type_initialize_body_def bind_eq_Ok)

lemma type_initialize_rec_ok: "rec_ok (type_initialize n)"
proof (induction n)
  case 0
  show ?case by (simp add: rec_ok_def)
next
  case (Suc n)
  show ?case
    unfolding rec_ok_def
  proof (intro allI impI)
    fix x s s'
    assume r: "type_initialize (Suc n) x s = Ok ((), s')"
    then have b: "type_initialize_body n (type_initialize n) x s = Ok ((), s')" by simp
    then have x: "x < length (types s)"
      by (auto simp: type_initialize_body_def bind_eq_Ok)
    show "grows (length (classes s)) {} {} s s' \<and> x < length (types s')
        \<and> ti_class (types s' ! x) \<noteq> None"
    proof (cases "ti_class (types s ! x)")
      case (Some c)
      with b x have "s' = s" by (simp add: type_initialize_body_def bind_eq_Ok)
      with x Some show ?thesis by simp
    next
      case None
      from type_initialize_body_split [OF b None] obtain s6 where
        u: "type_initialize_setup n (type_initialize n) x s = Ok ((), s6)"
        and v: "type_initialize_class_init x s6 = Ok ((), s')" by blast
      note z = type_initialize_setup_grows(1-5) [OF Suc.IH u None]
      note y = type_initialize_class_init_Ok [OF v z(4)]
      have "grows (length (classes s)) {} {} s6 s'"
        by (rule grows_weaken [OF y(1) [of "Suc (length (classes s))"]]) simp_all
      with z(1) have "grows (length (classes s)) {} {} s s'" by (rule grows_trans)
      with z(3,4) y(2) show ?thesis by simp
    qed
  qed
qed

subsection \<open>Chains and states of runs\<close>




lemma returns_the_state:
  "state_of r \<noteq> None \<Longrightarrow> \<exists>x. r = Ok (x, the_state r)"
  by (cases r) (auto simp: state_of_def the_state_def)


subsection \<open>More of the programs\<close>


lemma materialise_facts_holds:
  "materialise_facts hooks_registered hooks_ha_state
     (type_initialize_setup 5 (type_initialize 5) 3 hooks_ha_state)
     (type_initialize 6 4 hooks_registered)"
  by code_simp

lemma registered_facts_holds:
  "registered_facts roots_state (Base_register 5 roots_state)
     (object_class_by_name 5 (Some ''base'') main_registered)"
  by code_simp

lemma class_events_trace:
  "trace s' = trace s @ ev \<Longrightarrow> \<forall>e\<in>set ev. event_class e = Some c \<Longrightarrow> class_events c s s' ev"
  by (auto simp: class_events_def filter_id_conv)

lemma type_register_internal_Ok:
  assumes r: "type_register_internal n info s = Ok (t, s')"
  shows "\<exists>nm. info_name info = Some nm \<and> type_table s nm = None
      \<and> t = length (types s) \<and> type_table s' = (type_table s)(nm \<mapsto> t)
      \<and> t < length (types s') \<and> ti_name (types s' ! t) = nm"
proof -
  from r obtain x s1 s2 where
    a0: "type_new info s = Ok (x, s1)" and b0: "type_table_add x s1 = Ok ((), s2)"
    and c0: "(if info_type_init_phase info = TYPE_REGISTER_PHASE
             then bind (type_initialize n x s2) (\<lambda>_ s. Ok (x, s)) else Ok (x, s2)) = Ok (t, s')"
    by (auto simp: type_register_internal_def bind_eq_Ok)
  from c0 have xt: "x = t" by (auto simp: bind_eq_Ok split: if_splits)
  note a = a0 [unfolded xt] and b = b0 [unfolded xt] and c = c0 [unfolded xt]
  from a obtain nm where nm: "info_name info = Some nm" "type_table s nm = None"
    by (auto simp: type_new_def type_table_lookup_def split: option.splits if_splits)
  from type_new_Ok [OF a] nm obtain x where
    t: "t = length (types s)" and s1: "s1 = s\<lparr>types := types s @ [x]\<rparr>" and x: "ti_name x = nm"
    by auto
  from b have s2: "s2 = s1\<lparr>type_table := (type_table s1)(nm \<mapsto> t)\<rparr>"
    by (auto simp: type_table_add_def bind_eq_Ok s1 t x split: if_splits)
  have f2: "type_table s2 = (type_table s)(nm \<mapsto> t)" "t < length (types s2)"
    "ti_name (types s2 ! t) = nm"
    by (simp_all add: s2 s1 t x)
  have "type_table s' = type_table s2 \<and> t < length (types s') \<and> ti_name (types s' ! t) = nm"
  proof (cases "info_type_init_phase info = TYPE_REGISTER_PHASE")
    case False
    with c f2 show ?thesis by simp
  next
    case True
    with c have i: "type_initialize n t s2 = Ok ((), s')" by (auto simp: bind_eq_Ok)
    note g = rec_okD [OF type_initialize_rec_ok i]
    from growsD(1) [OF g(1)] g(2) grows_hooks(6) [OF g(1) f2(2)] f2(3) show ?thesis by simp
  qed
  with nm t f2 show ?thesis by simp
qed

section \<open>The last reference (C7)\<close>




section \<open>The class at the call of \<open>class_init\<close> (C3)\<close>




section \<open>The order of the class hooks (C4)\<close>

text \<open>
  C4, as stated, fails in the order: for the class of \<open>hc\<close> (type 4, class 0), whose
  parent chain is \<open>hb\<close>, \<open>ha\<close>, \<open>object\<close> (types 3, 2, 1), the \<open>class_base_init\<close> of
  the immediate parent \<open>hb\<close> is called before that of \<open>ha\<close>, which is nearer the root.
\<close>

theorem class_base_init_parent_first:
  "oc_type (classes hooks_state ! 0) = Some 4 \<and> parent_chain hooks_state 4 [3, 2, 1]
   \<and> filter (\<lambda>e. event_class e = Some 0) (trace hooks_state)
       = [Memcpy 0 1 100, Class_base_init 3 0, Class_base_init 2 0, Class_init 4 0]"
  using hooks_facts_holds unfolding hooks_facts_def by blast

text \<open>
  C4, amended. Let \<open>T\<close> have no class and the parent chain \<open>P # ps\<close>. When
  \<open>type_initialize\<close> returns, the class of \<open>T\<close> is a new cell, and the events about it
  are, in this order: the copy of the first \<open>P.class_size\<close> bytes of the class of \<open>P\<close>,
  the \<open>class_base_init\<close> hooks of the ancestors that have one, from the immediate parent
  \<open>P\<close> along the chain to the root, and last the \<open>class_init\<close> of \<open>T\<close> itself if it has
  one.
\<close>

theorem class_hooks_order:
  assumes "type_initialize (Suc n) T s = Ok ((), s')"
    and "ti_class (types s ! T) = None" and "parent_chain s T (P # ps)"
  shows "\<exists>pc. ti_class (types s' ! T) = Some (length (classes s))
      \<and> ti_class (types s' ! P) = Some pc
      \<and> class_events (length (classes s)) s s'
          (Memcpy (length (classes s)) pc (ti_class_size (types s' ! P))
             # base_init_events s (length (classes s)) (P # ps)
             @ (if ti_class_init (types s ! T) = None then []
                else [Class_init T (length (classes s))]))"
proof -
  let ?c = "length (classes s)"
  from assms(1) have b: "type_initialize_body n (type_initialize n) T s = Ok ((), s')" by simp
  from type_initialize_body_split [OF b assms(2)] obtain s6 where
    u: "type_initialize_setup n (type_initialize n) T s = Ok ((), s6)"
    and v: "type_initialize_class_init T s6 = Ok ((), s')" by blast
  note z = type_initialize_setup_grows [OF type_initialize_rec_ok u assms(2)]
  note y = type_initialize_class_init_Ok [OF v z(4)]
  from z(7) [OF assms(3)] obtain pc where
    p: "ti_class (types s6 ! P) = Some pc"
      "class_events ?c s s6
         (Memcpy ?c pc (ti_class_size (types s6 ! P)) # base_init_events s ?c (P # ps))"
    by blast
  have h: "ti_class_init (types s6 ! T) = ti_class_init (types s ! T)"
    using grows_hooks(2) [OF z(1,2)] .
  have e: "class_events ?c s6 s'
      (if ti_class_init (types s ! T) = None then [] else [Class_init T ?c])"
    by (rule class_events_trace) (simp_all add: y(3) h)
  from class_events_trans [OF p(2) e] p(1) z(4) y(2) show ?thesis by simp
qed

theorem class_hooks_order_witness:
  "type_initialize 6 4 hooks_registered = Ok ((), hooks_hc_state)
   \<and> parent_chain hooks_registered 4 [3, 2, 1]
   \<and> class_events 0 hooks_registered hooks_hc_state
       [Memcpy 0 1 100, Class_base_init 3 0, Class_base_init 2 0, Class_init 4 0]"
proof -
  note f = materialise_facts_holds [unfolded materialise_facts_def, folded hooks_hc_state_def]
  from f have "state_of (type_initialize 6 4 hooks_registered) \<noteq> None" by blast
  from returns_the_state [OF this]
  have r: "type_initialize 6 4 hooks_registered = Ok ((), hooks_hc_state)"
    by (simp add: hooks_hc_state_def)
  then have r': "type_initialize (Suc 5) 4 hooks_registered = Ok ((), hooks_hc_state)"
    by (simp add: eval_nat_numeral)
  from f have h: "ti_class (types hooks_registered ! 4) = None"
    "parent_chain hooks_registered 4 [3, 2, 1]" by blast+
  from f have v: "length (classes hooks_registered) = 0"
    "base_init_events hooks_registered 0 [3, 2, 1] = [Class_base_init 3 0, Class_base_init 2 0]"
    "ti_class_init (types hooks_registered ! 4) \<noteq> None"
    "ti_class (types hooks_hc_state ! 3) = Some 1"
    "ti_class_size (types hooks_hc_state ! 3) = 100"
    by blast+
  from class_hooks_order [OF r' h] v r h(2) show ?thesis by auto
qed

section \<open>Registration under a missing or a used name (C8)\<close>

text \<open>
  C8. A registration without a name fails the assertion of \<open>type_new\<close>, and one under a
  name that is in the table aborts, through \<open>type_register_internal\<close>, \<open>type_register\<close>
  and \<open>type_register_static\<close> alike. A registration that returns has found the name
  free and has bound it to the new descriptor, changing no other name of the table; from
  then on every registration under the same name aborts.
\<close>

theorem type_register_rejects_name:
  "(info_name info = None \<longrightarrow>
       type_register_internal n info s = Fatal (Assertion_failed ''info->name != NULL'')
       \<and> (\<exists>e. type_register n info s = Fatal e)
       \<and> (\<exists>e. type_register_static n info s = Fatal e))
   \<and> (info_name info = Some nm \<longrightarrow> type_table s nm \<noteq> None \<longrightarrow>
       type_register_internal n info s
         = Fatal (Aborted None (''Registering `'' @ nm @ ''' which already exists''))
       \<and> (\<exists>e. type_register n info s = Fatal e)
       \<and> (\<exists>e. type_register_static n info s = Fatal e))
   \<and> (type_register_internal n info s = Ok (t, s') \<or> type_register n info s = Ok (t, s')
         \<or> type_register_static n info s = Ok (t, s') \<longrightarrow>
       info_name info = Some nm \<longrightarrow>
       type_table s nm = None \<and> type_table s' = (type_table s)(nm \<mapsto> t)
       \<and> (info_name info' = Some nm \<longrightarrow>
             type_register_internal m info' s'
               = Fatal (Aborted None (''Registering `'' @ nm @ ''' which already exists''))
             \<and> (\<exists>e. type_register m info' s' = Fatal e)
             \<and> (\<exists>e. type_register_static m info' s' = Fatal e)))"
proof -
  have none: "type_register_internal k i z = Fatal (Assertion_failed ''info->name != NULL'')
       \<and> (\<exists>e. type_register k i z = Fatal e) \<and> (\<exists>e. type_register_static k i z = Fatal e)"
    if "info_name i = None" for k i z
    using that
    by (simp add: type_register_static_def type_register_def type_register_internal_def
        type_new_def bind_def)
  have dup: "type_register_internal k i z
         = Fatal (Aborted None (''Registering `'' @ nm @ ''' which already exists''))
       \<and> (\<exists>e. type_register k i z = Fatal e) \<and> (\<exists>e. type_register_static k i z = Fatal e)"
    if "info_name i = Some nm" "type_table z nm \<noteq> None" for k i z
    using that
    by (auto simp: type_register_static_def type_register_def type_register_internal_def
        type_new_def bind_def type_table_lookup_def)
  have second: "type_table s nm = None \<and> type_table s' = (type_table s)(nm \<mapsto> t)
       \<and> (info_name info' = Some nm \<longrightarrow>
             type_register_internal m info' s'
               = Fatal (Aborted None (''Registering `'' @ nm @ ''' which already exists''))
             \<and> (\<exists>e. type_register m info' s' = Fatal e)
             \<and> (\<exists>e. type_register_static m info' s' = Fatal e))"
    if r: "type_register_internal n info s = Ok (t, s') \<or> type_register n info s = Ok (t, s')
         \<or> type_register_static n info s = Ok (t, s')" and nm: "info_name info = Some nm"
  proof -
    from r have "type_register_internal n info s = Ok (t, s')"
      by (auto simp: type_register_static_def type_register_def split: if_splits)
    from type_register_internal_Ok [OF this] nm have
      a: "type_table s nm = None" "type_table s' = (type_table s)(nm \<mapsto> t)" by auto
    from a(2) have "type_table s' nm \<noteq> None" by simp
    with dup [of info' s' m] a show ?thesis by blast
  qed
  from none [of info n s] dup [of info s n] second show ?thesis by blast
qed

theorem type_register_rejects_name_witness:
  "type_table main_registered ''base'' = Some 2
   \<and> type_register_internal 5 base_type_info main_registered
       = Fatal (Aborted None ''Registering `base' which already exists'')
   \<and> (\<exists>e. type_register_static 5 base_type_info main_registered = Fatal e)
   \<and> type_register_internal 5 (base_type_info\<lparr>info_name := None\<rparr>) main_registered
       = Fatal (Assertion_failed ''info->name != NULL'')"
proof -
  note f = registered_facts_holds [unfolded registered_facts_def, folded main_registered_def]
  from f have "state_of (Base_register 5 roots_state) \<noteq> None" by blast
  from returns_the_state [OF this] obtain t where
    r: "type_register_static 5 base_type_info roots_state = Ok (t, main_registered)"
    by (auto simp: main_registered_def Base_register_def)
  have nm: "info_name base_type_info = Some ''base''"
    by (simp add: base_type_info_def TYPE_BASE_def)
  from f have tb: "type_table main_registered ''base'' = Some 2" by blast
  have a: "info_name (base_type_info\<lparr>info_name := None\<rparr>) = None" by simp
  from type_register_rejects_name [of base_type_info 5 roots_state "''base''" t main_registered
      base_type_info 5] r nm
  have b: "type_register_internal 5 base_type_info main_registered
       = Fatal (Aborted None ''Registering `base' which already exists'')"
    "\<exists>e. type_register_static 5 base_type_info main_registered = Fatal e"
    by auto
  from type_register_rejects_name [of "base_type_info\<lparr>info_name := None\<rparr>" 5 main_registered] a
  have c: "type_register_internal 5 (base_type_info\<lparr>info_name := None\<rparr>) main_registered
       = Fatal (Assertion_failed ''info->name != NULL'')"
    by blast
  from tb b c show ?thesis by blast
qed

section \<open>Looking a class up and materialising it (C10)\<close>



end
